(* ===== verification/Next_Prelude.thy ===== *)
theory Next_Prelude
  imports Main "HOL-Library.Word"
begin

text \<open>
  Shared vocabulary of the development: the machine integers of the C sources as words of their
  width, byte buffers as lists of 8-bit words, reads and writes of a buffer at an offset, and the
  little-endian loads and stores that every component uses (the relay and the SDK are built for
  little-endian hosts; \<open>htons\<close> and \<open>htonl\<close> are therefore byte swaps).
  The collections \<open>buffer_simps\<close> and \<open>codec_simps\<close> carry the component proofs.
\<close>

unbundle bit_operations_syntax

section \<open>Types\<close>

type_synonym u8 = "8 word"
type_synonym u16 = "16 word"
type_synonym u32 = "32 word"
type_synonym u64 = "64 word"
type_synonym bytes = "u8 list"

named_theorems buffer_simps \<open>reads and writes of byte buffers at offsets\<close>
named_theorems codec_simps \<open>little-endian loads and stores\<close>

section \<open>Buffers: reading and writing at an offset\<close>

definition window :: "nat \<Rightarrow> nat \<Rightarrow> 'a list \<Rightarrow> 'a list" where
  "window off n xs = take n (drop off xs)"

definition overwrite :: "nat \<Rightarrow> 'a list \<Rightarrow> 'a list \<Rightarrow> 'a list" where
  "overwrite off bs xs = take off xs @ bs @ drop (off + length bs) xs"

lemma length_window [buffer_simps]:
  "length (window off n xs) = min n (length xs - off)"
  by (simp add: window_def)

lemma nth_window [buffer_simps]:
  "i < n \<Longrightarrow> off + i < length xs \<Longrightarrow> window off n xs ! i = xs ! (off + i)"
  by (simp add: window_def)

lemma length_overwrite [buffer_simps]:
  "off + length bs \<le> length xs \<Longrightarrow> length (overwrite off bs xs) = length xs"
  by (simp add: overwrite_def)

lemma nth_overwrite_inside:
  "off + length bs \<le> length xs \<Longrightarrow> off \<le> i \<Longrightarrow> i < off + length bs \<Longrightarrow>
   overwrite off bs xs ! i = bs ! (i - off)"
  by (auto simp: overwrite_def nth_append min_def less_diff_conv2)

lemma nth_overwrite_before:
  "off + length bs \<le> length xs \<Longrightarrow> i < off \<Longrightarrow> overwrite off bs xs ! i = xs ! i"
  by (simp add: overwrite_def nth_append)

lemma nth_overwrite_after:
  "off + length bs \<le> length xs \<Longrightarrow> off + length bs \<le> i \<Longrightarrow> i < length xs \<Longrightarrow>
   overwrite off bs xs ! i = xs ! i"
  by (auto simp: overwrite_def nth_append)

lemma nth_overwrite:
  assumes "off + length bs \<le> length xs" "i < length xs"
  shows "overwrite off bs xs ! i = (if off \<le> i \<and> i < off + length bs then bs ! (i - off) else xs ! i)"
  using assms nth_overwrite_inside [of off bs xs i] nth_overwrite_before [of off bs xs i]
    nth_overwrite_after [of off bs xs i]
  by (cases "i < off"; cases "i < off + length bs") auto

lemma window_overwrite_same [buffer_simps]:
  "off + length bs \<le> length xs \<Longrightarrow> n = length bs \<Longrightarrow> window off n (overwrite off bs xs) = bs"
  by (simp add: window_def overwrite_def)

lemma window_overwrite_before [buffer_simps]:
  "off + length bs \<le> length xs \<Longrightarrow> o' + n \<le> off \<Longrightarrow> window o' n (overwrite off bs xs) = window o' n xs"
  by (rule nth_equalityI) (auto simp: buffer_simps nth_overwrite_before)

lemma window_overwrite_after [buffer_simps]:
  "off + length bs \<le> length xs \<Longrightarrow> off + length bs \<le> o' \<Longrightarrow>
   window o' n (overwrite off bs xs) = window o' n xs"
  by (rule nth_equalityI) (auto simp: buffer_simps nth_overwrite_after)

lemma window_overwrite_within:
  "off + length bs \<le> length xs \<Longrightarrow> off \<le> o' \<Longrightarrow> o' + n \<le> off + length bs \<Longrightarrow>
   window o' n (overwrite off bs xs) = window (o' - off) n bs"
  by (rule nth_equalityI) (auto simp: buffer_simps nth_overwrite_inside)

lemma window_drop [buffer_simps]: "window o' n (drop k xs) = window (k + o') n xs"
  by (simp add: window_def add.commute)

lemma window_append_right [buffer_simps]:
  "length xs \<le> o' \<Longrightarrow> window o' n (xs @ ys) = window (o' - length xs) n ys"
  by (simp add: window_def)

lemma window_append_left [buffer_simps]:
  "o' + n \<le> length xs \<Longrightarrow> window o' n (xs @ ys) = window o' n xs"
  by (simp add: window_def)

lemma window_all [buffer_simps]: "n = length xs \<Longrightarrow> window 0 n xs = xs"
  by (simp add: window_def)

lemma window_take [buffer_simps]: "o' + n \<le> m \<Longrightarrow> window o' n (take m xs) = window o' n xs"
  by (simp add: window_def drop_take min_def)

lemma window_window [buffer_simps]:
  "o' + n \<le> m \<Longrightarrow> window o' n (window off m xs) = window (off + o') n xs"
  by (simp add: window_def drop_take min_def add.commute)

lemma drop_overwrite_after [buffer_simps]:
  "off + length bs \<le> length xs \<Longrightarrow> off + length bs \<le> k \<Longrightarrow> drop k (overwrite off bs xs) = drop k xs"
  by (rule nth_equalityI) (auto simp: buffer_simps nth_overwrite_after)

lemma overwrite_window [buffer_simps]:
  "off + n \<le> length xs \<Longrightarrow> overwrite off (window off n xs) xs = xs"
  by (simp add: overwrite_def window_def min_def) (metis add.commute append_take_drop_id drop_drop)

section \<open>Little-endian loads and stores\<close>

definition le_bytes :: "nat \<Rightarrow> 'a::len word \<Rightarrow> bytes" where
  "le_bytes n w = map (\<lambda>i. ucast (drop_bit (8 * i) w)) [0..<n]"

fun le_word :: "bytes \<Rightarrow> 'a::len word" where
  "le_word [] = 0"
| "le_word (b # bs) = ucast b OR push_bit 8 (le_word bs)"

lemma length_le_bytes [codec_simps, simp]: "length (le_bytes n w) = n"
  by (simp add: le_bytes_def)

lemma nth_le_bytes [codec_simps]: "i < n \<Longrightarrow> le_bytes n w ! i = ucast (drop_bit (8 * i) w)"
  by (simp add: le_bytes_def)

lemma bit_le_word:
  "bit (le_word bs :: 'a::len word) i \<longleftrightarrow>
     i < LENGTH('a) \<and> i div 8 < length bs \<and> bit (bs ! (i div 8)) (i mod 8)"
proof (induction bs arbitrary: i)
  case Nil
  then show ?case by simp
next
  case (Cons b bs)
  show ?case
  proof (cases "i < 8")
    case True
    then show ?thesis by (auto simp: bit_simps)
  next
    case False
    then obtain j where j: "i = j + 8" by (metis add.commute le_add_diff_inverse not_less)
    have nb: "\<not> bit b (j + 8)"
      using bit_imp_le_length [of b "j + 8"] by auto
    have dv: "(j + 8) div 8 = Suc (j div 8)" by simp
    show ?thesis using Cons.IH [of j] nb dv
      by (auto simp: j bit_simps dest: bit_imp_le_length)
  qed
qed

lemma le_word_le_bytes [codec_simps]:
  fixes w :: "'a::len word"
  assumes "LENGTH('a) \<le> 8 * n"
  shows "le_word (le_bytes n w) = w"
proof (rule bit_word_eqI)
  fix i assume i: "i < LENGTH('a)"
  then have d: "i div 8 < n" using assms by auto
  have m: "i mod 8 < 8" by simp
  show "bit (le_word (le_bytes n w) :: 'a word) i = bit w i"
    using i d m by (simp add: bit_le_word nth_le_bytes bit_simps)
qed

lemma le_bytes_le_word [codec_simps]:
  assumes "length bs = n" "8 * n \<le> LENGTH('a::len)"
  shows "le_bytes n (le_word bs :: 'a word) = bs"
proof (rule nth_equalityI)
  show "length (le_bytes n (le_word bs :: 'a word)) = length bs" using assms by simp
next
  fix i assume "i < length (le_bytes n (le_word bs :: 'a word))"
  then have i: "i < n" by simp
  show "le_bytes n (le_word bs :: 'a word) ! i = bs ! i"
  proof (rule bit_word_eqI)
    fix k assume k: "k < LENGTH(8)"
    then have "k < 8" by simp
    then have "8 * i + k < LENGTH('a)" "(8 * i + k) div 8 = i" "(8 * i + k) mod 8 = k"
      using i assms by auto
    then show "bit (le_bytes n (le_word bs :: 'a word) ! i) k = bit (bs ! i) k"
      using i \<open>k < 8\<close> assms by (simp add: nth_le_bytes bit_simps bit_le_word)
  qed
qed

lemma le_bytes_inj:
  fixes v w :: "'a::len word"
  assumes "LENGTH('a) \<le> 8 * n" "le_bytes n v = le_bytes n w"
  shows "v = w"
  using assms le_word_le_bytes by metis

definition load16 :: "nat \<Rightarrow> bytes \<Rightarrow> u16" where "load16 off f = le_word (window off 2 f)"
definition load32 :: "nat \<Rightarrow> bytes \<Rightarrow> u32" where "load32 off f = le_word (window off 4 f)"
definition load64 :: "nat \<Rightarrow> bytes \<Rightarrow> u64" where "load64 off f = le_word (window off 8 f)"

definition store8 :: "nat \<Rightarrow> u8 \<Rightarrow> bytes \<Rightarrow> bytes" where "store8 off v = overwrite off [v]"
definition store16 :: "nat \<Rightarrow> u16 \<Rightarrow> bytes \<Rightarrow> bytes" where "store16 off v = overwrite off (le_bytes 2 v)"
definition store32 :: "nat \<Rightarrow> u32 \<Rightarrow> bytes \<Rightarrow> bytes" where "store32 off v = overwrite off (le_bytes 4 v)"
definition store64 :: "nat \<Rightarrow> u64 \<Rightarrow> bytes \<Rightarrow> bytes" where "store64 off v = overwrite off (le_bytes 8 v)"

lemmas load_defs = load16_def load32_def load64_def
lemmas store_defs = store8_def store16_def store32_def store64_def

section \<open>Byte order\<close>

definition bswap16 :: "u16 \<Rightarrow> u16" where
  "bswap16 w = le_word (rev (le_bytes 2 w))"

definition bswap32 :: "u32 \<Rightarrow> u32" where
  "bswap32 w = le_word (rev (le_bytes 4 w))"

lemma bswap16_bswap16 [simp]: "bswap16 (bswap16 w) = w"
  by (simp add: bswap16_def codec_simps)

lemma bswap32_bswap32 [simp]: "bswap32 (bswap32 w) = w"
  by (simp add: bswap32_def codec_simps)

section \<open>Guards, masks and bytes\<close>

lemma guard_chain:
  "(if a then False else b) = (\<not> a \<and> b)" "(if a then True else b) = (a \<or> b)"
  by simp_all

lemma masked_range:
  fixes x k a :: u8
  assumes "unat k + unat a < 256"
  shows "a \<le> (x AND k) + a" and "(x AND k) + a \<le> k + a"
proof -
  have "x AND k \<le> k" by (rule word_and_le1)
  then have "unat (x AND k) \<le> unat k" by (simp add: word_le_nat_alt)
  moreover have "unat ((x AND k) + a) = unat (x AND k) + unat a"
    using calculation assms by (subst unat_word_ariths) simp
  moreover have "unat (k + a) = unat k + unat a"
    using assms by (subst unat_word_ariths) simp
  ultimately show "a \<le> (x AND k) + a" "(x AND k) + a \<le> k + a"
    by (simp_all add: word_le_nat_alt)
qed

lemma masked_upper:
  fixes x k a b :: u8
  assumes "unat k + unat a < 256" "k + a \<le> b"
  shows "(x AND k) + a \<le> b"
  using masked_range(2) [OF assms(1), of x] assms(2) by (rule order_trans)

lemma mask_255: "(0xFF :: 'a::len word) = mask 8"
  by (simp add: mask_eq_exp_minus_1)

lemma ucast_mask_byte:
  "(ucast ((w::u32) AND 0xFF) :: u8) = ucast w"
  "(ucast (w AND 0xFF) :: u16) = ucast (ucast w :: u8)"
  "(ucast (w AND 0xFF) :: u64) = ucast (ucast w :: u8)"
  "(ucast ((z::u64) AND 0xFF) :: u8) = ucast z"
  unfolding mask_255
  by (rule bit_word_eqI; auto simp: bit_simps)+

lemma ucast_top_byte:
  "(ucast (drop_bit 24 (w::u32)) :: u16) = ucast (ucast (drop_bit 24 w) :: u8)"
  "(ucast (drop_bit 24 (w::u32)) :: u64) = ucast (ucast (drop_bit 24 w) :: u8)"
  by (rule bit_word_eqI; auto simp: bit_simps dest: bit_imp_le_length)+

lemma le_bytes_explicit: "le_bytes 2 w = [ucast w, ucast (drop_bit 8 w)]"
  "le_bytes 4 v = [ucast v, ucast (drop_bit 8 v), ucast (drop_bit 16 v), ucast (drop_bit 24 v)]"
  "le_bytes 8 z = [ucast z, ucast (drop_bit 8 z), ucast (drop_bit 16 z), ucast (drop_bit 24 z),
     ucast (drop_bit 32 z), ucast (drop_bit 40 z), ucast (drop_bit 48 z), ucast (drop_bit 56 z)]"
  by (simp_all add: le_bytes_def upt_rec)

lemma list8: "length m = 8 \<Longrightarrow> m = [m ! 0, m ! 1, m ! 2, m ! 3, m ! 4, m ! 5, m ! 6, m ! 7]"
  by (rule nth_equalityI) (auto simp: nth_Cons' numeral_eq_Suc less_Suc_eq)

lemma length_field_bytes:
  assumes "n < 65536"
  shows "(ucast (ucast (word_of_nat n :: u16) :: u8) :: u16) = word_of_nat (n mod 256)"
    and "(ucast (ucast (word_of_nat n :: u16) :: u8) :: u64) = word_of_nat (n mod 256)"
    and "(ucast (ucast (drop_bit 8 (word_of_nat n :: u16)) :: u8) :: u16) = word_of_nat (n div 256)"
    and "(ucast (ucast (drop_bit 8 (word_of_nat n :: u16)) :: u8) :: u64) = word_of_nat (n div 256)"
proof -
  have take_bit_small: "take_bit 16 (n div 256) = n div 256" "take_bit 64 (n div 256) = n div 256"
    using assms by (simp_all add: take_bit_nat_eq_self)
  have d: "n div 256 < 256" using assms by auto
  have m: "n mod 256 < 256" by simp
  have d': "n div 256 < 65536" "n div 256 < 18446744073709551616" using d by linarith+
  have m': "n mod 256 < 65536" "n mod 256 < 18446744073709551616" using m by linarith+
  have t: "take_bit 16 n = n" "take_bit 8 n = n mod 256" "drop_bit 8 n = n div 256"
    "take_bit 8 (n div 256) = n div 256"
    using assms d by (simp_all add: take_bit_eq_mod drop_bit_eq_div)
  show "(ucast (ucast (word_of_nat n :: u16) :: u8) :: u16) = word_of_nat (n mod 256)"
    by (rule unsigned_word_eqI [where ?'a = nat]) (simp add: unsigned_ucast_eq unsigned_of_nat t take_bit_eq_mod m' assms)
  show "(ucast (ucast (word_of_nat n :: u16) :: u8) :: u64) = word_of_nat (n mod 256)"
    by (rule unsigned_word_eqI [where ?'a = nat]) (simp add: unsigned_ucast_eq unsigned_of_nat t take_bit_eq_mod m' assms)
  show "(ucast (ucast (drop_bit 8 (word_of_nat n :: u16)) :: u8) :: u16) = word_of_nat (n div 256)"
    by (rule unsigned_word_eqI [where ?'a = nat]) (simp add: unsigned_ucast_eq unsigned_of_nat unsigned_drop_bit_eq unsigned_take_bit_eq t take_bit_small d d' assms)
  show "(ucast (ucast (drop_bit 8 (word_of_nat n :: u16)) :: u8) :: u64) = word_of_nat (n div 256)"
    by (rule unsigned_word_eqI [where ?'a = nat]) (simp add: unsigned_ucast_eq unsigned_of_nat unsigned_drop_bit_eq unsigned_take_bit_eq t take_bit_small d d' assms)
qed

section \<open>Ring indices\<close>

lemma ring_index:
  assumes "s < n" "i < n" "j < n" "(s + i) mod n = (s + j) mod (n::nat)"
  shows "i = j"
proof -
  have m: "(s + x) mod n = (if s + x < n then s + x else s + x - n)" if "x < n" for x
    using that assms(1) by (simp add: mod_if [of "s + x" n] mod_if [of "s + x - n" n])
  show ?thesis using assms m [of i] m [of j] by (auto split: if_splits)
qed

lemma ring_shift: "a < n \<Longrightarrow> 0 < j \<Longrightarrow> j < n \<Longrightarrow> (a + j) mod n \<noteq> (a::nat)"
  using ring_index [of a n j 0] by force

end
