(* ===== verification/Bpf_Maps.thy ===== *)
theory Bpf_Maps
  imports Next_Prelude
begin

text \<open>
  The maps behind the datapath, as \<open>relay/xdp/relay_userspace.c\<close> implements them: a chained hash table
  with FNV-1a hashing of the key bytes, the helpers \<open>bpf_map_lookup_elem\<close>, \<open>bpf_map_update_elem\<close> and
  \<open>bpf_map_delete_elem\<close>, key iteration with \<open>us_map_get_next_key\<close>, and the timeout sweep
  of \<open>main_update_timeouts\<close> (\<open>relay/xdp/relay_main.c\<close>) that deletes while it iterates. The locale
  \<open>keyed_map\<close> is the contract the control plane relies on; it is interpreted on the hash table.
\<close>

section \<open>The hash table (relay\_userspace.h, relay\_userspace.c)\<close>

datatype us_map_kind = US_MAP_ARRAY | US_MAP_HASH

datatype bpf_flag = BPF_ANY | BPF_NOEXIST | BPF_EXIST

text \<open>
  A chain of \<open>us_hash_entry\<close> is the list of its key and value pairs. Keys are the \<open>key_size\<close> bytes the
  caller's key struct has in memory, so \<open>memcmp\<close> over \<open>key_size\<close> bytes is equality.
\<close>

record 'v us_map =
  kind :: us_map_kind
  key_size :: nat
  max_entries :: int
  array :: "'v list"
  buckets :: "(bytes \<times> 'v) list list"
  num_buckets :: nat
  count :: int

fun hash_bytes :: "u64 \<Rightarrow> bytes \<Rightarrow> u64" where
  "hash_bytes h [] = h"
| "hash_bytes h (b # bs) = hash_bytes ((h XOR ucast b) * 1099511628211) bs"

definition hash_key :: "'v us_map \<Rightarrow> bytes \<Rightarrow> nat" where
  "hash_key m key = unat (hash_bytes 1469598103934665603 (take (key_size m) key) mod of_nat (num_buckets m))"

fun chain_lookup :: "(bytes \<times> 'v) list \<Rightarrow> bytes \<Rightarrow> 'v option" where
  "chain_lookup [] key = None"
| "chain_lookup ((k, v) # es) key = (if k = key then Some v else chain_lookup es key)"

fun chain_store :: "(bytes \<times> 'v) list \<Rightarrow> bytes \<Rightarrow> 'v \<Rightarrow> (bytes \<times> 'v) list" where
  "chain_store [] key v = []"
| "chain_store ((k, w) # es) key v = (if k = key then (k, v) # es else (k, w) # chain_store es key v)"

fun chain_unlink :: "(bytes \<times> 'v) list \<Rightarrow> bytes \<Rightarrow> (bytes \<times> 'v) list" where
  "chain_unlink [] key = []"
| "chain_unlink ((k, w) # es) key = (if k = key then es else (k, w) # chain_unlink es key)"

definition bpf_map_lookup_elem :: "'v us_map \<Rightarrow> bytes \<Rightarrow> 'v option" where
  "bpf_map_lookup_elem m key =
     (if kind m = US_MAP_ARRAY then
        let index = le_word (take 4 key) :: u32 in
        if sint index \<ge> max_entries m then None else Some (array m ! unat index)
      else chain_lookup (buckets m ! hash_key m key) key)"

definition bpf_map_update_elem :: "'v us_map \<Rightarrow> bytes \<Rightarrow> 'v \<Rightarrow> bpf_flag \<Rightarrow> 'v us_map \<times> int" where
  "bpf_map_update_elem m key v flags =
     (if kind m = US_MAP_ARRAY then
        let index = le_word (take 4 key) :: u32 in
        if sint index \<ge> max_entries m then (m, -1)
        else (m\<lparr>array := (array m)[unat index := v]\<rparr>, 0)
      else
        let b = hash_key m key in
        case chain_lookup (buckets m ! b) key of
          Some _ \<Rightarrow>
            if flags = BPF_NOEXIST then (m, -1)
            else (m\<lparr>buckets := (buckets m)[b := chain_store (buckets m ! b) key v]\<rparr>, 0)
        | None \<Rightarrow>
            if flags = BPF_EXIST then (m, -1)
            else (m\<lparr>buckets := (buckets m)[b := (key, v) # buckets m ! b], count := count m + 1\<rparr>, 0))"

definition bpf_map_delete_elem :: "'v us_map \<Rightarrow> bytes \<Rightarrow> 'v us_map \<times> int" where
  "bpf_map_delete_elem m key =
     (if kind m \<noteq> US_MAP_HASH then (m, -1)
      else
        let b = hash_key m key in
        case chain_lookup (buckets m ! b) key of
          Some _ \<Rightarrow> (m\<lparr>buckets := (buckets m)[b := chain_unlink (buckets m ! b) key], count := count m - 1\<rparr>, 0)
        | None \<Rightarrow> (m, -1))"

subsection \<open>Key iteration\<close>

fun first_key :: "(bytes \<times> 'v) list list \<Rightarrow> bytes option" where
  "first_key [] = None"
| "first_key ([] # cs) = first_key cs"
| "first_key ((e # es) # cs) = Some (fst e)"

definition us_map_first :: "'v us_map \<Rightarrow> nat \<Rightarrow> bytes option" where
  "us_map_first m start_bucket = first_key (drop start_bucket (take (num_buckets m) (buckets m)))"

text \<open>\<open>chain_find\<close> is the loop that advances \<open>cur\<close> to the entry of the key; it yields the rest of the chain.\<close>

fun chain_find :: "(bytes \<times> 'v) list \<Rightarrow> bytes \<Rightarrow> (bytes \<times> 'v) list option" where
  "chain_find [] key = None"
| "chain_find ((k, v) # es) key = (if k = key then Some es else chain_find es key)"

definition us_map_get_next_key :: "'v us_map \<Rightarrow> bytes option \<Rightarrow> bytes option" where
  "us_map_get_next_key m key_opt =
     (if kind m \<noteq> US_MAP_HASH then None
      else case key_opt of
        None \<Rightarrow> us_map_first m 0
      | Some key \<Rightarrow>
          let b = hash_key m key in
          case chain_find (buckets m ! b) key of
            None \<Rightarrow> us_map_first m 0
          | Some (e # _) \<Rightarrow> Some (fst e)
          | Some [] \<Rightarrow> us_map_first m (b + 1))"

definition us_map_reset :: "'v us_map \<Rightarrow> 'v us_map" where
  "us_map_reset m = m\<lparr>buckets := replicate (num_buckets m) [], count := 0\<rparr>"

text \<open>The statically initialised hash maps: \<open>relay_map\<close>, \<open>session_map\<close> and \<open>whitelist_map\<close>.\<close>

definition hash_map_init :: "nat \<Rightarrow> int \<Rightarrow> nat \<Rightarrow> 'v us_map" where
  "hash_map_init ks mx n =
     \<lparr>kind = US_MAP_HASH, key_size = ks, max_entries = mx, array = [], buckets = replicate n [],
      num_buckets = n, count = 0\<rparr>"

definition relay_map_init :: "u64 us_map" where
  "relay_map_init = hash_map_init 8 (1024 * 2) (1024 * 4)"

section \<open>The timeout sweep (main\_update\_timeouts)\<close>

text \<open>
  The body of the \<open>while\<close> loop over a map: read the current entry, let the accumulator see it, fetch
  the next key, then delete the current key if it timed out. Map operations are arguments, since the
  loop is written once per map. The loop is bounded by fuel; \<open>None\<close> means it did not finish.
\<close>

fun sweep_loop ::
  "('m \<Rightarrow> 'k \<Rightarrow> 'v option) \<Rightarrow> ('m \<Rightarrow> 'k option \<Rightarrow> 'k option) \<Rightarrow> ('m \<Rightarrow> 'k \<Rightarrow> 'm) \<Rightarrow>
   ('v \<Rightarrow> bool) \<Rightarrow> ('v \<Rightarrow> 's \<Rightarrow> 's) \<Rightarrow> nat \<Rightarrow> 'm \<Rightarrow> 'k option \<Rightarrow> 's \<Rightarrow> ('m \<times> 's) option" where
  "sweep_loop look nxt del timed_out acc n m None s = Some (m, s)"
| "sweep_loop look nxt del timed_out acc 0 m (Some k) s = None"
| "sweep_loop look nxt del timed_out acc (Suc n) m (Some k) s =
     (let (s', t) = (case look m k of Some v \<Rightarrow> (acc v s, timed_out v) | None \<Rightarrow> (s, False));
          next_key = nxt m (Some k);
          m' = (if t then del m k else m)
      in sweep_loop look nxt del timed_out acc n m' next_key s')"

definition sweep ::
  "('m \<Rightarrow> 'k \<Rightarrow> 'v option) \<Rightarrow> ('m \<Rightarrow> 'k option \<Rightarrow> 'k option) \<Rightarrow> ('m \<Rightarrow> 'k \<Rightarrow> 'm) \<Rightarrow>
   ('v \<Rightarrow> bool) \<Rightarrow> ('v \<Rightarrow> 's \<Rightarrow> 's) \<Rightarrow> nat \<Rightarrow> 'm \<Rightarrow> 's \<Rightarrow> ('m \<times> 's) option" where
  "sweep look nxt del timed_out acc n m s = sweep_loop look nxt del timed_out acc n m (nxt m None) s"

section \<open>Invariant and abstraction\<close>

definition us_keys :: "'v us_map \<Rightarrow> bytes list" where
  "us_keys m = concat (map (map fst) (buckets m))"

definition us_inv :: "'v us_map \<Rightarrow> bool" where
  "us_inv m \<longleftrightarrow>
     kind m = US_MAP_HASH \<and> 0 < num_buckets m \<and> num_buckets m < 2 ^ 31 \<and>
     length (buckets m) = num_buckets m \<and>
     (\<forall>b < num_buckets m. distinct (map fst (buckets m ! b)) \<and>
        (\<forall>k \<in> fst ` set (buckets m ! b). length k = key_size m \<and> hash_key m k = b)) \<and>
     count m = int (length (us_keys m))"

text \<open>What the operations promise: a partial map, with the return codes of the helpers.\<close>

definition map_update :: "('k \<Rightarrow> 'v option) \<Rightarrow> 'k \<Rightarrow> 'v \<Rightarrow> bpf_flag \<Rightarrow> ('k \<Rightarrow> 'v option) \<times> int" where
  "map_update m k v flags =
     (case m k of
        Some _ \<Rightarrow> if flags = BPF_NOEXIST then (m, -1) else (m(k \<mapsto> v), 0)
      | None \<Rightarrow> if flags = BPF_EXIST then (m, -1) else (m(k \<mapsto> v), 0))"

definition map_delete :: "('k \<Rightarrow> 'v option) \<Rightarrow> 'k \<Rightarrow> ('k \<Rightarrow> 'v option) \<times> int" where
  "map_delete m k = (case m k of Some _ \<Rightarrow> (m(k := None), 0) | None \<Rightarrow> (m, -1))"

definition map_expire :: "('v \<Rightarrow> bool) \<Rightarrow> ('k \<Rightarrow> 'v option) \<Rightarrow> ('k \<Rightarrow> 'v option)" where
  "map_expire timed_out m = (\<lambda>k. case m k of Some v \<Rightarrow> if timed_out v then None else Some v | None \<Rightarrow> None)"

definition us_delete :: "'v us_map \<Rightarrow> bytes \<Rightarrow> 'v us_map" where
  "us_delete m key = fst (bpf_map_delete_elem m key)"

section \<open>The contract of a map\<close>

locale keyed_map =
  fixes inv :: "'m \<Rightarrow> bool"
    and key_ok :: "'m \<Rightarrow> 'k \<Rightarrow> bool"
    and look :: "'m \<Rightarrow> 'k \<Rightarrow> 'v option"
    and upd :: "'m \<Rightarrow> 'k \<Rightarrow> 'v \<Rightarrow> bpf_flag \<Rightarrow> 'm \<times> int"
    and del :: "'m \<Rightarrow> 'k \<Rightarrow> 'm \<times> int"
  assumes inv_upd: "inv m \<Longrightarrow> key_ok m k \<Longrightarrow> inv (fst (upd m k v f))"
    and inv_del: "inv m \<Longrightarrow> inv (fst (del m k))"
    and look_upd: "inv m \<Longrightarrow> (look (fst (upd m k v f)), snd (upd m k v f)) = map_update (look m) k v f"
    and look_del: "inv m \<Longrightarrow> (look (fst (del m k)), snd (del m k)) = map_delete (look m) k"
begin

lemma look_after_any: "inv m \<Longrightarrow> look (fst (upd m k v BPF_ANY)) = (look m)(k \<mapsto> v)"
  using look_upd [of m k v BPF_ANY] by (simp add: map_update_def split: option.splits)

lemma noexist_keeps: "inv m \<Longrightarrow> look m k = Some w \<Longrightarrow> look (fst (upd m k v BPF_NOEXIST)) = look m"
  using look_upd [of m k v BPF_NOEXIST] by (simp add: map_update_def)

lemma look_after_del: "inv m \<Longrightarrow> look (fst (del m k)) = (look m)(k := None)"
  using look_del [of m k] by (auto simp: map_delete_def split: option.splits)

end

locale iterable_map = keyed_map inv key_ok look upd del
  for inv :: "'m \<Rightarrow> bool" and key_ok :: "'m \<Rightarrow> 'k \<Rightarrow> bool"
    and look :: "'m \<Rightarrow> 'k \<Rightarrow> 'v option" and upd and del :: "'m \<Rightarrow> 'k \<Rightarrow> 'm \<times> int" +
  fixes keys :: "'m \<Rightarrow> 'k list"
    and nxt :: "'m \<Rightarrow> 'k option \<Rightarrow> 'k option"
  assumes distinct_keys: "inv m \<Longrightarrow> distinct (keys m)"
    and set_keys: "inv m \<Longrightarrow> set (keys m) = dom (look m)"
    and keys_del: "inv m \<Longrightarrow> keys (fst (del m k)) = filter (\<lambda>k'. k' \<noteq> k) (keys m)"
    and next_first: "inv m \<Longrightarrow> nxt m None = (case keys m of [] \<Rightarrow> None | k # _ \<Rightarrow> Some k)"
    and next_after: "inv m \<Longrightarrow> keys m = xs @ k # ys \<Longrightarrow>
          nxt m (Some k) = (case ys of [] \<Rightarrow> None | y # _ \<Rightarrow> Some y)"
begin

lemma sweep_loop_correct:
  assumes "inv m" "keys m = xs @ ys" "length ys \<le> n"
  shows "\<exists>m'. sweep_loop look nxt (\<lambda>m k. fst (del m k)) t acc n m
            (case ys of [] \<Rightarrow> None | k # _ \<Rightarrow> Some k) s
          = Some (m', fold (\<lambda>k. acc (the (look m k))) ys s) \<and> inv m' \<and>
          look m' = (\<lambda>k. if k \<in> set ys then map_expire t (look m) k else look m k)"
  using assms
proof (induction ys arbitrary: m xs n s)
  case Nil
  then show ?case by simp
next
  case (Cons k ys)
  obtain n' where n: "n = Suc n'" "length ys \<le> n'" using Cons.prems(3) by (cases n) auto
  have dk: "distinct (xs @ k # ys)" using distinct_keys Cons.prems by metis
  have "k \<in> dom (look m)" using set_keys Cons.prems by (metis in_set_conv_decomp)
  then obtain v where v: "look m k = Some v" by auto
  define m1 where "m1 = (if t v then fst (del m k) else m)"
  have inv1: "inv m1" using Cons.prems(1) inv_del by (simp add: m1_def)
  have f: "filter (\<lambda>k'. k' \<noteq> k) xs = xs" "filter (\<lambda>k'. k' \<noteq> k) ys = ys"
    using dk by (auto intro!: filter_True)
  have keys1: "keys m1 = (if t v then xs else xs @ [k]) @ ys"
    using Cons.prems dk by (simp add: m1_def keys_del f)
  have look1: "look m1 = (if t v then (look m)(k := None) else look m)"
    using Cons.prems(1) by (simp add: m1_def look_after_del)
  have nx: "nxt m (Some k) = (case ys of [] \<Rightarrow> None | y # _ \<Rightarrow> Some y)"
    using next_after Cons.prems by metis
  have fold_eq: "fold (\<lambda>k. acc (the (look m1 k))) ys (acc v s) = fold (\<lambda>k. acc (the (look m k))) ys (acc v s)"
    using dk by (intro fold_cong) (auto simp: look1)
  from Cons.IH [OF inv1 keys1 n(2), of "acc v s"] obtain m' where m':
    "sweep_loop look nxt (\<lambda>m k. fst (del m k)) t acc n' m1 (case ys of [] \<Rightarrow> None | k # _ \<Rightarrow> Some k) (acc v s)
       = Some (m', fold (\<lambda>k. acc (the (look m1 k))) ys (acc v s))"
    "inv m'" "look m' = (\<lambda>k. if k \<in> set ys then map_expire t (look m1) k else look m1 k)" by blast
  have "sweep_loop look nxt (\<lambda>m k. fst (del m k)) t acc n m (Some k) s =
        Some (m', fold (\<lambda>k. acc (the (look m k))) (k # ys) s)"
    using m'(1) by (simp add: n v Let_def nx m1_def [symmetric] fold_eq)
  moreover have "look m' = (\<lambda>k'. if k' \<in> set (k # ys) then map_expire t (look m) k' else look m k')"
    unfolding m'(3) using dk v by (auto simp: look1 map_expire_def fun_eq_iff)
  ultimately show ?case using m'(2) by auto
qed

lemma sweep_correct:
  assumes "inv m" "length (keys m) \<le> n"
  shows "\<exists>m'. sweep look nxt (\<lambda>m k. fst (del m k)) t acc n m s
           = Some (m', fold (\<lambda>k. acc (the (look m k))) (keys m) s) \<and>
           inv m' \<and> look m' = map_expire t (look m)"
proof -
  have "(\<lambda>k. if k \<in> set (keys m) then map_expire t (look m) k else look m k) = map_expire t (look m)"
    using set_keys [OF assms(1)] by (auto simp: fun_eq_iff map_expire_def split: option.splits)
  then show ?thesis
    using sweep_loop_correct [of m "[]" "keys m" n t acc s] assms
    by (simp add: sweep_def next_first)
qed

end

section \<open>The hash table keeps the contract\<close>

lemma chain_lookup_map_of: "chain_lookup es = map_of es"
proof
  show "chain_lookup es k = map_of es k" for k
    by (induction es) auto
qed

lemma keys_chain_store [simp]: "map fst (chain_store es k v) = map fst es"
  by (induction es) auto

lemma chain_store_map_of:
  "k \<in> fst ` set es \<Longrightarrow> map_of (chain_store es k v) = (map_of es)(k \<mapsto> v)"
proof (induction es)
  case (Cons e es)
  then show ?case by (cases e; cases "fst e = k") (auto simp: fun_eq_iff)
qed simp

lemma keys_chain_unlink [simp]: "map fst (chain_unlink es k) = remove1 k (map fst es)"
  by (induction es) auto

lemma chain_unlink_map_of:
  "distinct (map fst es) \<Longrightarrow> map_of (chain_unlink es k) = (map_of es)(k := None)"
proof (induction es)
  case (Cons e es)
  then show ?case by (cases e) (auto simp: fun_eq_iff map_of_eq_None_iff)
qed simp

lemma hash_key_upd [simp]:
  "hash_key (m\<lparr>buckets := b\<rparr>) = hash_key m" "hash_key (m\<lparr>buckets := b, count := c\<rparr>) = hash_key m"
  by (simp_all add: hash_key_def fun_eq_iff)

lemma hash_key_less: "us_inv m \<Longrightarrow> hash_key m k < num_buckets m"
proof -
  assume "us_inv m"
  then have n: "0 < num_buckets m" "num_buckets m < 2 ^ 31" by (auto simp: us_inv_def)
  then have "unat (word_of_nat (num_buckets m) :: u64) = num_buckets m"
    by (simp add: unsigned_of_nat take_bit_nat_eq_self)
  then show ?thesis
    using n by (simp add: hash_key_def unat_mod_distrib)
qed

lemma lookup_hash: "us_inv m \<Longrightarrow> bpf_map_lookup_elem m k = map_of (buckets m ! hash_key m k) k"
  by (simp add: bpf_map_lookup_elem_def us_inv_def chain_lookup_map_of)

lemma distinct_concat_tagged:
  assumes "\<forall>i<length xs. distinct (xs ! i) \<and> (\<forall>x\<in>set (xs ! i). f x = off + i)"
  shows "distinct (concat xs)"
  using assms
proof (induction xs arbitrary: off)
  case (Cons y ys)
  have "distinct (concat ys)"
  proof (rule Cons.IH [of "Suc off"], intro allI impI)
    fix i assume "i < length ys"
    then show "distinct (ys ! i) \<and> (\<forall>x\<in>set (ys ! i). f x = Suc off + i)"
      using Cons.prems by (auto dest!: spec [of _ "Suc i"])
  qed
  moreover have "\<forall>x\<in>set y. f x = off" "distinct y" using Cons.prems by (auto dest!: spec [of _ 0])
  moreover have "f x \<noteq> off" if x: "x \<in> set (concat ys)" for x
  proof -
    obtain z where "z \<in> set ys" "x \<in> set z" using x by auto
    then obtain i where "i < length ys" "x \<in> set (ys ! i)" by (metis in_set_conv_nth)
    moreover have "Suc i < length (y # ys) \<longrightarrow> (\<forall>x\<in>set ((y # ys) ! Suc i). f x = off + Suc i)"
      using Cons.prems by blast
    ultimately show ?thesis by simp
  qed
  ultimately show ?case by auto
qed simp


lemma bucket_tags:
  assumes "us_inv m" "i < num_buckets m"
  shows "distinct (map fst (buckets m ! i))"
    and "k \<in> fst ` set (buckets m ! i) \<Longrightarrow> hash_key m k = i"
    and "k \<in> fst ` set (buckets m ! i) \<Longrightarrow> length k = key_size m"
  using assms by (auto simp: us_inv_def)

lemma distinct_us_keys: "us_inv m \<Longrightarrow> distinct (us_keys m)"
  unfolding us_keys_def
  by (rule distinct_concat_tagged [where f = "hash_key m" and off = 0]) (auto simp: us_inv_def)

lemma in_us_keys:
  assumes "us_inv m"
  shows "k \<in> set (us_keys m) \<longleftrightarrow> k \<in> fst ` set (buckets m ! hash_key m k)"
proof
  assume "k \<in> set (us_keys m)"
  then obtain c where "c \<in> set (buckets m)" "k \<in> fst ` set c" by (auto simp: us_keys_def)
  then obtain i where "i < length (buckets m)" "k \<in> fst ` set (buckets m ! i)" by (metis in_set_conv_nth)
  then show "k \<in> fst ` set (buckets m ! hash_key m k)"
    using bucket_tags(2) assms by (metis us_inv_def)
next
  assume "k \<in> fst ` set (buckets m ! hash_key m k)"
  moreover have "buckets m ! hash_key m k \<in> set (buckets m)"
    using hash_key_less [OF assms] assms by (simp add: us_inv_def)
  ultimately show "k \<in> set (us_keys m)" by (force simp: us_keys_def)
qed

lemma set_us_keys: "us_inv m \<Longrightarrow> set (us_keys m) = dom (bpf_map_lookup_elem m)"
proof (rule set_eqI)
  fix k assume m: "us_inv m"
  have "(map_of (buckets m ! hash_key m k) k \<noteq> None) = (k \<in> fst ` set (buckets m ! hash_key m k))"
    by (simp add: map_of_eq_None_iff)
  then show "k \<in> set (us_keys m) \<longleftrightarrow> k \<in> dom (bpf_map_lookup_elem m)"
    by (simp add: in_us_keys [OF m] dom_def lookup_hash [OF m])
qed

text \<open>Replacing one chain by another with the right keys keeps the invariant.\<close>

lemma us_inv_replace:
  assumes m: "us_inv m" and b: "b < num_buckets m"
    and c: "distinct (map fst c)" "\<forall>k \<in> fst ` set c. length k = key_size m \<and> hash_key m k = b"
    and n: "count m' = int (length (us_keys m'))"
    and m': "m' = m\<lparr>buckets := (buckets m)[b := c], count := count m'\<rparr>"
  shows "us_inv m'"
proof -
  have e: "buckets m' = (buckets m)[b := c]" "kind m' = kind m" "num_buckets m' = num_buckets m"
    "key_size m' = key_size m" "hash_key m' = hash_key m"
    by (subst m', simp)+
  show ?thesis
    using m b c n unfolding us_inv_def e by (auto simp: nth_list_update)
qed

lemma length_concat_update:
  "b < length bs \<Longrightarrow>
   int (length (concat (map (map fst) (bs[b := c])))) =
     int (length (concat (map (map fst) bs))) - int (length (bs ! b)) + int (length c)"
proof (induction bs arbitrary: b)
  case (Cons d bs)
  then show ?case by (cases b) auto
qed simp

lemma length_chain_store [simp]: "length (chain_store es k v) = length es"
  by (metis keys_chain_store length_map)

lemma length_chain_unlink: "k \<in> fst ` set es \<Longrightarrow> Suc (length (chain_unlink es k)) = length es"
proof -
  assume k: "k \<in> fst ` set es"
  have "length (chain_unlink es k) = length (remove1 k (map fst es))" by (metis keys_chain_unlink length_map)
  moreover have "0 < length es" using k by auto
  ultimately show ?thesis using k by (simp add: length_remove1)
qed

lemma us_inv_update:
  assumes m: "us_inv m" and k: "length k = key_size m"
  shows "us_inv (fst (bpf_map_update_elem m k v f))"
proof -
  have kd: "kind m = US_MAP_HASH" using m by (simp add: us_inv_def)
  let ?b = "hash_key m k"
  have b: "?b < num_buckets m" "?b < length (buckets m)"
    using hash_key_less [OF m] m by (auto simp: us_inv_def)
  note t = bucket_tags [OF m b(1)]
  have cnt: "count m = int (length (concat (map (map fst) (buckets m))))"
    using m by (simp add: us_inv_def us_keys_def)
  have old: "\<forall>k' \<in> fst ` set (buckets m ! ?b). length k' = key_size m \<and> hash_key m k' = ?b"
    using t(2,3) by blast
  have st: "us_inv (m\<lparr>buckets := (buckets m)[?b := chain_store (buckets m ! ?b) k v]\<rparr>)"
  proof (rule us_inv_replace [OF m b(1)])
    show "\<forall>k' \<in> fst ` set (chain_store (buckets m ! ?b) k v). length k' = key_size m \<and> hash_key m k' = ?b"
      using old keys_chain_store by (metis list.set_map)
  qed (use t(1) b(2) cnt in \<open>simp_all add: us_keys_def length_concat_update\<close>)
  have ins: "us_inv (m\<lparr>buckets := (buckets m)[?b := (k, v) # buckets m ! ?b], count := count m + 1\<rparr>)"
    if "map_of (buckets m ! ?b) k = None"
  proof (rule us_inv_replace [OF m b(1)])
    show "distinct (map fst ((k, v) # buckets m ! ?b))"
      using t(1) that by (simp add: map_of_eq_None_iff)
    show "\<forall>k' \<in> fst ` set ((k, v) # buckets m ! ?b). length k' = key_size m \<and> hash_key m k' = ?b"
      using k old by (metis fst_conv image_insert insert_iff list.simps(15))
  qed (use b(2) cnt in \<open>simp_all add: us_keys_def length_concat_update\<close>)
  show ?thesis
    using m kd st ins
    by (cases "map_of (buckets m ! ?b) k") (simp_all add: bpf_map_update_elem_def Let_def chain_lookup_map_of)
qed

lemma us_inv_delete:
  assumes m: "us_inv m"
  shows "us_inv (fst (bpf_map_delete_elem m k))"
proof -
  let ?b = "hash_key m k"
  have b: "?b < num_buckets m" "?b < length (buckets m)"
    using hash_key_less [OF m] m by (auto simp: us_inv_def)
  note t = bucket_tags [OF m b(1)]
  have cnt: "count m = int (length (concat (map (map fst) (buckets m))))"
    using m by (simp add: us_inv_def us_keys_def)
  have "us_inv (m\<lparr>buckets := (buckets m)[?b := chain_unlink (buckets m ! ?b) k], count := count m - 1\<rparr>)"
    if "map_of (buckets m ! ?b) k \<noteq> None"
  proof (rule us_inv_replace [OF m b(1)])
    have k: "k \<in> fst ` set (buckets m ! ?b)" using that by (simp add: map_of_eq_None_iff)
    have e: "fst ` set (chain_unlink (buckets m ! ?b) k) = set (remove1 k (map fst (buckets m ! ?b)))"
      by (metis keys_chain_unlink list.set_map)
    have sub: "set (remove1 k (map fst (buckets m ! ?b))) \<subseteq> fst ` set (buckets m ! ?b)"
      using set_remove1_subset [of k "map fst (buckets m ! ?b)"] by simp
    have old: "\<forall>k' \<in> fst ` set (buckets m ! ?b). length k' = key_size m \<and> hash_key m k' = ?b"
      using t(2,3) by blast
    show "distinct (map fst (chain_unlink (buckets m ! ?b) k))" using t(1) by (simp add: distinct_remove1)
    show "\<forall>k' \<in> fst ` set (chain_unlink (buckets m ! ?b) k). length k' = key_size m \<and> hash_key m k' = ?b"
      unfolding e using sub old by blast
    show "count (m\<lparr>buckets := (buckets m)[?b := chain_unlink (buckets m ! ?b) k], count := count m - 1\<rparr>) =
      int (length (us_keys (m\<lparr>buckets := (buckets m)[?b := chain_unlink (buckets m ! ?b) k], count := count m - 1\<rparr>)))"
      using length_chain_unlink [OF k] b(2) cnt by (simp add: us_keys_def length_concat_update)
  qed simp
  then show ?thesis
    using m by (cases "map_of (buckets m ! ?b) k") (simp_all add: bpf_map_delete_elem_def Let_def chain_lookup_map_of)
qed

lemma us_look_replace:
  assumes m: "us_inv m" and c: "map_of c = (map_of (buckets m ! hash_key m k))(k := x)"
    and m': "buckets m' = (buckets m)[hash_key m k := c]" "kind m' = US_MAP_HASH" "hash_key m' = hash_key m"
  shows "bpf_map_lookup_elem m' = (bpf_map_lookup_elem m)(k := x)"
proof
  fix k'
  have b: "hash_key m k < length (buckets m)" using hash_key_less [OF m] m by (auto simp: us_inv_def)
  show "bpf_map_lookup_elem m' k' = ((bpf_map_lookup_elem m)(k := x)) k'"
    using b m' c by (cases "hash_key m k' = hash_key m k")
      (auto simp: bpf_map_lookup_elem_def [of m'] chain_lookup_map_of lookup_hash [OF m])
qed

lemma us_look_update:
  assumes m: "us_inv m"
  shows "(bpf_map_lookup_elem (fst (bpf_map_update_elem m k v f)), snd (bpf_map_update_elem m k v f)) =
         map_update (bpf_map_lookup_elem m) k v f"
proof -
  let ?c = "buckets m ! hash_key m k"
  have kd: "kind m = US_MAP_HASH" using m by (simp add: us_inv_def)
  have st: "bpf_map_lookup_elem (m\<lparr>buckets := (buckets m)[hash_key m k := chain_store ?c k v]\<rparr>) =
      (bpf_map_lookup_elem m)(k \<mapsto> v)" if "map_of ?c k = Some w" for w
  proof (rule us_look_replace [OF m])
    have "k \<in> fst ` set ?c" using that by (metis domI dom_map_of_conv_image_fst)
    then show "map_of (chain_store ?c k v) = (map_of ?c)(k \<mapsto> v)" by (rule chain_store_map_of)
  qed (use kd in simp_all)
  have ins: "bpf_map_lookup_elem (m\<lparr>buckets := (buckets m)[hash_key m k := (k, v) # ?c], count := count m + 1\<rparr>) =
      (bpf_map_lookup_elem m)(k \<mapsto> v)"
    by (rule us_look_replace [OF m]) (use kd in auto)
  show ?thesis
  proof (cases "map_of ?c k")
    case None
    then show ?thesis
      using kd ins by (simp add: bpf_map_update_elem_def map_update_def Let_def chain_lookup_map_of lookup_hash [OF m])
  next
    case (Some w)
    then show ?thesis
      using kd st by (simp add: bpf_map_update_elem_def map_update_def Let_def chain_lookup_map_of lookup_hash [OF m])
  qed
qed

lemma us_look_delete:
  assumes m: "us_inv m"
  shows "(bpf_map_lookup_elem (fst (bpf_map_delete_elem m k)), snd (bpf_map_delete_elem m k)) =
         map_delete (bpf_map_lookup_elem m) k"
proof -
  let ?c = "buckets m ! hash_key m k"
  have kd: "kind m = US_MAP_HASH" using m by (simp add: us_inv_def)
  have d: "distinct (map fst ?c)" using bucket_tags(1) [OF m] hash_key_less [OF m] by blast
  have "bpf_map_lookup_elem (m\<lparr>buckets := (buckets m)[hash_key m k := chain_unlink ?c k], count := count m - 1\<rparr>) =
      (bpf_map_lookup_elem m)(k := None)"
    by (rule us_look_replace [OF m]) (use kd chain_unlink_map_of [OF d] in auto)
  then show ?thesis
    using kd by (cases "map_of ?c k")
      (simp_all add: bpf_map_delete_elem_def map_delete_def Let_def chain_lookup_map_of lookup_hash [OF m])
qed


lemma us_keys_delete:
  assumes m: "us_inv m"
  shows "us_keys (fst (bpf_map_delete_elem m k)) = filter (\<lambda>k'. k' \<noteq> k) (us_keys m)"
proof -
  let ?b = "hash_key m k"
  have b: "?b < num_buckets m" "?b < length (buckets m)"
    using hash_key_less [OF m] m by (auto simp: us_inv_def)
  have kd: "kind m = US_MAP_HASH" using m by (simp add: us_inv_def)
  have other: "filter (\<lambda>k'. k' \<noteq> k) (map fst (buckets m ! i)) = map fst (buckets m ! i)"
    if "i < length (buckets m)" "i \<noteq> ?b" for i
    using bucket_tags(2) [OF m, of i k] that m by (auto simp: us_inv_def intro!: filter_True)
  have own: "filter (\<lambda>k'. k' \<noteq> k) (map fst (buckets m ! ?b)) = map fst (chain_unlink (buckets m ! ?b) k)"
    using bucket_tags(1) [OF m b(1)] by (simp add: distinct_remove1_removeAll removeAll_filter_not_eq eq_commute)
  have "map (map fst) ((buckets m)[?b := chain_unlink (buckets m ! ?b) k]) =
        map (filter (\<lambda>k'. k' \<noteq> k)) (map (map fst) (buckets m))"
  proof (rule nth_equalityI)
    fix i assume "i < length (map (map fst) ((buckets m)[?b := chain_unlink (buckets m ! ?b) k]))"
    then have i: "i < length (buckets m)" by simp
    show "map (map fst) ((buckets m)[?b := chain_unlink (buckets m ! ?b) k]) ! i =
        map (filter (\<lambda>k'. k' \<noteq> k)) (map (map fst) (buckets m)) ! i"
      using i own other [OF i] by (cases "i = ?b") simp_all
  qed simp
  then have "us_keys (m\<lparr>buckets := (buckets m)[?b := chain_unlink (buckets m ! ?b) k], count := count m - 1\<rparr>)
     = filter (\<lambda>k'. k' \<noteq> k) (us_keys m)"
    by (simp add: us_keys_def filter_concat)
  moreover have "map_of (buckets m ! ?b) k = None \<Longrightarrow> filter (\<lambda>k'. k' \<noteq> k) (us_keys m) = us_keys m"
    using in_us_keys [OF m] by (auto simp: map_of_eq_None_iff intro!: filter_True)
  ultimately show ?thesis
    using kd by (cases "map_of (buckets m ! ?b) k")
      (simp_all add: bpf_map_delete_elem_def Let_def chain_lookup_map_of)
qed

lemma first_key_concat:
  "first_key cs = (case concat (map (map fst) cs) of [] \<Rightarrow> None | k # _ \<Rightarrow> Some k)"
  by (induction cs rule: first_key.induct) auto

lemma us_next_first:
  assumes "us_inv m"
  shows "us_map_get_next_key m None = (case us_keys m of [] \<Rightarrow> None | k # _ \<Rightarrow> Some k)"
  using assms by (simp add: us_map_get_next_key_def us_map_first_def us_inv_def us_keys_def first_key_concat)

lemma chain_find_split:
  "k \<in> fst ` set es \<Longrightarrow> \<exists>pre v rest. es = pre @ (k, v) # rest \<and> chain_find es k = Some rest"
proof (induction es)
  case (Cons e es)
  obtain a w where e: "e = (a, w)" by (cases e)
  show ?case
  proof (cases "a = k")
    case True
    then show ?thesis using e by (intro exI [of _ "[]"]) auto
  next
    case False
    then obtain pre v rest where "es = pre @ (k, v) # rest \<and> chain_find es k = Some rest"
      using Cons e by auto
    then show ?thesis using e False by (intro exI [of _ "e # pre"]) auto
  qed
qed simp

lemma us_next_after:
  assumes m: "us_inv m" and k: "us_keys m = xs @ k # ys"
  shows "us_map_get_next_key m (Some k) = (case ys of [] \<Rightarrow> None | y # _ \<Rightarrow> Some y)"
proof -
  let ?b = "hash_key m k"
  have b: "?b < length (buckets m)" "length (buckets m) = num_buckets m" "kind m = US_MAP_HASH"
    using hash_key_less [OF m] m by (auto simp: us_inv_def)
  have "k \<in> fst ` set (buckets m ! ?b)" using in_us_keys [OF m, of k] k by simp
  then obtain pre v rest where c: "buckets m ! ?b = pre @ (k, v) # rest"
    and f: "chain_find (buckets m ! ?b) k = Some rest" using chain_find_split by metis
  let ?after = "concat (map (map fst) (drop (Suc ?b) (buckets m)))"
  have "us_keys m = concat (map (map fst) (take ?b (buckets m))) @ map fst (buckets m ! ?b) @ ?after"
    unfolding us_keys_def by (subst id_take_nth_drop [OF b(1)]) simp
  then have "us_keys m = (concat (map (map fst) (take ?b (buckets m))) @ map fst pre) @ k # (map fst rest @ ?after)"
    by (simp add: c)
  moreover have "distinct (us_keys m)" by (rule distinct_us_keys [OF m])
  ultimately have ys: "ys = map fst rest @ ?after"
    using k by (metis append_Cons_eq_iff distinct.simps(2) distinct_append not_distinct_conv_prefix)
  show ?thesis
    using b f by (cases rest) (auto simp: ys us_map_get_next_key_def Let_def us_map_first_def first_key_concat)
qed

interpretation us: iterable_map us_inv "\<lambda>m k. length k = key_size m" bpf_map_lookup_elem
  bpf_map_update_elem bpf_map_delete_elem us_keys us_map_get_next_key
  by unfold_locales
    (simp_all add: us_inv_update us_inv_delete us_look_update us_look_delete distinct_us_keys set_us_keys
      us_keys_delete us_next_first us_next_after)

lemma us_inv_init [simp]: "0 < n \<Longrightarrow> n < 2 ^ 31 \<Longrightarrow> us_inv (hash_map_init ks mx n)"
  by (simp add: us_inv_def hash_map_init_def us_keys_def)

lemma us_inv_reset: "us_inv m \<Longrightarrow> us_inv (us_map_reset m)"
  by (simp add: us_inv_def us_map_reset_def us_keys_def)

lemma us_keys_init [simp]: "us_keys (hash_map_init ks mx n) = []"
  by (simp add: hash_map_init_def us_keys_def)

lemma key_size_init [simp]: "key_size (hash_map_init ks mx n) = ks"
  by (simp add: hash_map_init_def)

lemma lookup_init: "0 < n \<Longrightarrow> n < 2 ^ 31 \<Longrightarrow> bpf_map_lookup_elem (hash_map_init ks mx n) k = None"
  using set_us_keys [of "hash_map_init ks mx n"] by (auto simp: dom_def)

section \<open>Properties\<close>

text \<open>C20. The chained hash table refines a partial map: an update or a delete keeps the table well formed, and
  the lookups after it and its return code are those of the map, for every flag; \<open>BPF_NOEXIST\<close>
  never replaces an entry and \<open>BPF_EXIST\<close> never adds one.\<close>

theorem hash_table_refines_map:
  assumes "us_inv m" "length k = key_size m"
  shows "us_inv (fst (bpf_map_update_elem m k v flags)) \<and> us_inv (fst (bpf_map_delete_elem m k)) \<and>
    (bpf_map_lookup_elem (fst (bpf_map_update_elem m k v flags)), snd (bpf_map_update_elem m k v flags))
      = map_update (bpf_map_lookup_elem m) k v flags \<and>
    (bpf_map_lookup_elem (fst (bpf_map_delete_elem m k)), snd (bpf_map_delete_elem m k))
      = map_delete (bpf_map_lookup_elem m) k"
  by (intro conjI us.inv_upd us.inv_del us.look_upd us.look_del assms)

theorem hash_table_refines_map_witness:
  "bpf_map_lookup_elem (fst (bpf_map_update_elem (hash_map_init 2 4 4) [1, 2] (7 :: nat) BPF_ANY)) [1, 2] = Some 7"
  using hash_table_refines_map [of "hash_map_init 2 4 4" "[1, 2]" "7 :: nat" BPF_ANY]
  by (simp add: map_update_def lookup_init)

text \<open>C21. The timeout sweep, which fetches the next key before it deletes the current one, ends within one
  round per entry, shows every entry to the accumulator exactly once in table order (timed out or not), and
  leaves exactly the entries that have not timed out.\<close>

theorem sweep_keeps_exactly_the_live_entries:
  assumes "us_inv m" "length (us_keys m) \<le> n"
  shows "\<exists>m'. sweep bpf_map_lookup_elem us_map_get_next_key us_delete timed_out acc n m s
      = Some (m', fold (\<lambda>k. acc (the (bpf_map_lookup_elem m k))) (us_keys m) s) \<and>
    us_inv m' \<and> bpf_map_lookup_elem m' = map_expire timed_out (bpf_map_lookup_elem m)"
  using us.sweep_correct [OF assms, of timed_out acc s] by (simp add: us_delete_def [abs_def])

theorem sweep_keeps_exactly_the_live_entries_witness:
  "\<exists>m'. sweep bpf_map_lookup_elem us_map_get_next_key us_delete (\<lambda>v. v < 5) (\<lambda>v s. s + v) 1
      (fst (bpf_map_update_elem (hash_map_init 1 4 4) [9] (3 :: nat) BPF_ANY)) 0 = Some (m', 3) \<and>
      bpf_map_lookup_elem m' [9] = None"
proof -
  let ?m = "fst (bpf_map_update_elem (hash_map_init 1 4 4) [9] (3 :: nat) BPF_ANY)"
  have "us_inv ?m" by (rule us_inv_update) simp_all
  moreover have "us_keys ?m = [[9]]" "bpf_map_lookup_elem ?m [9] = Some 3" by code_simp+
  ultimately show ?thesis
    using sweep_keeps_exactly_the_live_entries [of ?m 1 "\<lambda>v. v < 5" "\<lambda>v s. s + v" 0]
    by (auto simp: map_expire_def)
qed

end
