(* ===== verification/Relay_Types.thy ===== *)
theory Relay_Types
  imports Next_Prelude Bpf_Maps
begin

text \<open>
  The constants and structs the relay's kernel and user space share: \<open>relay/xdp/relay_constants.h\<close> and
  \<open>relay/xdp/relay_shared.h\<close>. Structs are records; where two structs have a field of the same name
  the record's fields carry a prefix. The packed structs that are hashed (\<open>ping_token_data\<close>,
  \<open>header_data\<close>) and the tokens come with the bytes they occupy in memory.
\<close>

section \<open>Constants (relay\_constants.h)\<close>

abbreviation (input) RELAY_HEADER_BYTES :: nat where "RELAY_HEADER_BYTES \<equiv> 25"
abbreviation (input) RELAY_MTU :: int where "RELAY_MTU \<equiv> 1200"
abbreviation (input) RELAY_MAX_PACKET_BYTES :: nat where "RELAY_MAX_PACKET_BYTES \<equiv> 1384"
abbreviation (input) RELAY_PING_TOKEN_BYTES :: nat where "RELAY_PING_TOKEN_BYTES \<equiv> 32"
abbreviation (input) RELAY_SESSION_PRIVATE_KEY_BYTES :: nat where "RELAY_SESSION_PRIVATE_KEY_BYTES \<equiv> 32"
abbreviation (input) RELAY_ROUTE_TOKEN_BYTES :: nat where "RELAY_ROUTE_TOKEN_BYTES \<equiv> 71"
abbreviation (input) RELAY_ENCRYPTED_ROUTE_TOKEN_BYTES :: nat where "RELAY_ENCRYPTED_ROUTE_TOKEN_BYTES \<equiv> 111"
abbreviation (input) RELAY_CONTINUE_TOKEN_BYTES :: nat where "RELAY_CONTINUE_TOKEN_BYTES \<equiv> 17"
abbreviation (input) RELAY_ENCRYPTED_CONTINUE_TOKEN_BYTES :: nat where "RELAY_ENCRYPTED_CONTINUE_TOKEN_BYTES \<equiv> 57"
abbreviation (input) WHITELIST_TIMEOUT :: u64 where "WHITELIST_TIMEOUT \<equiv> 1000"

abbreviation (input) RELAY_ROUTE_REQUEST_PACKET :: u8 where "RELAY_ROUTE_REQUEST_PACKET \<equiv> 1"
abbreviation (input) RELAY_ROUTE_RESPONSE_PACKET :: u8 where "RELAY_ROUTE_RESPONSE_PACKET \<equiv> 2"
abbreviation (input) RELAY_CLIENT_TO_SERVER_PACKET :: u8 where "RELAY_CLIENT_TO_SERVER_PACKET \<equiv> 3"
abbreviation (input) RELAY_SERVER_TO_CLIENT_PACKET :: u8 where "RELAY_SERVER_TO_CLIENT_PACKET \<equiv> 4"
abbreviation (input) RELAY_SESSION_PING_PACKET :: u8 where "RELAY_SESSION_PING_PACKET \<equiv> 5"
abbreviation (input) RELAY_SESSION_PONG_PACKET :: u8 where "RELAY_SESSION_PONG_PACKET \<equiv> 6"
abbreviation (input) RELAY_CONTINUE_REQUEST_PACKET :: u8 where "RELAY_CONTINUE_REQUEST_PACKET \<equiv> 7"
abbreviation (input) RELAY_CONTINUE_RESPONSE_PACKET :: u8 where "RELAY_CONTINUE_RESPONSE_PACKET \<equiv> 8"
abbreviation (input) RELAY_CLIENT_PING_PACKET :: u8 where "RELAY_CLIENT_PING_PACKET \<equiv> 9"
abbreviation (input) RELAY_CLIENT_PONG_PACKET :: u8 where "RELAY_CLIENT_PONG_PACKET \<equiv> 10"
abbreviation (input) RELAY_PING_PACKET :: u8 where "RELAY_PING_PACKET \<equiv> 11"
abbreviation (input) RELAY_PONG_PACKET :: u8 where "RELAY_PONG_PACKET \<equiv> 12"
abbreviation (input) RELAY_SERVER_PING_PACKET :: u8 where "RELAY_SERVER_PING_PACKET \<equiv> 13"
abbreviation (input) RELAY_SERVER_PONG_PACKET :: u8 where "RELAY_SERVER_PONG_PACKET \<equiv> 14"

text \<open>Indices into the counters of \<open>relay_stats\<close>.\<close>

abbreviation (input) RELAY_COUNTER_PACKETS_SENT :: nat where "RELAY_COUNTER_PACKETS_SENT \<equiv> 0"
abbreviation (input) RELAY_COUNTER_PACKETS_RECEIVED :: nat where "RELAY_COUNTER_PACKETS_RECEIVED \<equiv> 1"
abbreviation (input) RELAY_COUNTER_BYTES_SENT :: nat where "RELAY_COUNTER_BYTES_SENT \<equiv> 2"
abbreviation (input) RELAY_COUNTER_BYTES_RECEIVED :: nat where "RELAY_COUNTER_BYTES_RECEIVED \<equiv> 3"
abbreviation (input) RELAY_COUNTER_BASIC_PACKET_FILTER_DROPPED_PACKET :: nat where "RELAY_COUNTER_BASIC_PACKET_FILTER_DROPPED_PACKET \<equiv> 4"
abbreviation (input) RELAY_COUNTER_ADVANCED_PACKET_FILTER_DROPPED_PACKET :: nat where "RELAY_COUNTER_ADVANCED_PACKET_FILTER_DROPPED_PACKET \<equiv> 5"
abbreviation (input) RELAY_COUNTER_SESSION_CREATED :: nat where "RELAY_COUNTER_SESSION_CREATED \<equiv> 6"
abbreviation (input) RELAY_COUNTER_SESSION_CONTINUED :: nat where "RELAY_COUNTER_SESSION_CONTINUED \<equiv> 7"
abbreviation (input) RELAY_COUNTER_SESSION_DESTROYED :: nat where "RELAY_COUNTER_SESSION_DESTROYED \<equiv> 8"
abbreviation (input) RELAY_COUNTER_RELAY_PING_PACKET_SENT :: nat where "RELAY_COUNTER_RELAY_PING_PACKET_SENT \<equiv> 10"
abbreviation (input) RELAY_COUNTER_RELAY_PING_PACKET_RECEIVED :: nat where "RELAY_COUNTER_RELAY_PING_PACKET_RECEIVED \<equiv> 11"
abbreviation (input) RELAY_COUNTER_RELAY_PING_PACKET_DID_NOT_VERIFY :: nat where "RELAY_COUNTER_RELAY_PING_PACKET_DID_NOT_VERIFY \<equiv> 12"
abbreviation (input) RELAY_COUNTER_RELAY_PING_PACKET_EXPIRED :: nat where "RELAY_COUNTER_RELAY_PING_PACKET_EXPIRED \<equiv> 13"
abbreviation (input) RELAY_COUNTER_RELAY_PING_PACKET_WRONG_SIZE :: nat where "RELAY_COUNTER_RELAY_PING_PACKET_WRONG_SIZE \<equiv> 14"
abbreviation (input) RELAY_COUNTER_RELAY_PING_PACKET_UNKNOWN_RELAY :: nat where "RELAY_COUNTER_RELAY_PING_PACKET_UNKNOWN_RELAY \<equiv> 15"
abbreviation (input) RELAY_COUNTER_RELAY_PONG_PACKET_SENT :: nat where "RELAY_COUNTER_RELAY_PONG_PACKET_SENT \<equiv> 16"
abbreviation (input) RELAY_COUNTER_RELAY_PONG_PACKET_RECEIVED :: nat where "RELAY_COUNTER_RELAY_PONG_PACKET_RECEIVED \<equiv> 17"
abbreviation (input) RELAY_COUNTER_RELAY_PONG_PACKET_WRONG_SIZE :: nat where "RELAY_COUNTER_RELAY_PONG_PACKET_WRONG_SIZE \<equiv> 18"
abbreviation (input) RELAY_COUNTER_RELAY_PONG_PACKET_UNKNOWN_RELAY :: nat where "RELAY_COUNTER_RELAY_PONG_PACKET_UNKNOWN_RELAY \<equiv> 19"
abbreviation (input) RELAY_COUNTER_CLIENT_PING_PACKET_RECEIVED :: nat where "RELAY_COUNTER_CLIENT_PING_PACKET_RECEIVED \<equiv> 20"
abbreviation (input) RELAY_COUNTER_CLIENT_PING_PACKET_WRONG_SIZE :: nat where "RELAY_COUNTER_CLIENT_PING_PACKET_WRONG_SIZE \<equiv> 21"
abbreviation (input) RELAY_COUNTER_CLIENT_PING_PACKET_RESPONDED_WITH_PONG :: nat where "RELAY_COUNTER_CLIENT_PING_PACKET_RESPONDED_WITH_PONG \<equiv> 22"
abbreviation (input) RELAY_COUNTER_CLIENT_PING_PACKET_DID_NOT_VERIFY :: nat where "RELAY_COUNTER_CLIENT_PING_PACKET_DID_NOT_VERIFY \<equiv> 23"
abbreviation (input) RELAY_COUNTER_CLIENT_PING_PACKET_EXPIRED :: nat where "RELAY_COUNTER_CLIENT_PING_PACKET_EXPIRED \<equiv> 24"
abbreviation (input) RELAY_COUNTER_ROUTE_REQUEST_PACKET_RECEIVED :: nat where "RELAY_COUNTER_ROUTE_REQUEST_PACKET_RECEIVED \<equiv> 30"
abbreviation (input) RELAY_COUNTER_ROUTE_REQUEST_PACKET_WRONG_SIZE :: nat where "RELAY_COUNTER_ROUTE_REQUEST_PACKET_WRONG_SIZE \<equiv> 31"
abbreviation (input) RELAY_COUNTER_ROUTE_REQUEST_PACKET_COULD_NOT_DECRYPT_ROUTE_TOKEN :: nat where "RELAY_COUNTER_ROUTE_REQUEST_PACKET_COULD_NOT_DECRYPT_ROUTE_TOKEN \<equiv> 32"
abbreviation (input) RELAY_COUNTER_ROUTE_REQUEST_PACKET_TOKEN_EXPIRED :: nat where "RELAY_COUNTER_ROUTE_REQUEST_PACKET_TOKEN_EXPIRED \<equiv> 33"
abbreviation (input) RELAY_COUNTER_ROUTE_REQUEST_PACKET_FORWARD_TO_NEXT_HOP :: nat where "RELAY_COUNTER_ROUTE_REQUEST_PACKET_FORWARD_TO_NEXT_HOP \<equiv> 34"
abbreviation (input) RELAY_COUNTER_ROUTE_RESPONSE_PACKET_RECEIVED :: nat where "RELAY_COUNTER_ROUTE_RESPONSE_PACKET_RECEIVED \<equiv> 40"
abbreviation (input) RELAY_COUNTER_ROUTE_RESPONSE_PACKET_WRONG_SIZE :: nat where "RELAY_COUNTER_ROUTE_RESPONSE_PACKET_WRONG_SIZE \<equiv> 41"
abbreviation (input) RELAY_COUNTER_ROUTE_RESPONSE_PACKET_COULD_NOT_FIND_SESSION :: nat where "RELAY_COUNTER_ROUTE_RESPONSE_PACKET_COULD_NOT_FIND_SESSION \<equiv> 42"
abbreviation (input) RELAY_COUNTER_ROUTE_RESPONSE_PACKET_SESSION_EXPIRED :: nat where "RELAY_COUNTER_ROUTE_RESPONSE_PACKET_SESSION_EXPIRED \<equiv> 43"
abbreviation (input) RELAY_COUNTER_ROUTE_RESPONSE_PACKET_ALREADY_RECEIVED :: nat where "RELAY_COUNTER_ROUTE_RESPONSE_PACKET_ALREADY_RECEIVED \<equiv> 44"
abbreviation (input) RELAY_COUNTER_ROUTE_RESPONSE_PACKET_HEADER_DID_NOT_VERIFY :: nat where "RELAY_COUNTER_ROUTE_RESPONSE_PACKET_HEADER_DID_NOT_VERIFY \<equiv> 45"
abbreviation (input) RELAY_COUNTER_ROUTE_RESPONSE_PACKET_FORWARD_TO_PREVIOUS_HOP :: nat where "RELAY_COUNTER_ROUTE_RESPONSE_PACKET_FORWARD_TO_PREVIOUS_HOP \<equiv> 46"
abbreviation (input) RELAY_COUNTER_CONTINUE_REQUEST_PACKET_RECEIVED :: nat where "RELAY_COUNTER_CONTINUE_REQUEST_PACKET_RECEIVED \<equiv> 50"
abbreviation (input) RELAY_COUNTER_CONTINUE_REQUEST_PACKET_WRONG_SIZE :: nat where "RELAY_COUNTER_CONTINUE_REQUEST_PACKET_WRONG_SIZE \<equiv> 51"
abbreviation (input) RELAY_COUNTER_CONTINUE_REQUEST_PACKET_COULD_NOT_DECRYPT_CONTINUE_TOKEN :: nat where "RELAY_COUNTER_CONTINUE_REQUEST_PACKET_COULD_NOT_DECRYPT_CONTINUE_TOKEN \<equiv> 52"
abbreviation (input) RELAY_COUNTER_CONTINUE_REQUEST_PACKET_TOKEN_EXPIRED :: nat where "RELAY_COUNTER_CONTINUE_REQUEST_PACKET_TOKEN_EXPIRED \<equiv> 53"
abbreviation (input) RELAY_COUNTER_CONTINUE_REQUEST_PACKET_COULD_NOT_FIND_SESSION :: nat where "RELAY_COUNTER_CONTINUE_REQUEST_PACKET_COULD_NOT_FIND_SESSION \<equiv> 54"
abbreviation (input) RELAY_COUNTER_CONTINUE_REQUEST_PACKET_SESSION_EXPIRED :: nat where "RELAY_COUNTER_CONTINUE_REQUEST_PACKET_SESSION_EXPIRED \<equiv> 55"
abbreviation (input) RELAY_COUNTER_CONTINUE_REQUEST_PACKET_FORWARD_TO_NEXT_HOP :: nat where "RELAY_COUNTER_CONTINUE_REQUEST_PACKET_FORWARD_TO_NEXT_HOP \<equiv> 56"
abbreviation (input) RELAY_COUNTER_CONTINUE_RESPONSE_PACKET_RECEIVED :: nat where "RELAY_COUNTER_CONTINUE_RESPONSE_PACKET_RECEIVED \<equiv> 60"
abbreviation (input) RELAY_COUNTER_CONTINUE_RESPONSE_PACKET_WRONG_SIZE :: nat where "RELAY_COUNTER_CONTINUE_RESPONSE_PACKET_WRONG_SIZE \<equiv> 61"
abbreviation (input) RELAY_COUNTER_CONTINUE_RESPONSE_PACKET_ALREADY_RECEIVED :: nat where "RELAY_COUNTER_CONTINUE_RESPONSE_PACKET_ALREADY_RECEIVED \<equiv> 62"
abbreviation (input) RELAY_COUNTER_CONTINUE_RESPONSE_PACKET_COULD_NOT_FIND_SESSION :: nat where "RELAY_COUNTER_CONTINUE_RESPONSE_PACKET_COULD_NOT_FIND_SESSION \<equiv> 63"
abbreviation (input) RELAY_COUNTER_CONTINUE_RESPONSE_PACKET_SESSION_EXPIRED :: nat where "RELAY_COUNTER_CONTINUE_RESPONSE_PACKET_SESSION_EXPIRED \<equiv> 64"
abbreviation (input) RELAY_COUNTER_CONTINUE_RESPONSE_PACKET_HEADER_DID_NOT_VERIFY :: nat where "RELAY_COUNTER_CONTINUE_RESPONSE_PACKET_HEADER_DID_NOT_VERIFY \<equiv> 65"
abbreviation (input) RELAY_COUNTER_CONTINUE_RESPONSE_PACKET_FORWARD_TO_PREVIOUS_HOP :: nat where "RELAY_COUNTER_CONTINUE_RESPONSE_PACKET_FORWARD_TO_PREVIOUS_HOP \<equiv> 66"
abbreviation (input) RELAY_COUNTER_CLIENT_TO_SERVER_PACKET_RECEIVED :: nat where "RELAY_COUNTER_CLIENT_TO_SERVER_PACKET_RECEIVED \<equiv> 70"
abbreviation (input) RELAY_COUNTER_CLIENT_TO_SERVER_PACKET_TOO_SMALL :: nat where "RELAY_COUNTER_CLIENT_TO_SERVER_PACKET_TOO_SMALL \<equiv> 71"
abbreviation (input) RELAY_COUNTER_CLIENT_TO_SERVER_PACKET_TOO_BIG :: nat where "RELAY_COUNTER_CLIENT_TO_SERVER_PACKET_TOO_BIG \<equiv> 72"
abbreviation (input) RELAY_COUNTER_CLIENT_TO_SERVER_PACKET_COULD_NOT_FIND_SESSION :: nat where "RELAY_COUNTER_CLIENT_TO_SERVER_PACKET_COULD_NOT_FIND_SESSION \<equiv> 73"
abbreviation (input) RELAY_COUNTER_CLIENT_TO_SERVER_PACKET_SESSION_EXPIRED :: nat where "RELAY_COUNTER_CLIENT_TO_SERVER_PACKET_SESSION_EXPIRED \<equiv> 74"
abbreviation (input) RELAY_COUNTER_CLIENT_TO_SERVER_PACKET_ALREADY_RECEIVED :: nat where "RELAY_COUNTER_CLIENT_TO_SERVER_PACKET_ALREADY_RECEIVED \<equiv> 75"
abbreviation (input) RELAY_COUNTER_CLIENT_TO_SERVER_PACKET_HEADER_DID_NOT_VERIFY :: nat where "RELAY_COUNTER_CLIENT_TO_SERVER_PACKET_HEADER_DID_NOT_VERIFY \<equiv> 76"
abbreviation (input) RELAY_COUNTER_CLIENT_TO_SERVER_PACKET_FORWARD_TO_NEXT_HOP :: nat where "RELAY_COUNTER_CLIENT_TO_SERVER_PACKET_FORWARD_TO_NEXT_HOP \<equiv> 77"
abbreviation (input) RELAY_COUNTER_SERVER_TO_CLIENT_PACKET_RECEIVED :: nat where "RELAY_COUNTER_SERVER_TO_CLIENT_PACKET_RECEIVED \<equiv> 80"
abbreviation (input) RELAY_COUNTER_SERVER_TO_CLIENT_PACKET_TOO_SMALL :: nat where "RELAY_COUNTER_SERVER_TO_CLIENT_PACKET_TOO_SMALL \<equiv> 81"
abbreviation (input) RELAY_COUNTER_SERVER_TO_CLIENT_PACKET_TOO_BIG :: nat where "RELAY_COUNTER_SERVER_TO_CLIENT_PACKET_TOO_BIG \<equiv> 82"
abbreviation (input) RELAY_COUNTER_SERVER_TO_CLIENT_PACKET_COULD_NOT_FIND_SESSION :: nat where "RELAY_COUNTER_SERVER_TO_CLIENT_PACKET_COULD_NOT_FIND_SESSION \<equiv> 83"
abbreviation (input) RELAY_COUNTER_SERVER_TO_CLIENT_PACKET_SESSION_EXPIRED :: nat where "RELAY_COUNTER_SERVER_TO_CLIENT_PACKET_SESSION_EXPIRED \<equiv> 84"
abbreviation (input) RELAY_COUNTER_SERVER_TO_CLIENT_PACKET_ALREADY_RECEIVED :: nat where "RELAY_COUNTER_SERVER_TO_CLIENT_PACKET_ALREADY_RECEIVED \<equiv> 85"
abbreviation (input) RELAY_COUNTER_SERVER_TO_CLIENT_PACKET_HEADER_DID_NOT_VERIFY :: nat where "RELAY_COUNTER_SERVER_TO_CLIENT_PACKET_HEADER_DID_NOT_VERIFY \<equiv> 86"
abbreviation (input) RELAY_COUNTER_SERVER_TO_CLIENT_PACKET_FORWARD_TO_PREVIOUS_HOP :: nat where "RELAY_COUNTER_SERVER_TO_CLIENT_PACKET_FORWARD_TO_PREVIOUS_HOP \<equiv> 87"
abbreviation (input) RELAY_COUNTER_SESSION_PING_PACKET_RECEIVED :: nat where "RELAY_COUNTER_SESSION_PING_PACKET_RECEIVED \<equiv> 90"
abbreviation (input) RELAY_COUNTER_SESSION_PING_PACKET_WRONG_SIZE :: nat where "RELAY_COUNTER_SESSION_PING_PACKET_WRONG_SIZE \<equiv> 91"
abbreviation (input) RELAY_COUNTER_SESSION_PING_PACKET_COULD_NOT_FIND_SESSION :: nat where "RELAY_COUNTER_SESSION_PING_PACKET_COULD_NOT_FIND_SESSION \<equiv> 92"
abbreviation (input) RELAY_COUNTER_SESSION_PING_PACKET_SESSION_EXPIRED :: nat where "RELAY_COUNTER_SESSION_PING_PACKET_SESSION_EXPIRED \<equiv> 93"
abbreviation (input) RELAY_COUNTER_SESSION_PING_PACKET_ALREADY_RECEIVED :: nat where "RELAY_COUNTER_SESSION_PING_PACKET_ALREADY_RECEIVED \<equiv> 94"
abbreviation (input) RELAY_COUNTER_SESSION_PING_PACKET_HEADER_DID_NOT_VERIFY :: nat where "RELAY_COUNTER_SESSION_PING_PACKET_HEADER_DID_NOT_VERIFY \<equiv> 95"
abbreviation (input) RELAY_COUNTER_SESSION_PING_PACKET_FORWARD_TO_NEXT_HOP :: nat where "RELAY_COUNTER_SESSION_PING_PACKET_FORWARD_TO_NEXT_HOP \<equiv> 96"
abbreviation (input) RELAY_COUNTER_SESSION_PONG_PACKET_RECEIVED :: nat where "RELAY_COUNTER_SESSION_PONG_PACKET_RECEIVED \<equiv> 100"
abbreviation (input) RELAY_COUNTER_SESSION_PONG_PACKET_WRONG_SIZE :: nat where "RELAY_COUNTER_SESSION_PONG_PACKET_WRONG_SIZE \<equiv> 101"
abbreviation (input) RELAY_COUNTER_SESSION_PONG_PACKET_COULD_NOT_FIND_SESSION :: nat where "RELAY_COUNTER_SESSION_PONG_PACKET_COULD_NOT_FIND_SESSION \<equiv> 102"
abbreviation (input) RELAY_COUNTER_SESSION_PONG_PACKET_SESSION_EXPIRED :: nat where "RELAY_COUNTER_SESSION_PONG_PACKET_SESSION_EXPIRED \<equiv> 103"
abbreviation (input) RELAY_COUNTER_SESSION_PONG_PACKET_ALREADY_RECEIVED :: nat where "RELAY_COUNTER_SESSION_PONG_PACKET_ALREADY_RECEIVED \<equiv> 104"
abbreviation (input) RELAY_COUNTER_SESSION_PONG_PACKET_HEADER_DID_NOT_VERIFY :: nat where "RELAY_COUNTER_SESSION_PONG_PACKET_HEADER_DID_NOT_VERIFY \<equiv> 105"
abbreviation (input) RELAY_COUNTER_SESSION_PONG_PACKET_FORWARD_TO_PREVIOUS_HOP :: nat where "RELAY_COUNTER_SESSION_PONG_PACKET_FORWARD_TO_PREVIOUS_HOP \<equiv> 106"
abbreviation (input) RELAY_COUNTER_SERVER_PING_PACKET_RECEIVED :: nat where "RELAY_COUNTER_SERVER_PING_PACKET_RECEIVED \<equiv> 110"
abbreviation (input) RELAY_COUNTER_SERVER_PING_PACKET_WRONG_SIZE :: nat where "RELAY_COUNTER_SERVER_PING_PACKET_WRONG_SIZE \<equiv> 111"
abbreviation (input) RELAY_COUNTER_SERVER_PING_PACKET_RESPONDED_WITH_PONG :: nat where "RELAY_COUNTER_SERVER_PING_PACKET_RESPONDED_WITH_PONG \<equiv> 112"
abbreviation (input) RELAY_COUNTER_SERVER_PING_PACKET_DID_NOT_VERIFY :: nat where "RELAY_COUNTER_SERVER_PING_PACKET_DID_NOT_VERIFY \<equiv> 113"
abbreviation (input) RELAY_COUNTER_SERVER_PING_PACKET_EXPIRED :: nat where "RELAY_COUNTER_SERVER_PING_PACKET_EXPIRED \<equiv> 114"
abbreviation (input) RELAY_COUNTER_PACKET_TOO_LARGE :: nat where "RELAY_COUNTER_PACKET_TOO_LARGE \<equiv> 120"
abbreviation (input) RELAY_COUNTER_PACKET_TOO_SMALL :: nat where "RELAY_COUNTER_PACKET_TOO_SMALL \<equiv> 121"
abbreviation (input) RELAY_COUNTER_DROP_FRAGMENT :: nat where "RELAY_COUNTER_DROP_FRAGMENT \<equiv> 122"
abbreviation (input) RELAY_COUNTER_DROP_LARGE_IP_HEADER :: nat where "RELAY_COUNTER_DROP_LARGE_IP_HEADER \<equiv> 123"
abbreviation (input) RELAY_COUNTER_REDIRECT_NOT_IN_WHITELIST :: nat where "RELAY_COUNTER_REDIRECT_NOT_IN_WHITELIST \<equiv> 124"
abbreviation (input) RELAY_COUNTER_DROPPED_PACKETS :: nat where "RELAY_COUNTER_DROPPED_PACKETS \<equiv> 125"
abbreviation (input) RELAY_COUNTER_DROPPED_BYTES :: nat where "RELAY_COUNTER_DROPPED_BYTES \<equiv> 126"
abbreviation (input) RELAY_COUNTER_NOT_IN_WHITELIST :: nat where "RELAY_COUNTER_NOT_IN_WHITELIST \<equiv> 127"
abbreviation (input) RELAY_COUNTER_WHITELIST_ENTRY_EXPIRED :: nat where "RELAY_COUNTER_WHITELIST_ENTRY_EXPIRED \<equiv> 128"
abbreviation (input) RELAY_COUNTER_SESSIONS :: nat where "RELAY_COUNTER_SESSIONS \<equiv> 130"
abbreviation (input) RELAY_COUNTER_ENVELOPE_KBPS_UP :: nat where "RELAY_COUNTER_ENVELOPE_KBPS_UP \<equiv> 131"
abbreviation (input) RELAY_COUNTER_ENVELOPE_KBPS_DOWN :: nat where "RELAY_COUNTER_ENVELOPE_KBPS_DOWN \<equiv> 132"
abbreviation (input) RELAY_NUM_COUNTERS :: nat where "RELAY_NUM_COUNTERS \<equiv> 150"

section \<open>Structs (relay\_shared.h)\<close>

record relay_config =
  dedicated :: u32
  relay_public_address :: u32
  relay_internal_address :: u32
  relay_port :: u16
  relay_secret_key :: bytes
  relay_backend_public_key :: bytes
  gateway_ethernet_address :: bytes
  use_gateway_ethernet_address :: u8

record relay_state =
  current_timestamp :: u64
  current_magic :: bytes
  previous_magic :: bytes
  next_magic :: bytes
  ping_key :: bytes

text \<open>\<open>relay_stats\<close>: the array of counters, by index.\<close>

type_synonym relay_stats = "nat \<Rightarrow> u64"

record session_data =
  session_private_key :: bytes
  expire_timestamp :: u64
  session_id :: u64
  payload_client_to_server_sequence :: u64
  payload_server_to_client_sequence :: u64
  special_client_to_server_sequence :: u64
  special_server_to_client_sequence :: u64
  envelope_kbps_up :: u32
  envelope_kbps_down :: u32
  next_address :: u32
  prev_address :: u32
  next_port :: u16
  prev_port :: u16
  session_version :: u8
  next_internal :: u8
  prev_internal :: u8
  first_hop :: u8

record whitelist_key =
  wl_address :: u32
  wl_port :: u32

record whitelist_value =
  wl_expire_timestamp :: u64
  wl_source_address :: bytes
  wl_dest_address :: bytes

record session_key =
  key_session_id :: u64
  key_session_version :: u64

record ping_token_data =
  pt_ping_key :: bytes
  pt_expire_timestamp :: u64
  pt_source_address :: u32
  pt_dest_address :: u32
  pt_source_port :: u16
  pt_dest_port :: u16

record header_data =
  hd_session_private_key :: bytes
  hd_packet_type :: u8
  hd_packet_sequence :: u64
  hd_session_id :: u64
  hd_session_version :: u8

record route_token =
  rt_session_private_key :: bytes
  rt_expire_timestamp :: u64
  rt_session_id :: u64
  rt_envelope_kbps_up :: u32
  rt_envelope_kbps_down :: u32
  rt_next_address :: u32
  rt_prev_address :: u32
  rt_next_port :: u16
  rt_prev_port :: u16
  rt_session_version :: u8
  rt_next_internal :: u8
  rt_prev_internal :: u8

record continue_token =
  ct_expire_timestamp :: u64
  ct_session_id :: u64
  ct_session_version :: u8

section \<open>Memory layout of the packed structs\<close>

definition ping_token_bytes :: "ping_token_data \<Rightarrow> bytes" where
  "ping_token_bytes d =
     pt_ping_key d @ le_bytes 8 (pt_expire_timestamp d) @ le_bytes 4 (pt_source_address d) @
     le_bytes 4 (pt_dest_address d) @ le_bytes 2 (pt_source_port d) @ le_bytes 2 (pt_dest_port d)"

definition header_data_bytes :: "header_data \<Rightarrow> bytes" where
  "header_data_bytes d =
     hd_session_private_key d @ [hd_packet_type d] @ le_bytes 8 (hd_packet_sequence d) @
     le_bytes 8 (hd_session_id d) @ [hd_session_version d]"

definition route_token_at :: "nat \<Rightarrow> bytes \<Rightarrow> route_token" where
  "route_token_at off f =
     \<lparr>rt_session_private_key = window off 32 f,
      rt_expire_timestamp = load64 (off + 32) f,
      rt_session_id = load64 (off + 40) f,
      rt_envelope_kbps_up = load32 (off + 48) f,
      rt_envelope_kbps_down = load32 (off + 52) f,
      rt_next_address = load32 (off + 56) f,
      rt_prev_address = load32 (off + 60) f,
      rt_next_port = load16 (off + 64) f,
      rt_prev_port = load16 (off + 66) f,
      rt_session_version = f ! (off + 68),
      rt_next_internal = f ! (off + 69),
      rt_prev_internal = f ! (off + 70)\<rparr>"

definition continue_token_at :: "nat \<Rightarrow> bytes \<Rightarrow> continue_token" where
  "continue_token_at off f =
     \<lparr>ct_expire_timestamp = load64 off f,
      ct_session_id = load64 (off + 8) f,
      ct_session_version = f ! (off + 16)\<rparr>"

text \<open>The keys of the maps, as the bytes the hash table sees.\<close>

definition session_key_bytes :: "session_key \<Rightarrow> bytes" where
  "session_key_bytes k = le_bytes 8 (key_session_id k) @ le_bytes 8 (key_session_version k)"

definition whitelist_key_bytes :: "whitelist_key \<Rightarrow> bytes" where
  "whitelist_key_bytes k = le_bytes 4 (wl_address k) @ le_bytes 4 (wl_port k)"

lemma session_key_bytes_inj: "session_key_bytes k = session_key_bytes k' \<longleftrightarrow> k = k'"
  by (auto simp: session_key_bytes_def dest: le_bytes_inj [rotated] intro!: session_key.equality)

lemma whitelist_key_bytes_inj: "whitelist_key_bytes k = whitelist_key_bytes k' \<longleftrightarrow> k = k'"
  by (auto simp: whitelist_key_bytes_def dest: le_bytes_inj [rotated] intro!: whitelist_key.equality)

end
