(* ===== verification/Packet_Filter.thy ===== *)
theory Packet_Filter
  imports Next_Prelude
begin

text \<open>
  The packet filter: every packet carries, after its type byte, a two byte \<open>pittle\<close> (a
  checksum of the addresses and the length) and a fifteen byte \<open>chonkle\<close> (a spread-out FNV-1a
  hash of a magic value, the addresses and the length). The theory models the generators and the two filters
  of the SDK (\<open>sdk/source/next_packet_filter.cpp\<close>, \<open>next_hash.cpp\<close>), the copies in
  \<open>relay/xdp/relay_ping.c\<close>, and the unrolled versions that
  \<open>relay/xdp/relay_xdp.c\<close> inlines, and shows that they agree and that what the generators
  write is accepted.
\<close>

section \<open>FNV-1a (next\_hash.cpp, relay\_ping.c)\<close>

type_synonym fnv = u64

definition next_fnv_init :: fnv where
  "next_fnv_init = 0xCBF29CE484222325"

definition fnv_step :: "fnv \<Rightarrow> u64 \<Rightarrow> fnv" where
  "fnv_step h v = (h XOR v) * 0x00000100000001B3"

fun next_fnv_write :: "fnv \<Rightarrow> bytes \<Rightarrow> fnv" where
  "next_fnv_write h [] = h"
| "next_fnv_write h (b # bs) = next_fnv_write (fnv_step h (ucast b)) bs"

definition next_fnv_finalize :: "fnv \<Rightarrow> u64" where
  "next_fnv_finalize h = h"

definition next_hash_string :: "bytes \<Rightarrow> u64" where
  "next_hash_string s = next_fnv_finalize (next_fnv_write next_fnv_init s)"

definition next_datacenter_id :: "bytes \<Rightarrow> u64" where
  "next_datacenter_id name = next_hash_string name"

definition relay_fnv_init :: fnv where
  "relay_fnv_init = 0xCBF29CE484222325"

fun relay_fnv_write :: "fnv \<Rightarrow> bytes \<Rightarrow> fnv" where
  "relay_fnv_write h [] = h"
| "relay_fnv_write h (b # bs) = relay_fnv_write ((h XOR ucast b) * 0x00000100000001B3) bs"

definition relay_hash_string :: "bytes \<Rightarrow> u64" where
  "relay_hash_string s = relay_fnv_write relay_fnv_init s"

section \<open>Generators of the SDK\<close>

text \<open>\<open>sum_data[0]\<close> and \<open>sum_data[1]\<close> are the two bytes of the 16-bit sum.\<close>

definition pittle_of_sum :: "u16 \<Rightarrow> bytes" where
  "pittle_of_sum s =
     (let sum_0 = ucast s :: u8;
          sum_1 = ucast (drop_bit 8 s) :: u8;
          p0 = 1 OR (sum_0 XOR sum_1 XOR 193);
          p1 = 1 OR ((255 - p0) XOR 113)
      in [p0, p1])"

definition next_generate_pittle :: "bytes \<Rightarrow> bytes \<Rightarrow> u16 \<Rightarrow> bytes" where
  "next_generate_pittle from_address to_address packet_length =
     pittle_of_sum
       (foldl (\<lambda>s b. s + ucast b) 0
          (take 4 from_address @ take 4 to_address @ le_bytes 2 packet_length))"

definition chonkle_of_hash :: "bytes \<Rightarrow> bytes" where
  "chonkle_of_hash data =
     [drop_bit 6 (data ! 6 AND 0xC0) + 42,
      (data ! 3 AND 0x1F) + 200,
      drop_bit 2 (data ! 2 AND 0xFC) + 5,
      data ! 0,
      (data ! 2 AND 0x03) + 78,
      (data ! 4 AND 0x7F) + 96,
      drop_bit 2 (data ! 1 AND 0xFC) + 100,
      (if data ! 7 AND 1 = 0 then 79 else 7),
      (if data ! 4 AND 0x80 = 0 then 37 else 83),
      (data ! 5 AND 0x07) + 124,
      drop_bit 5 (data ! 1 AND 0xE0) + 175,
      (data ! 6 AND 0x3F) + 33,
      (let v = data ! 1 AND 0x03 in
         if v = 0 then 97 else if v = 1 then 5 else if v = 2 then 43 else 13),
      drop_bit 3 (data ! 5 AND 0xF8) + 210,
      drop_bit 1 (data ! 7 AND 0xFE) + 17]"

definition next_generate_chonkle :: "bytes \<Rightarrow> bytes \<Rightarrow> bytes \<Rightarrow> u16 \<Rightarrow> bytes" where
  "next_generate_chonkle magic from_address to_address packet_length =
     (let fnv = next_fnv_init;
          fnv = next_fnv_write fnv (take 8 magic);
          fnv = next_fnv_write fnv (take 4 from_address);
          fnv = next_fnv_write fnv (take 4 to_address);
          fnv = next_fnv_write fnv (le_bytes 2 packet_length);
          hash = next_fnv_finalize fnv
      in chonkle_of_hash (le_bytes 8 hash))"

section \<open>Filters of the SDK\<close>

definition next_basic_packet_filter :: "bytes \<Rightarrow> u16 \<Rightarrow> bool" where
  "next_basic_packet_filter data packet_length \<longleftrightarrow>
     (if packet_length = 0 then False
      else if data ! 0 = 0 then True
      else if packet_length < 18 then False
      else if data ! 2 \<noteq> 1 OR ((255 - data ! 1) XOR 113) then False
      else if data ! 3 < 0x2A \<or> data ! 3 > 0x2D then False
      else if data ! 4 < 0xC8 \<or> data ! 4 > 0xE7 then False
      else if data ! 5 < 0x05 \<or> data ! 5 > 0x44 then False
      else if data ! 7 < 0x4E \<or> data ! 7 > 0x51 then False
      else if data ! 8 < 0x60 \<or> data ! 8 > 0xDF then False
      else if data ! 9 < 0x64 \<or> data ! 9 > 0xE3 then False
      else if data ! 10 \<noteq> 0x07 \<and> data ! 10 \<noteq> 0x4F then False
      else if data ! 11 \<noteq> 0x25 \<and> data ! 11 \<noteq> 0x53 then False
      else if data ! 12 < 0x7C \<or> data ! 12 > 0x83 then False
      else if data ! 13 < 0xAF \<or> data ! 13 > 0xB6 then False
      else if data ! 14 < 0x21 \<or> data ! 14 > 0x60 then False
      else if data ! 15 \<noteq> 0x61 \<and> data ! 15 \<noteq> 0x05 \<and> data ! 15 \<noteq> 0x2B \<and> data ! 15 \<noteq> 0x0D then False
      else if data ! 16 < 0xD2 \<or> data ! 16 > 0xF1 then False
      else if data ! 17 < 0x11 \<or> data ! 17 > 0x90 then False
      else True)"

definition next_advanced_packet_filter :: "bytes \<Rightarrow> bytes \<Rightarrow> bytes \<Rightarrow> bytes \<Rightarrow> u16 \<Rightarrow> bool" where
  "next_advanced_packet_filter data magic from_address to_address packet_length \<longleftrightarrow>
     (if data ! 0 = 0 then True
      else if packet_length < 18 then False
      else
        let a = next_generate_pittle from_address to_address packet_length;
            b = next_generate_chonkle magic from_address to_address packet_length
        in if a \<noteq> window 1 2 data then False
           else if b \<noteq> window 3 15 data then False
           else True)"

section \<open>Generators of the relay's ping thread (relay\_ping.c)\<close>

definition relay_address_data :: "u32 \<Rightarrow> bytes" where
  "relay_address_data address =
     [ucast (address AND 0xFF), ucast (drop_bit 8 address AND 0xFF),
      ucast (drop_bit 16 address AND 0xFF), ucast (drop_bit 24 address AND 0xFF)]"

definition relay_generate_pittle :: "bytes \<Rightarrow> bytes \<Rightarrow> u16 \<Rightarrow> bytes" where
  "relay_generate_pittle from_address to_address packet_length =
     pittle_of_sum
       (foldl (\<lambda>s b. s + ucast b) 0
          (take 4 from_address @ take 4 to_address @ le_bytes 2 packet_length))"

definition relay_generate_chonkle :: "bytes \<Rightarrow> bytes \<Rightarrow> bytes \<Rightarrow> u16 \<Rightarrow> bytes" where
  "relay_generate_chonkle magic from_address to_address packet_length =
     (let fnv = relay_fnv_init;
          fnv = relay_fnv_write fnv (take 8 magic);
          fnv = relay_fnv_write fnv (take 4 from_address);
          fnv = relay_fnv_write fnv (take 4 to_address);
          fnv = relay_fnv_write fnv (le_bytes 2 packet_length)
      in chonkle_of_hash (le_bytes 8 fnv))"

section \<open>The unrolled code of the datapath (relay\_xdp.c)\<close>

text \<open>
  The datapath works on the 32-bit source and destination address as loaded from the IP header,
  and on an \<open>int\<close> packet length, which is at most 1400 where it is called.
\<close>

definition xdp_pittle :: "u32 \<Rightarrow> u32 \<Rightarrow> nat \<Rightarrow> bytes" where
  "xdp_pittle from to packet_bytes =
     (let s = 0 :: u16;
          s = s + ucast (drop_bit 24 from);
          s = s + ucast (drop_bit 16 from AND 0xFF);
          s = s + ucast (drop_bit 8 from AND 0xFF);
          s = s + ucast (from AND 0xFF);
          s = s + ucast (drop_bit 24 to);
          s = s + ucast (drop_bit 16 to AND 0xFF);
          s = s + ucast (drop_bit 8 to AND 0xFF);
          s = s + ucast (to AND 0xFF);
          s = s + of_nat (packet_bytes div 256);
          s = s + of_nat (packet_bytes mod 256)
      in pittle_of_sum s)"

definition xdp_hash :: "bytes \<Rightarrow> u32 \<Rightarrow> u32 \<Rightarrow> nat \<Rightarrow> u64" where
  "xdp_hash magic from to packet_bytes =
     foldl fnv_step 0xCBF29CE484222325
       [ucast (magic ! 0), ucast (magic ! 1), ucast (magic ! 2), ucast (magic ! 3),
        ucast (magic ! 4), ucast (magic ! 5), ucast (magic ! 6), ucast (magic ! 7),
        ucast (from AND 0xFF), ucast (drop_bit 8 from AND 0xFF),
        ucast (drop_bit 16 from AND 0xFF), ucast (drop_bit 24 from),
        ucast (to AND 0xFF), ucast (drop_bit 8 to AND 0xFF),
        ucast (drop_bit 16 to AND 0xFF), ucast (drop_bit 24 to),
        of_nat (packet_bytes mod 256), of_nat (packet_bytes div 256)]"

definition xdp_hash_bytes :: "u64 \<Rightarrow> bytes" where
  "xdp_hash_bytes hash =
     [ucast (hash AND 0xFF), ucast (drop_bit 8 hash AND 0xFF), ucast (drop_bit 16 hash AND 0xFF),
      ucast (drop_bit 24 hash AND 0xFF), ucast (drop_bit 32 hash AND 0xFF),
      ucast (drop_bit 40 hash AND 0xFF), ucast (drop_bit 48 hash AND 0xFF), ucast (drop_bit 56 hash)]"

definition xdp_chonkle :: "bytes \<Rightarrow> u32 \<Rightarrow> u32 \<Rightarrow> nat \<Rightarrow> bytes" where
  "xdp_chonkle magic from to packet_bytes =
     chonkle_of_hash (xdp_hash_bytes (xdp_hash magic from to packet_bytes))"

text \<open>The two filters of the datapath; \<open>pd\<close> is \<open>packet_data\<close>, the UDP payload.\<close>

definition xdp_basic_packet_filter :: "bytes \<Rightarrow> bool" where
  "xdp_basic_packet_filter pd \<longleftrightarrow>
     \<not> (pd ! 0 < 0x01 \<or> pd ! 0 > 0x0E \<or>
        pd ! 2 \<noteq> 1 OR ((255 - pd ! 1) XOR 113) \<or>
        pd ! 3 < 0x2A \<or> pd ! 3 > 0x2D \<or>
        pd ! 4 < 0xC8 \<or> pd ! 4 > 0xE7 \<or>
        pd ! 5 < 0x05 \<or> pd ! 5 > 0x44 \<or>
        pd ! 7 < 0x4E \<or> pd ! 7 > 0x51 \<or>
        pd ! 8 < 0x60 \<or> pd ! 8 > 0xDF \<or>
        pd ! 9 < 0x64 \<or> pd ! 9 > 0xE3 \<or>
        pd ! 10 \<noteq> 0x07 \<and> pd ! 10 \<noteq> 0x4F \<or>
        pd ! 11 \<noteq> 0x25 \<and> pd ! 11 \<noteq> 0x53 \<or>
        pd ! 12 < 0x7C \<or> pd ! 12 > 0x83 \<or>
        pd ! 13 < 0xAF \<or> pd ! 13 > 0xB6 \<or>
        pd ! 14 < 0x21 \<or> pd ! 14 > 0x60 \<or>
        pd ! 15 \<noteq> 0x61 \<and> pd ! 15 \<noteq> 0x05 \<and> pd ! 15 \<noteq> 0x2B \<and> pd ! 15 \<noteq> 0x0D \<or>
        pd ! 16 < 0xD2 \<or> pd ! 16 > 0xF1 \<or>
        pd ! 17 < 0x11 \<or> pd ! 17 > 0x90)"

definition relay_advanced_packet_filter :: "bytes \<Rightarrow> bytes \<Rightarrow> u32 \<Rightarrow> u32 \<Rightarrow> nat \<Rightarrow> bool" where
  "relay_advanced_packet_filter pd magic from to packet_bytes \<longleftrightarrow>
     (let pittle = xdp_pittle from to packet_bytes;
          chonkle = xdp_chonkle magic from to packet_bytes
      in if pittle ! 0 \<noteq> pd ! 1 \<or> pittle ! 1 \<noteq> pd ! 2 then False
         else chonkle ! 0 = pd ! 3 \<and> chonkle ! 1 = pd ! 4 \<and> chonkle ! 2 = pd ! 5 \<and>
              chonkle ! 3 = pd ! 6 \<and> chonkle ! 4 = pd ! 7 \<and> chonkle ! 5 = pd ! 8 \<and>
              chonkle ! 6 = pd ! 9 \<and> chonkle ! 7 = pd ! 10 \<and> chonkle ! 8 = pd ! 11 \<and>
              chonkle ! 9 = pd ! 12 \<and> chonkle ! 10 = pd ! 13 \<and> chonkle ! 11 = pd ! 14 \<and>
              chonkle ! 12 = pd ! 15 \<and> chonkle ! 13 = pd ! 16 \<and> chonkle ! 14 = pd ! 17)"

text \<open>The stores \<open>packet_data[1..17] = pittle, chonkle\<close> at the end of a rewrite.\<close>

definition stamp :: "bytes \<Rightarrow> bytes \<Rightarrow> bytes \<Rightarrow> bytes" where
  "stamp pittle chonkle pd = overwrite 3 chonkle (overwrite 1 pittle pd)"

text \<open>The byte ranges that the basic filters check, as a predicate on the chonkle.\<close>

definition chonkle_ok :: "bytes \<Rightarrow> bool" where
  "chonkle_ok c \<longleftrightarrow>
     0x2A \<le> c ! 0 \<and> c ! 0 \<le> 0x2D \<and> 0xC8 \<le> c ! 1 \<and> c ! 1 \<le> 0xE7 \<and>
     0x05 \<le> c ! 2 \<and> c ! 2 \<le> 0x44 \<and> 0x4E \<le> c ! 4 \<and> c ! 4 \<le> 0x51 \<and>
     0x60 \<le> c ! 5 \<and> c ! 5 \<le> 0xDF \<and> 0x64 \<le> c ! 6 \<and> c ! 6 \<le> 0xE3 \<and>
     (c ! 7 = 0x07 \<or> c ! 7 = 0x4F) \<and> (c ! 8 = 0x25 \<or> c ! 8 = 0x53) \<and>
     0x7C \<le> c ! 9 \<and> c ! 9 \<le> 0x83 \<and> 0xAF \<le> c ! 10 \<and> c ! 10 \<le> 0xB6 \<and>
     0x21 \<le> c ! 11 \<and> c ! 11 \<le> 0x60 \<and>
     (c ! 12 = 0x61 \<or> c ! 12 = 0x05 \<or> c ! 12 = 0x2B \<or> c ! 12 = 0x0D) \<and>
     0xD2 \<le> c ! 13 \<and> c ! 13 \<le> 0xF1 \<and> 0x11 \<le> c ! 14 \<and> c ! 14 \<le> 0x90"

section \<open>What the generators write\<close>

lemma chonkle_ok_chonkle_of_hash: "chonkle_ok (chonkle_of_hash data)"
  unfolding chonkle_ok_def chonkle_of_hash_def
  by (simp add: masked_range(1) Let_def) (intro conjI masked_upper; simp)

lemma length_generated [simp]:
  "length (pittle_of_sum s) = 2" "length (chonkle_of_hash h) = 15"
  by (simp_all add: pittle_of_sum_def chonkle_of_hash_def Let_def)

lemma length_xdp [simp]:
  "length (xdp_pittle f t n) = 2" "length (xdp_chonkle m f t n) = 15"
  "length (next_generate_pittle fa ta k) = 2" "length (next_generate_chonkle m fa ta k) = 15"
  by (simp_all add: xdp_pittle_def xdp_chonkle_def next_generate_pittle_def next_generate_chonkle_def Let_def)

lemma pittle_second: "pittle_of_sum s ! 1 = 1 OR ((255 - pittle_of_sum s ! 0) XOR 113)"
  by (simp add: pittle_of_sum_def Let_def)

lemma length_stamp [simp]:
  "length p = 2 \<Longrightarrow> length c = 15 \<Longrightarrow> 18 \<le> length pd \<Longrightarrow> length (stamp p c pd) = length pd"
  by (simp add: stamp_def buffer_simps)

lemma nth_stamp:
  assumes "length p = 2" "length c = 15" "18 \<le> length pd" "i < 18"
  shows "stamp p c pd ! i = (if i = 0 then pd ! 0 else if i < 3 then p ! (i - 1) else c ! (i - 3))"
proof -
  have "i < length pd" using assms by linarith
  then show ?thesis using assms by (auto simp: stamp_def nth_overwrite length_overwrite nth_overwrite_before)
qed

lemma xdp_basic_stamp:
  assumes "length p = 2" "length c = 15" "18 \<le> length pd" "pd ! 0 \<noteq> 0" "pd ! 0 \<le> 0x0E"
    and "p ! 1 = 1 OR ((255 - p ! 0) XOR 113)" "chonkle_ok c"
  shows "xdp_basic_packet_filter (stamp p c pd)"
  using assms(4-7) unfolding xdp_basic_packet_filter_def chonkle_ok_def
  by (simp add: nth_stamp [OF assms(1-3)] not_less not_le)


lemma next_basic_stamp:
  assumes "length p = 2" "length c = 15" "18 \<le> length pd" "18 \<le> n"
    and "p ! 1 = 1 OR ((255 - p ! 0) XOR 113)" "chonkle_ok c"
  shows "next_basic_packet_filter (stamp p c pd) n"
proof -
  have n: "n \<noteq> 0" "\<not> n < 18" using assms(4) by auto
  show ?thesis
    using n assms(5,6) unfolding next_basic_packet_filter_def chonkle_ok_def guard_chain not_less [symmetric]
    by (simp add: nth_stamp [OF assms(1-3)])
qed

lemma window_stamp:
  assumes "length p = 2" "length c = 15" "18 \<le> length pd"
  shows "window 1 2 (stamp p c pd) = p" and "window 3 15 (stamp p c pd) = c"
    and "drop 18 (stamp p c pd) = drop 18 pd"
  using assms by (simp_all add: stamp_def buffer_simps)

lemma fnv_write_foldl: "next_fnv_write h bs = foldl fnv_step h (map ucast bs)"
  by (induction bs arbitrary: h) simp_all

lemma relay_fnv_write_eq: "relay_fnv_write h bs = next_fnv_write h bs"
  by (induction bs arbitrary: h) (simp_all add: fnv_step_def)

lemma relay_hash_string_eq: "relay_hash_string s = next_hash_string s"
  by (simp add: relay_hash_string_def next_hash_string_def next_fnv_finalize_def
      relay_fnv_init_def next_fnv_init_def relay_fnv_write_eq)

lemma relay_generate_pittle_eq: "relay_generate_pittle f t n = next_generate_pittle f t n"
  by (simp add: relay_generate_pittle_def next_generate_pittle_def)

lemma relay_generate_chonkle_eq: "relay_generate_chonkle m f t n = next_generate_chonkle m f t n"
  by (simp add: relay_generate_chonkle_def next_generate_chonkle_def Let_def next_fnv_finalize_def
      relay_fnv_init_def next_fnv_init_def relay_fnv_write_eq)

lemma relay_address_data_le: "relay_address_data a = le_bytes 4 a"
  by (simp add: relay_address_data_def le_bytes_explicit ucast_mask_byte)


lemma xdp_pittle_eq:
  assumes "n < 65536"
  shows "xdp_pittle from to n = next_generate_pittle (le_bytes 4 from) (le_bytes 4 to) (of_nat n)"
  unfolding xdp_pittle_def next_generate_pittle_def Let_def
  by (rule arg_cong [where f = pittle_of_sum])
     (simp add: le_bytes_explicit ucast_mask_byte ucast_top_byte length_field_bytes [OF assms] ac_simps)

lemma xdp_chonkle_eq:
  assumes "n < 65536" "length magic = 8"
  shows "xdp_chonkle magic from to n =
         next_generate_chonkle magic (le_bytes 4 from) (le_bytes 4 to) (of_nat n)"
proof -
  have "xdp_hash magic from to n =
    next_fnv_write next_fnv_init (magic @ le_bytes 4 from @ le_bytes 4 to @ le_bytes 2 (of_nat n :: u16))"
    by (subst (2) list8 [OF assms(2)])
       (simp add: xdp_hash_def fnv_write_foldl le_bytes_explicit ucast_mask_byte ucast_top_byte
          length_field_bytes [OF assms(1)] next_fnv_init_def)
  then show ?thesis
    by (simp add: xdp_chonkle_def next_generate_chonkle_def Let_def next_fnv_finalize_def
        xdp_hash_bytes_def le_bytes_explicit(3) [symmetric] ucast_mask_byte fnv_write_foldl assms)
qed

lemma relay_advanced_iff:
  assumes "18 \<le> length pd"
  shows "relay_advanced_packet_filter pd magic from to n \<longleftrightarrow>
         window 1 2 pd = xdp_pittle from to n \<and> window 3 15 pd = xdp_chonkle magic from to n"
proof -
  have p: "window 1 2 pd = xdp_pittle from to n \<longleftrightarrow>
    (\<forall>i<2. xdp_pittle from to n ! i = pd ! (1 + i))"
    using assms by (subst list_eq_iff_nth_eq) (auto simp: buffer_simps)
  have c: "window 3 15 pd = xdp_chonkle magic from to n \<longleftrightarrow>
    (\<forall>i<15. xdp_chonkle magic from to n ! i = pd ! (3 + i))"
    using assms by (subst list_eq_iff_nth_eq) (auto simp: buffer_simps)
  show ?thesis unfolding relay_advanced_packet_filter_def Let_def p c guard_chain
    by (simp add: numeral_eq_Suc All_less_Suc2)
qed

lemma relay_advanced_eq_next:
  assumes "18 \<le> length pd" "pd ! 0 \<noteq> 0" "18 \<le> n" "n < 65536" "length magic = 8"
  shows "relay_advanced_packet_filter pd magic from to n =
         next_advanced_packet_filter pd magic (le_bytes 4 from) (le_bytes 4 to) (of_nat n)"
proof -
  have "\<not> (word_of_nat n :: u16) < 18"
    using assms by (simp add: word_less_nat_alt unsigned_of_nat take_bit_eq_mod)
  then show ?thesis
    using assms unfolding next_advanced_packet_filter_def Let_def guard_chain
    by (auto simp: relay_advanced_iff xdp_pittle_eq xdp_chonkle_eq)
qed

lemma pittle_of_generators:
  "next_generate_pittle f t n ! 1 = 1 OR ((255 - next_generate_pittle f t n ! 0) XOR 113)"
  "xdp_pittle a b k ! 1 = 1 OR ((255 - xdp_pittle a b k ! 0) XOR 113)"
  unfolding next_generate_pittle_def xdp_pittle_def Let_def by (rule pittle_second)+

lemma chonkle_ok_generators:
  "chonkle_ok (next_generate_chonkle m f t n)" "chonkle_ok (xdp_chonkle m a b k)"
  by (simp_all add: next_generate_chonkle_def xdp_chonkle_def Let_def chonkle_ok_chonkle_of_hash)

lemma xdp_basic_eq_next:
  assumes "18 \<le> n"
  shows "xdp_basic_packet_filter pd \<longleftrightarrow> pd ! 0 \<noteq> 0 \<and> pd ! 0 \<le> 0x0E \<and> next_basic_packet_filter pd n"
proof -
  have n: "n \<noteq> 0" "\<not> n < 18" using assms by auto
  have z: "pd ! 0 < 1 \<longleftrightarrow> pd ! 0 = 0" by (metis word_less_1)
  show ?thesis using n
    unfolding xdp_basic_packet_filter_def next_basic_packet_filter_def guard_chain de_Morgan_disj z not_less
    by blast
qed

lemma stamp_passes:
  fixes "from" to :: u32
  assumes "18 \<le> length pd" "length pd < 65536" "length magic = 8" "pd ! 0 \<noteq> 0" "pd ! 0 \<le> 0x0E"
  defines "pd' \<equiv> stamp (xdp_pittle from to (length pd)) (xdp_chonkle magic from to (length pd)) pd"
  shows "xdp_basic_packet_filter pd'" "relay_advanced_packet_filter pd' magic from to (length pd')"
    "length pd' = length pd" "pd' ! 0 = pd ! 0" "drop 18 pd' = drop 18 pd"
  using assms
  by (simp_all add: xdp_basic_stamp pittle_of_generators [simplified] chonkle_ok_generators relay_advanced_iff
      window_stamp [simplified] nth_stamp)

section \<open>Properties\<close>

text \<open>C15. The unrolled filters of the relay datapath decide exactly what the SDK's
  \<open>next_basic_packet_filter\<close> and \<open>next_advanced_packet_filter\<close> decide, for every packet of a known
  type (1 to 14) of 18 to 65535 bytes: the two implementations are interchangeable.\<close>

theorem relay_filter_equals_sdk_filter:
  assumes "18 \<le> length pd" "length pd < 65536" "length magic = 8" "pd ! 0 \<noteq> 0" "pd ! 0 \<le> 0x0E"
  shows "xdp_basic_packet_filter pd = next_basic_packet_filter pd (of_nat (length pd)) \<and>
         relay_advanced_packet_filter pd magic from to (length pd) =
         next_advanced_packet_filter pd magic (relay_address_data from) (relay_address_data to)
           (of_nat (length pd))"
proof -
  have "18 \<le> (word_of_nat (length pd) :: u16)"
    using assms by (simp add: word_le_nat_alt unsigned_of_nat take_bit_eq_mod)
  then show ?thesis
    using assms by (simp add: xdp_basic_eq_next relay_advanced_eq_next relay_address_data_le)
qed

theorem relay_filter_equals_sdk_filter_witness:
  "xdp_basic_packet_filter (5 # replicate 42 0) = next_basic_packet_filter (5 # replicate 42 0) 43"
  using relay_filter_equals_sdk_filter [of "5 # replicate 42 0" "replicate 8 1"] by simp

text \<open>C16. A packet whose pittle and chonkle were written by the SDK's generators for the addresses it
  travels between passes the basic and the advanced filter of the SDK and of the relay; writing
  them changes neither the length, nor the type byte, nor the payload after byte 18.\<close>

theorem generated_bytes_pass_filters:
  assumes "18 \<le> length pd" "length pd < 65536" "length magic = 8" "pd ! 0 \<noteq> 0" "pd ! 0 \<le> 0x0E"
  shows "let n = of_nat (length pd) :: u16;
             from' = relay_address_data from;
             to' = relay_address_data to;
             pd' = stamp (next_generate_pittle from' to' n) (next_generate_chonkle magic from' to' n) pd
         in next_basic_packet_filter pd' n \<and> next_advanced_packet_filter pd' magic from' to' n \<and>
            xdp_basic_packet_filter pd' \<and> relay_advanced_packet_filter pd' magic from to (length pd') \<and>
            length pd' = length pd \<and> pd' ! 0 = pd ! 0 \<and> drop 18 pd' = drop 18 pd"
proof -
  define n where "n = (of_nat (length pd) :: u16)"
  define pd' where "pd' = stamp (next_generate_pittle (relay_address_data from) (relay_address_data to) n)
    (next_generate_chonkle magic (relay_address_data from) (relay_address_data to) n) pd"
  have e: "stamp (xdp_pittle from to (length pd)) (xdp_chonkle magic from to (length pd)) pd = pd'"
    using assms by (simp add: pd'_def n_def xdp_pittle_eq xdp_chonkle_eq relay_address_data_le)
  have n: "18 \<le> n"
    using assms by (simp add: n_def word_le_nat_alt unsigned_of_nat take_bit_eq_mod)
  note s = stamp_passes [OF assms(1-5), of "from" to, unfolded e]
  have "next_basic_packet_filter pd' n" using s(1) xdp_basic_eq_next [OF n] by blast
  moreover have "next_advanced_packet_filter pd' magic (relay_address_data from) (relay_address_data to) n"
    using relay_advanced_eq_next [of pd' "length pd'" magic "from" to] s assms
    by (simp add: relay_address_data_le n_def)
  ultimately show ?thesis using s by (simp add: Let_def n_def [symmetric] pd'_def [symmetric])
qed

theorem generated_bytes_pass_filters_witness:
  "relay_advanced_packet_filter
     (stamp (next_generate_pittle (relay_address_data 0x0100007F) (relay_address_data 0x0200007F) 26)
        (next_generate_chonkle [1,2,3,4,5,6,7,8] (relay_address_data 0x0100007F) (relay_address_data 0x0200007F) 26)
        (12 # replicate 25 0)) [1,2,3,4,5,6,7,8] 0x0100007F 0x0200007F 26"
  using generated_bytes_pass_filters [of "12 # replicate 25 0" "[1,2,3,4,5,6,7,8]" "0x0100007F" "0x0200007F"]
  by (simp add: Let_def)

end
