(* ===== verification/Relay_Xdp.thy ===== *)
theory Relay_Xdp
  imports Relay_Types Packet_Filter
begin

text \<open>
  The relay's datapath, \<open>relay/xdp/relay_xdp.c\<close>: one call of \<open>relay_xdp_filter\<close> takes an Ethernet
  frame (the bytes from \<open>ctx->data\<close> to \<open>ctx->data_end\<close>) and the six maps, and yields a verdict,
  the frame as it leaves, and the updated maps. Header fields are loads and stores at the offsets of
  \<open>struct ethhdr\<close> (0), \<open>struct iphdr\<close> (14), \<open>struct udphdr\<close> (34) and of the UDP payload
  \<open>packet_data\<close> (42). A call runs alone, as it does under the maps lock of the user space build, so every
  compare-and-swap succeeds. SHA-256 and XChaCha20-Poly1305 are the fields of
  the parameter \<open>crypto\<close>.
\<close>

section \<open>State\<close>

datatype xdp_action = XDP_ABORTED | XDP_DROP | XDP_PASS | XDP_TX | XDP_REDIRECT

record crypto =
  sha256 :: "bytes \<Rightarrow> bytes"
  xchacha20poly1305_decrypt :: "bytes \<Rightarrow> bytes \<Rightarrow> bytes \<Rightarrow> bytes option"

record relay_maps =
  stats_map :: "relay_stats option"
  config_map :: "relay_config option"
  state_map :: "relay_state option"
  relay_map :: "u64 \<Rightarrow> u64 option"
  session_map :: "session_key \<Rightarrow> session_data option"
  whitelist_map :: "whitelist_key \<Rightarrow> whitelist_value option"

type_synonym xdp_result = "xdp_action \<times> bytes \<times> relay_maps"

definition ADD_COUNTER :: "nat \<Rightarrow> u64 \<Rightarrow> relay_maps \<Rightarrow> relay_maps" where
  "ADD_COUNTER i v m = m\<lparr>stats_map := map_option (\<lambda>c. c(i := c i + v)) (stats_map m)\<rparr>"

definition INCREMENT_COUNTER :: "nat \<Rightarrow> relay_maps \<Rightarrow> relay_maps" where
  "INCREMENT_COUNTER i = ADD_COUNTER i 1"

text \<open>The exit of every failed check: its counter, the two drop counters, \<open>XDP_DROP\<close>.\<close>

definition drop_packet :: "nat \<Rightarrow> bytes \<Rightarrow> nat \<Rightarrow> relay_maps \<Rightarrow> xdp_result" where
  "drop_packet counter f n m =
     (XDP_DROP, f,
      ADD_COUNTER RELAY_COUNTER_DROPPED_BYTES (of_nat n)
        (INCREMENT_COUNTER RELAY_COUNTER_DROPPED_PACKETS (INCREMENT_COUNTER counter m)))"

definition drop_silently :: "bytes \<Rightarrow> relay_maps \<Rightarrow> xdp_result" where
  "drop_silently f m =
     (XDP_DROP, f,
      ADD_COUNTER RELAY_COUNTER_DROPPED_BYTES (of_nat (length f))
        (INCREMENT_COUNTER RELAY_COUNTER_DROPPED_PACKETS m))"

section \<open>Header fields\<close>

abbreviation eth_dest :: "bytes \<Rightarrow> bytes" where "eth_dest f \<equiv> window 0 6 f"
abbreviation eth_source :: "bytes \<Rightarrow> bytes" where "eth_source f \<equiv> window 6 6 f"
abbreviation eth_proto :: "bytes \<Rightarrow> u16" where "eth_proto f \<equiv> load16 12 f"
abbreviation ip_ihl :: "bytes \<Rightarrow> u8" where "ip_ihl f \<equiv> f ! 14 AND 0x0F"
abbreviation ip_protocol :: "bytes \<Rightarrow> u8" where "ip_protocol f \<equiv> f ! 23"
abbreviation ip_saddr :: "bytes \<Rightarrow> u32" where "ip_saddr f \<equiv> load32 26 f"
abbreviation ip_daddr :: "bytes \<Rightarrow> u32" where "ip_daddr f \<equiv> load32 30 f"
abbreviation udp_source :: "bytes \<Rightarrow> u16" where "udp_source f \<equiv> load16 34 f"
abbreviation udp_dest :: "bytes \<Rightarrow> u16" where "udp_dest f \<equiv> load16 36 f"
abbreviation packet_data :: "bytes \<Rightarrow> bytes" where "packet_data f \<equiv> drop 42 f"

definition ETH_P_IP :: u16 where "ETH_P_IP = bswap16 0x0800"
definition ETH_P_IPV6 :: u16 where "ETH_P_IPV6 = bswap16 0x86DD"

section \<open>Rewriting a frame\<close>

text \<open>The sum of the ten 16-bit words of the IP header, folded once and complemented.\<close>

definition ip_header_sum :: "bytes \<Rightarrow> u32" where
  "ip_header_sum f = foldl (\<lambda>s i. s + ucast (load16 (14 + 2 * i) f)) 0 [0..<10]"

definition ip_checksum :: "bytes \<Rightarrow> u16" where
  "ip_checksum f =
     (let checksum = ip_header_sum f;
          checksum = NOT ((checksum AND 0xFFFF) + drop_bit 16 checksum)
      in ucast checksum)"

definition write_lengths :: "nat \<Rightarrow> bytes \<Rightarrow> bytes" where
  "write_lengths payload_bytes f =
     store16 24 0
       (store16 16 (bswap16 (of_nat (20 + 8 + payload_bytes)))
         (store16 38 (bswap16 (of_nat (8 + payload_bytes)))
           (store16 40 0 f)))"

definition write_ethernet :: "bytes \<Rightarrow> bytes \<Rightarrow> bytes option \<Rightarrow> bytes \<Rightarrow> bytes" where
  "write_ethernet h_source h_dest gateway_address f =
     (let f1 = overwrite 0 h_dest (overwrite 6 h_source f)
      in case gateway_address of Some g \<Rightarrow> overwrite 0 (take 6 g) f1 | None \<Rightarrow> f1)"

definition write_checksum :: "bytes \<Rightarrow> bytes" where
  "write_checksum f = store16 24 (ip_checksum f) f"

definition write_filter_bytes :: "bytes \<Rightarrow> nat \<Rightarrow> bytes \<Rightarrow> bytes" where
  "write_filter_bytes magic payload_bytes f =
     (let from = ip_saddr f; to = ip_daddr f in
      overwrite (42 + 3) (xdp_chonkle magic from to payload_bytes)
        (overwrite (42 + 1) (xdp_pittle from to payload_bytes) f))"

definition relay_reflect_packet :: "bytes \<Rightarrow> nat \<Rightarrow> bytes \<Rightarrow> bytes option \<Rightarrow> bytes" where
  "relay_reflect_packet f payload_bytes magic gateway_address =
     (let a = udp_source f;
          f1 = store16 36 a (store16 34 (udp_dest f) f);
          b = ip_saddr f1;
          f2 = store32 30 b (store32 26 (ip_daddr f1) f1);
          f3 = write_lengths payload_bytes f2;
          c = eth_source f3;
          f4 = write_ethernet (eth_dest f3) c gateway_address f3
      in write_filter_bytes magic payload_bytes (write_checksum f4))"

record redirect_args =
  payload_bytes :: nat
  source_address :: u32
  dest_address :: u32
  source_port :: u16
  dest_port :: u16
  magic :: bytes
  gateway :: "bytes option"

definition relay_redirect_packet ::
  "(whitelist_key \<Rightarrow> whitelist_value option) \<Rightarrow> redirect_args \<Rightarrow> bytes \<Rightarrow> xdp_action \<times> bytes" where
  "relay_redirect_packet whitelist args f =
     (let f1 = store16 36 (dest_port args) (store16 34 (source_port args) f);
          f2 = store32 30 (dest_address args) (store32 26 (source_address args) f1);
          f3 = write_lengths (payload_bytes args) f2;
          key = \<lparr>wl_address = dest_address args, wl_port = ucast (dest_port args)\<rparr>
      in case whitelist key of
           None \<Rightarrow> (XDP_DROP, f3)
         | Some value \<Rightarrow>
             let f4 = write_ethernet (take 6 (wl_dest_address value)) (take 6 (wl_source_address value))
                        (gateway args) f3
             in (XDP_TX, write_filter_bytes (magic args) (payload_bytes args) (write_checksum f4)))"

section \<open>Token decryption\<close>

text \<open>Both decrypt in place: the 24 byte nonce is followed by the ciphertext, whose plaintext replaces it.\<close>

definition relay_decrypt_route_token :: "crypto \<Rightarrow> bytes \<Rightarrow> nat \<Rightarrow> bytes \<Rightarrow> bytes option" where
  "relay_decrypt_route_token cr secret_key off f =
     map_option (\<lambda>plain. overwrite (off + 24) plain f)
       (xchacha20poly1305_decrypt cr (window off 24 f) secret_key
          (window (off + 24) (RELAY_ENCRYPTED_ROUTE_TOKEN_BYTES - 24) f))"

definition relay_decrypt_continue_token :: "crypto \<Rightarrow> bytes \<Rightarrow> nat \<Rightarrow> bytes \<Rightarrow> bytes option" where
  "relay_decrypt_continue_token cr secret_key off f =
     map_option (\<lambda>plain. overwrite (off + 24) plain f)
       (xchacha20poly1305_decrypt cr (window off 24 f) secret_key
          (window (off + 24) (RELAY_ENCRYPTED_CONTINUE_TOKEN_BYTES - 24) f))"

section \<open>Whitelist\<close>

definition source_key :: "bytes \<Rightarrow> whitelist_key" where
  "source_key f = \<lparr>wl_address = ip_saddr f, wl_port = ucast (udp_source f)\<rparr>"

definition whitelist_insert :: "relay_state \<Rightarrow> bytes \<Rightarrow> relay_maps \<Rightarrow> relay_maps" where
  "whitelist_insert st f m =
     m\<lparr>whitelist_map := fst (map_update (whitelist_map m) (source_key f)
         \<lparr>wl_expire_timestamp = current_timestamp st + WHITELIST_TIMEOUT,
          wl_source_address = eth_source f, wl_dest_address = eth_dest f\<rparr> BPF_ANY)\<rparr>"

text \<open>The compare-and-swap on \<open>whitelist->expire_timestamp\<close> through the pointer looked up earlier.\<close>

definition whitelist_refresh :: "relay_state \<Rightarrow> whitelist_key \<Rightarrow> relay_maps \<Rightarrow> relay_maps" where
  "whitelist_refresh st key m =
     m\<lparr>whitelist_map := (whitelist_map m)(key := map_option
         (\<lambda>v. v\<lparr>wl_expire_timestamp := current_timestamp st + WHITELIST_TIMEOUT\<rparr>) (whitelist_map m key))\<rparr>"

definition gateway_of :: "relay_config \<Rightarrow> bytes option" where
  "gateway_of cfg =
     (if use_gateway_ethernet_address cfg \<noteq> 0 then Some (gateway_ethernet_address cfg) else None)"

definition relay_map_key :: "bytes \<Rightarrow> u64" where
  "relay_map_key f = push_bit 32 (ucast (ip_saddr f)) OR ucast (udp_source f)"

section \<open>Ping packets, processed before the whitelist check\<close>

definition ping_token_matches :: "crypto \<Rightarrow> ping_token_data \<Rightarrow> bytes \<Rightarrow> bool" where
  "ping_token_matches cr d token \<longleftrightarrow> take 32 (sha256 cr (ping_token_bytes d)) = token"

definition ping_data ::
  "relay_state \<Rightarrow> u64 \<Rightarrow> u32 \<Rightarrow> u16 \<Rightarrow> u32 \<Rightarrow> u16 \<Rightarrow> ping_token_data" where
  "ping_data st expire src src_port dst dst_port =
     \<lparr>pt_ping_key = take 32 (ping_key st), pt_expire_timestamp = expire, pt_source_address = src,
      pt_dest_address = dst, pt_source_port = src_port, pt_dest_port = dst_port\<rparr>"

text \<open>The common tail: whitelist the sender, turn the packet into the pong, reflect it, cut the tail.\<close>

definition reply_with_pong ::
  "relay_config \<Rightarrow> relay_state \<Rightarrow> u8 \<Rightarrow> nat \<Rightarrow> nat \<Rightarrow> nat \<Rightarrow> bytes \<Rightarrow> relay_maps \<Rightarrow> xdp_result" where
  "reply_with_pong cfg st pong_type pong_bytes trim counter f m =
     (let m1 = whitelist_insert st f m;
          f1 = store8 42 pong_type f;
          f2 = relay_reflect_packet f1 pong_bytes (current_magic st) (gateway_of cfg);
          f3 = take (length f2 - trim) f2;
          m2 = ADD_COUNTER RELAY_COUNTER_BYTES_SENT (of_nat (pong_bytes + 14 + 20 + 8))
                 (INCREMENT_COUNTER counter (INCREMENT_COUNTER RELAY_COUNTER_PACKETS_SENT m1))
      in (XDP_TX, f3, m2))"

definition relay_ping_packet ::
  "crypto \<Rightarrow> relay_config \<Rightarrow> relay_state \<Rightarrow> bytes \<Rightarrow> relay_maps \<Rightarrow> xdp_result" where
  "relay_ping_packet cr cfg st f m0 =
     (let m = INCREMENT_COUNTER RELAY_COUNTER_RELAY_PING_PACKET_RECEIVED m0 in
      if 42 + 18 + 8 + 8 + 1 + RELAY_PING_TOKEN_BYTES > length f then
        drop_packet RELAY_COUNTER_RELAY_PING_PACKET_WRONG_SIZE f (length f) m
      else if 42 + 18 + 8 + 8 + 1 + RELAY_PING_TOKEN_BYTES \<noteq> length f then
        drop_packet RELAY_COUNTER_RELAY_PING_PACKET_WRONG_SIZE f (length f) m
      else
        let expire = load64 (60 + 8) f in
        if expire < current_timestamp st then
          drop_packet RELAY_COUNTER_RELAY_PING_PACKET_EXPIRED f (length f) m
        else if relay_map m (relay_map_key f) = None then
          drop_packet RELAY_COUNTER_RELAY_PING_PACKET_UNKNOWN_RELAY f (length f) m
        else
          let token = window (60 + 8 + 8 + 1) 32 f;
              verify = (\<lambda>dst. ping_token_matches cr
                (ping_data st expire (ip_saddr f) (udp_source f) dst (udp_dest f)) token)
          in
          if \<not> verify (relay_public_address cfg) \<and> \<not> verify (relay_internal_address cfg) then
            drop_packet RELAY_COUNTER_RELAY_PING_PACKET_DID_NOT_VERIFY f (length f) m
          else
            reply_with_pong cfg st RELAY_PONG_PACKET (18 + 8) (8 + 1 + RELAY_PING_TOKEN_BYTES)
              RELAY_COUNTER_RELAY_PONG_PACKET_SENT f m)"

definition relay_client_ping_packet ::
  "crypto \<Rightarrow> relay_config \<Rightarrow> relay_state \<Rightarrow> bytes \<Rightarrow> relay_maps \<Rightarrow> xdp_result" where
  "relay_client_ping_packet cr cfg st f m0 =
     (let m = INCREMENT_COUNTER RELAY_COUNTER_CLIENT_PING_PACKET_RECEIVED m0 in
      if 42 + 18 + 8 + 8 + 8 + RELAY_PING_TOKEN_BYTES > length f then
        drop_packet RELAY_COUNTER_CLIENT_PING_PACKET_WRONG_SIZE f (length f) m
      else if 42 + 18 + 8 + 8 + 8 + RELAY_PING_TOKEN_BYTES \<noteq> length f then
        drop_packet RELAY_COUNTER_CLIENT_PING_PACKET_WRONG_SIZE f (length f) m
      else
        let expire = load64 (60 + 8 + 8) f in
        if expire < current_timestamp st then
          drop_packet RELAY_COUNTER_CLIENT_PING_PACKET_EXPIRED f (length f) m
        else if \<not> ping_token_matches cr
            (ping_data st expire (ip_saddr f) 0 (relay_public_address cfg) (udp_dest f))
            (window (60 + 8 + 8 + 8) 32 f) then
          drop_packet RELAY_COUNTER_CLIENT_PING_PACKET_DID_NOT_VERIFY f (length f) m
        else
          reply_with_pong cfg st RELAY_CLIENT_PONG_PACKET (18 + 8 + 8) (8 + RELAY_PING_TOKEN_BYTES)
            RELAY_COUNTER_CLIENT_PING_PACKET_RESPONDED_WITH_PONG f m)"

definition relay_server_ping_packet ::
  "crypto \<Rightarrow> relay_config \<Rightarrow> relay_state \<Rightarrow> bytes \<Rightarrow> relay_maps \<Rightarrow> xdp_result" where
  "relay_server_ping_packet cr cfg st f m0 =
     (let m = INCREMENT_COUNTER RELAY_COUNTER_SERVER_PING_PACKET_RECEIVED m0 in
      if 42 + 18 + 8 + 8 + RELAY_PING_TOKEN_BYTES > length f then
        drop_packet RELAY_COUNTER_SERVER_PING_PACKET_WRONG_SIZE f (length f) m
      else if 42 + 18 + 8 + 8 + RELAY_PING_TOKEN_BYTES \<noteq> length f then
        drop_packet RELAY_COUNTER_SERVER_PING_PACKET_WRONG_SIZE f (length f) m
      else
        let expire = load64 (60 + 8) f in
        if expire < current_timestamp st then
          drop_packet RELAY_COUNTER_SERVER_PING_PACKET_EXPIRED f (length f) m
        else if \<not> ping_token_matches cr
            (ping_data st expire (ip_saddr f) (udp_source f) (relay_public_address cfg) (udp_dest f))
            (window (60 + 8 + 8) 32 f) then
          drop_packet RELAY_COUNTER_SERVER_PING_PACKET_DID_NOT_VERIFY f (length f) m
        else
          reply_with_pong cfg st RELAY_SERVER_PONG_PACKET (18 + 8) (8 + RELAY_PING_TOKEN_BYTES)
            RELAY_COUNTER_SERVER_PING_PACKET_RESPONDED_WITH_PONG f m)"

section \<open>Packets that carry a session header\<close>

text \<open>
  Route response, continue response, client to server, server to client, session ping and session
  pong are processed alike after their size checks: find the session of the header, drop if it is
  missing or expired (deleting it), drop a sequence number that is not newer than the last, verify the header's
  hash, store the sequence number, and redirect to the next or the previous hop. What differs (the counters, which
  of the four sequence numbers, the direction) is a record.
\<close>

record session_handler =
  c_could_not_find_session :: nat
  c_session_expired :: nat
  c_already_received :: nat
  c_header_did_not_verify :: nat
  c_forward :: nat
  get_sequence :: "session_data \<Rightarrow> u64"
  set_sequence :: "u64 \<Rightarrow> session_data \<Rightarrow> session_data"
  to_next :: bool

definition header_session_key :: "bytes \<Rightarrow> session_key" where
  "header_session_key f = \<lparr>key_session_id = load64 (60 + 8) f, key_session_version = ucast (f ! (60 + 8 + 8))\<rparr>"

definition header_sequence :: "bytes \<Rightarrow> u64" where
  "header_sequence f = load64 60 f"

definition header_verifies :: "crypto \<Rightarrow> session_data \<Rightarrow> bytes \<Rightarrow> bool" where
  "header_verifies cr session f \<longleftrightarrow>
     take 8 (sha256 cr (header_data_bytes
       \<lparr>hd_session_private_key = take 32 (session_private_key session), hd_packet_type = f ! 42,
        hd_packet_sequence = header_sequence f, hd_session_id = load64 (60 + 8) f,
        hd_session_version = f ! (60 + 8 + 8)\<rparr>))
     = window (60 + 8 + 8 + 1) 8 f"

definition forward_args :: "relay_config \<Rightarrow> relay_state \<Rightarrow> nat \<Rightarrow> u32 \<Rightarrow> u16 \<Rightarrow> redirect_args" where
  "forward_args cfg st n addr prt =
     \<lparr>payload_bytes = n, source_address = relay_internal_address cfg, dest_address = addr,
      source_port = relay_port cfg, dest_port = prt, magic = current_magic st,
      gateway = gateway_of cfg\<rparr>"

definition hop_address :: "session_handler \<Rightarrow> session_data \<Rightarrow> u32" where
  "hop_address h s = (if to_next h then next_address s else prev_address s)"

definition hop_port :: "session_handler \<Rightarrow> session_data \<Rightarrow> u16" where
  "hop_port h s = (if to_next h then next_port s else prev_port s)"

definition relay_session_packet ::
  "crypto \<Rightarrow> relay_config \<Rightarrow> relay_state \<Rightarrow> session_handler \<Rightarrow> nat \<Rightarrow> bytes \<Rightarrow> relay_maps \<Rightarrow> xdp_result" where
  "relay_session_packet cr cfg st h n f m =
     (let key = header_session_key f in
      case session_map m key of
        None \<Rightarrow> drop_packet (c_could_not_find_session h) f (length f) m
      | Some session \<Rightarrow>
          if expire_timestamp session < current_timestamp st then
            (case drop_packet (c_session_expired h) f (length f) m of
               (v, f', m') \<Rightarrow> (v, f', m'\<lparr>session_map := fst (map_delete (session_map m') key)\<rparr>))
          else
            let packet_sequence = header_sequence f in
            if packet_sequence \<le> get_sequence h session then
              drop_packet (c_already_received h) f (length f) m
            else if \<not> header_verifies cr session f then
              drop_packet (c_header_did_not_verify h) f (length f) m
            else
              let m1 = m\<lparr>session_map := (session_map m)(key \<mapsto> set_sequence h packet_sequence session)\<rparr>;
                  args = forward_args cfg st n (hop_address h session) (hop_port h session);
                  (result, f') = relay_redirect_packet (whitelist_map m1) args f
              in
              if result = XDP_DROP then
                drop_packet RELAY_COUNTER_REDIRECT_NOT_IN_WHITELIST f' (length f') m1
              else
                (XDP_TX, f',
                 whitelist_refresh st (source_key f)
                   (ADD_COUNTER RELAY_COUNTER_BYTES_SENT (of_nat (length f'))
                     (INCREMENT_COUNTER RELAY_COUNTER_PACKETS_SENT
                       (INCREMENT_COUNTER (c_forward h) m1)))))"

definition route_response_handler :: session_handler where
  "route_response_handler =
     \<lparr>c_could_not_find_session = RELAY_COUNTER_ROUTE_RESPONSE_PACKET_COULD_NOT_FIND_SESSION,
      c_session_expired = RELAY_COUNTER_ROUTE_RESPONSE_PACKET_SESSION_EXPIRED,
      c_already_received = RELAY_COUNTER_ROUTE_RESPONSE_PACKET_ALREADY_RECEIVED,
      c_header_did_not_verify = RELAY_COUNTER_ROUTE_RESPONSE_PACKET_HEADER_DID_NOT_VERIFY,
      c_forward = RELAY_COUNTER_ROUTE_RESPONSE_PACKET_FORWARD_TO_PREVIOUS_HOP,
      get_sequence = special_server_to_client_sequence,
      set_sequence = (\<lambda>q s. s\<lparr>special_server_to_client_sequence := q\<rparr>),
      to_next = False\<rparr>"

definition relay_route_response_packet ::
  "crypto \<Rightarrow> relay_config \<Rightarrow> relay_state \<Rightarrow> bytes \<Rightarrow> relay_maps \<Rightarrow> xdp_result" where
  "relay_route_response_packet cr cfg st f m0 =
     (let m = INCREMENT_COUNTER RELAY_COUNTER_ROUTE_RESPONSE_PACKET_RECEIVED m0 in
      if 60 + RELAY_HEADER_BYTES > length f then
        drop_packet RELAY_COUNTER_ROUTE_RESPONSE_PACKET_WRONG_SIZE f (length f) m
      else if 60 + RELAY_HEADER_BYTES \<noteq> length f then
        drop_packet RELAY_COUNTER_ROUTE_RESPONSE_PACKET_WRONG_SIZE f (length f) m
      else relay_session_packet cr cfg st route_response_handler (18 + RELAY_HEADER_BYTES) f m)"

definition continue_response_handler :: session_handler where
  "continue_response_handler =
     \<lparr>c_could_not_find_session = RELAY_COUNTER_CONTINUE_RESPONSE_PACKET_COULD_NOT_FIND_SESSION,
      c_session_expired = RELAY_COUNTER_CONTINUE_RESPONSE_PACKET_SESSION_EXPIRED,
      c_already_received = RELAY_COUNTER_CONTINUE_RESPONSE_PACKET_ALREADY_RECEIVED,
      c_header_did_not_verify = RELAY_COUNTER_CONTINUE_RESPONSE_PACKET_HEADER_DID_NOT_VERIFY,
      c_forward = RELAY_COUNTER_CONTINUE_RESPONSE_PACKET_FORWARD_TO_PREVIOUS_HOP,
      get_sequence = special_server_to_client_sequence,
      set_sequence = (\<lambda>q s. s\<lparr>special_server_to_client_sequence := q\<rparr>),
      to_next = False\<rparr>"

definition relay_continue_response_packet ::
  "crypto \<Rightarrow> relay_config \<Rightarrow> relay_state \<Rightarrow> bytes \<Rightarrow> relay_maps \<Rightarrow> xdp_result" where
  "relay_continue_response_packet cr cfg st f m0 =
     (let m = INCREMENT_COUNTER RELAY_COUNTER_CONTINUE_RESPONSE_PACKET_RECEIVED m0 in
      if 60 + RELAY_HEADER_BYTES > length f then
        drop_packet RELAY_COUNTER_CONTINUE_RESPONSE_PACKET_WRONG_SIZE f (length f) m
      else if 60 + RELAY_HEADER_BYTES \<noteq> length f then
        drop_packet RELAY_COUNTER_CONTINUE_RESPONSE_PACKET_WRONG_SIZE f (length f) m
      else relay_session_packet cr cfg st continue_response_handler (18 + RELAY_HEADER_BYTES) f m)"

definition client_to_server_handler :: session_handler where
  "client_to_server_handler =
     \<lparr>c_could_not_find_session = RELAY_COUNTER_CLIENT_TO_SERVER_PACKET_COULD_NOT_FIND_SESSION,
      c_session_expired = RELAY_COUNTER_CLIENT_TO_SERVER_PACKET_SESSION_EXPIRED,
      c_already_received = RELAY_COUNTER_CLIENT_TO_SERVER_PACKET_ALREADY_RECEIVED,
      c_header_did_not_verify = RELAY_COUNTER_CLIENT_TO_SERVER_PACKET_HEADER_DID_NOT_VERIFY,
      c_forward = RELAY_COUNTER_CLIENT_TO_SERVER_PACKET_FORWARD_TO_NEXT_HOP,
      get_sequence = payload_client_to_server_sequence,
      set_sequence = (\<lambda>q s. s\<lparr>payload_client_to_server_sequence := q\<rparr>),
      to_next = True\<rparr>"

text \<open>The payload size check of the two payload packets: \<open>packet_bytes\<close> is the UDP payload, from
  which the code subtracts the UDP header once more.\<close>

definition payload_too_big :: "bytes \<Rightarrow> bool" where
  "payload_too_big f \<longleftrightarrow>
     (let packet_bytes = int (length f) - 34 - 8;
          payload_bytes = packet_bytes - (8 + 18 + int RELAY_HEADER_BYTES)
      in payload_bytes > RELAY_MTU)"

definition relay_client_to_server_packet ::
  "crypto \<Rightarrow> relay_config \<Rightarrow> relay_state \<Rightarrow> bytes \<Rightarrow> relay_maps \<Rightarrow> xdp_result" where
  "relay_client_to_server_packet cr cfg st f m0 =
     (let m = INCREMENT_COUNTER RELAY_COUNTER_CLIENT_TO_SERVER_PACKET_RECEIVED m0 in
      if 60 + RELAY_HEADER_BYTES > length f then
        drop_packet RELAY_COUNTER_CLIENT_TO_SERVER_PACKET_TOO_SMALL f (length f) m
      else if payload_too_big f then
        drop_packet RELAY_COUNTER_CLIENT_TO_SERVER_PACKET_TOO_BIG f (length f) m
      else relay_session_packet cr cfg st client_to_server_handler (length f - 42) f m)"

definition server_to_client_handler :: session_handler where
  "server_to_client_handler =
     \<lparr>c_could_not_find_session = RELAY_COUNTER_SERVER_TO_CLIENT_PACKET_COULD_NOT_FIND_SESSION,
      c_session_expired = RELAY_COUNTER_SERVER_TO_CLIENT_PACKET_SESSION_EXPIRED,
      c_already_received = RELAY_COUNTER_SERVER_TO_CLIENT_PACKET_ALREADY_RECEIVED,
      c_header_did_not_verify = RELAY_COUNTER_SERVER_TO_CLIENT_PACKET_HEADER_DID_NOT_VERIFY,
      c_forward = RELAY_COUNTER_SERVER_TO_CLIENT_PACKET_FORWARD_TO_PREVIOUS_HOP,
      get_sequence = payload_server_to_client_sequence,
      set_sequence = (\<lambda>q s. s\<lparr>payload_server_to_client_sequence := q\<rparr>),
      to_next = False\<rparr>"

definition relay_server_to_client_packet ::
  "crypto \<Rightarrow> relay_config \<Rightarrow> relay_state \<Rightarrow> bytes \<Rightarrow> relay_maps \<Rightarrow> xdp_result" where
  "relay_server_to_client_packet cr cfg st f m0 =
     (let m = INCREMENT_COUNTER RELAY_COUNTER_SERVER_TO_CLIENT_PACKET_RECEIVED m0 in
      if 60 + RELAY_HEADER_BYTES > length f then
        drop_packet RELAY_COUNTER_SERVER_TO_CLIENT_PACKET_TOO_SMALL f (length f) m
      else if payload_too_big f then
        drop_packet RELAY_COUNTER_SERVER_TO_CLIENT_PACKET_TOO_BIG f (length f) m
      else relay_session_packet cr cfg st server_to_client_handler (length f - 42) f m)"

definition session_ping_handler :: session_handler where
  "session_ping_handler =
     \<lparr>c_could_not_find_session = RELAY_COUNTER_SESSION_PING_PACKET_COULD_NOT_FIND_SESSION,
      c_session_expired = RELAY_COUNTER_SESSION_PING_PACKET_SESSION_EXPIRED,
      c_already_received = RELAY_COUNTER_SESSION_PING_PACKET_ALREADY_RECEIVED,
      c_header_did_not_verify = RELAY_COUNTER_SESSION_PING_PACKET_HEADER_DID_NOT_VERIFY,
      c_forward = RELAY_COUNTER_SESSION_PING_PACKET_FORWARD_TO_NEXT_HOP,
      get_sequence = special_client_to_server_sequence,
      set_sequence = (\<lambda>q s. s\<lparr>special_client_to_server_sequence := q\<rparr>),
      to_next = True\<rparr>"

definition relay_session_ping_packet ::
  "crypto \<Rightarrow> relay_config \<Rightarrow> relay_state \<Rightarrow> bytes \<Rightarrow> relay_maps \<Rightarrow> xdp_result" where
  "relay_session_ping_packet cr cfg st f m0 =
     (let m = INCREMENT_COUNTER RELAY_COUNTER_SESSION_PING_PACKET_RECEIVED m0 in
      if 60 + RELAY_HEADER_BYTES + 8 > length f then
        drop_packet RELAY_COUNTER_SESSION_PING_PACKET_WRONG_SIZE f (length f) m
      else if 60 + RELAY_HEADER_BYTES + 8 \<noteq> length f then
        drop_packet RELAY_COUNTER_SESSION_PING_PACKET_WRONG_SIZE f (length f) m
      else relay_session_packet cr cfg st session_ping_handler (18 + RELAY_HEADER_BYTES + 8) f m)"

definition session_pong_handler :: session_handler where
  "session_pong_handler =
     \<lparr>c_could_not_find_session = RELAY_COUNTER_SESSION_PONG_PACKET_COULD_NOT_FIND_SESSION,
      c_session_expired = RELAY_COUNTER_SESSION_PONG_PACKET_SESSION_EXPIRED,
      c_already_received = RELAY_COUNTER_SESSION_PONG_PACKET_ALREADY_RECEIVED,
      c_header_did_not_verify = RELAY_COUNTER_SESSION_PONG_PACKET_HEADER_DID_NOT_VERIFY,
      c_forward = RELAY_COUNTER_SESSION_PONG_PACKET_FORWARD_TO_PREVIOUS_HOP,
      get_sequence = special_server_to_client_sequence,
      set_sequence = (\<lambda>q s. s\<lparr>special_server_to_client_sequence := q\<rparr>),
      to_next = False\<rparr>"

definition relay_session_pong_packet ::
  "crypto \<Rightarrow> relay_config \<Rightarrow> relay_state \<Rightarrow> bytes \<Rightarrow> relay_maps \<Rightarrow> xdp_result" where
  "relay_session_pong_packet cr cfg st f m0 =
     (let m = INCREMENT_COUNTER RELAY_COUNTER_SESSION_PONG_PACKET_RECEIVED m0 in
      if 60 + RELAY_HEADER_BYTES + 8 > length f then
        drop_packet RELAY_COUNTER_SESSION_PONG_PACKET_WRONG_SIZE f (length f) m
      else if 60 + RELAY_HEADER_BYTES + 8 \<noteq> length f then
        drop_packet RELAY_COUNTER_SESSION_PONG_PACKET_WRONG_SIZE f (length f) m
      else relay_session_packet cr cfg st session_pong_handler (18 + RELAY_HEADER_BYTES + 8) f m)"

section \<open>Pongs, route requests and continue requests\<close>

definition relay_pong_packet ::
  "relay_state \<Rightarrow> bytes \<Rightarrow> relay_maps \<Rightarrow> xdp_result" where
  "relay_pong_packet st f m0 =
     (let m = INCREMENT_COUNTER RELAY_COUNTER_RELAY_PONG_PACKET_RECEIVED m0 in
      if 42 + 18 + 8 > length f then
        drop_packet RELAY_COUNTER_RELAY_PONG_PACKET_WRONG_SIZE f (length f) m
      else if 42 + 18 + 8 \<noteq> length f then
        drop_packet RELAY_COUNTER_RELAY_PONG_PACKET_WRONG_SIZE f (length f) m
      else if relay_map m (relay_map_key f) = None then
        drop_packet RELAY_COUNTER_RELAY_PONG_PACKET_UNKNOWN_RELAY f (length f) m
      else (XDP_PASS, f, whitelist_refresh st (source_key f) m))"

definition session_of_token :: "route_token \<Rightarrow> u16 \<Rightarrow> session_data" where
  "session_of_token token source =
     \<lparr>session_private_key = rt_session_private_key token,
      expire_timestamp = rt_expire_timestamp token,
      session_id = rt_session_id token,
      payload_client_to_server_sequence = 0,
      payload_server_to_client_sequence = 0,
      special_client_to_server_sequence = 0,
      special_server_to_client_sequence = 0,
      envelope_kbps_up = rt_envelope_kbps_up token,
      envelope_kbps_down = rt_envelope_kbps_down token,
      next_address = rt_next_address token,
      prev_address = rt_prev_address token,
      next_port = rt_next_port token,
      prev_port = (if rt_prev_port token = 0 then source else rt_prev_port token),
      session_version = rt_session_version token,
      next_internal = rt_next_internal token,
      prev_internal = rt_prev_internal token,
      first_hop = (if rt_prev_port token = 0 then 1 else 0)\<rparr>"

definition token_session_key :: "route_token \<Rightarrow> session_key" where
  "token_session_key token =
     \<lparr>key_session_id = rt_session_id token, key_session_version = ucast (rt_session_version token)\<rparr>"

text \<open>Removing a token: the 42 header bytes move forward over it, \<open>data\<close> advances, the type byte is rewritten.
  The result is the frame from the new \<open>data\<close>.\<close>

definition strip_token :: "nat \<Rightarrow> u8 \<Rightarrow> bytes \<Rightarrow> bytes" where
  "strip_token n packet_type f = store8 42 packet_type (drop n (overwrite n (take 42 f) f))"

definition relay_route_request_packet ::
  "crypto \<Rightarrow> relay_config \<Rightarrow> relay_state \<Rightarrow> bytes \<Rightarrow> relay_maps \<Rightarrow> xdp_result" where
  "relay_route_request_packet cr cfg st f m0 =
     (let m = INCREMENT_COUNTER RELAY_COUNTER_ROUTE_REQUEST_PACKET_RECEIVED m0 in
      if 42 + 18 + RELAY_ENCRYPTED_ROUTE_TOKEN_BYTES + RELAY_ENCRYPTED_ROUTE_TOKEN_BYTES > length f then
        drop_packet RELAY_COUNTER_ROUTE_REQUEST_PACKET_WRONG_SIZE f (length f) m
      else
        case relay_decrypt_route_token cr (take 32 (relay_secret_key cfg)) 60 f of
          None \<Rightarrow> drop_packet RELAY_COUNTER_ROUTE_REQUEST_PACKET_COULD_NOT_DECRYPT_ROUTE_TOKEN f (length f) m
        | Some f1 \<Rightarrow>
            let token = route_token_at (60 + 24) f1 in
            if rt_expire_timestamp token < current_timestamp st then
              drop_packet RELAY_COUNTER_ROUTE_REQUEST_PACKET_TOKEN_EXPIRED f1 (length f1) m
            else
              let session = session_of_token token (udp_source f1);
                  (sessions, r) = map_update (session_map m) (token_session_key token) session BPF_NOEXIST;
                  m1 = m\<lparr>session_map := sessions\<rparr>;
                  m2 = (if r = 0 then INCREMENT_COUNTER RELAY_COUNTER_SESSION_CREATED m1 else m1);
                  g = strip_token RELAY_ENCRYPTED_ROUTE_TOKEN_BYTES RELAY_ROUTE_REQUEST_PACKET f1;
                  args = forward_args cfg st (length g - 42) (next_address session) (next_port session);
                  (result, g') = relay_redirect_packet (whitelist_map m2) args g
              in
              if result = XDP_DROP then
                drop_packet RELAY_COUNTER_REDIRECT_NOT_IN_WHITELIST
                  (take RELAY_ENCRYPTED_ROUTE_TOKEN_BYTES f1 @ g') (length g') m2
              else
                (XDP_TX, g',
                 whitelist_refresh st (source_key f)
                   (ADD_COUNTER RELAY_COUNTER_BYTES_SENT (of_nat (length g'))
                     (INCREMENT_COUNTER RELAY_COUNTER_PACKETS_SENT
                       (INCREMENT_COUNTER RELAY_COUNTER_ROUTE_REQUEST_PACKET_FORWARD_TO_NEXT_HOP m2)))))"

definition relay_continue_request_packet ::
  "crypto \<Rightarrow> relay_config \<Rightarrow> relay_state \<Rightarrow> bytes \<Rightarrow> relay_maps \<Rightarrow> xdp_result" where
  "relay_continue_request_packet cr cfg st f m0 =
     (let m = INCREMENT_COUNTER RELAY_COUNTER_CONTINUE_REQUEST_PACKET_RECEIVED m0 in
      if 42 + 18 + RELAY_ENCRYPTED_CONTINUE_TOKEN_BYTES + RELAY_ENCRYPTED_CONTINUE_TOKEN_BYTES > length f then
        drop_packet RELAY_COUNTER_CONTINUE_REQUEST_PACKET_WRONG_SIZE f (length f) m
      else
        case relay_decrypt_continue_token cr (take 32 (relay_secret_key cfg)) 60 f of
          None \<Rightarrow> drop_packet RELAY_COUNTER_CONTINUE_REQUEST_PACKET_COULD_NOT_DECRYPT_CONTINUE_TOKEN f (length f) m
        | Some f1 \<Rightarrow>
            let token = continue_token_at (60 + 24) f1 in
            if ct_expire_timestamp token < current_timestamp st then
              drop_packet RELAY_COUNTER_CONTINUE_REQUEST_PACKET_TOKEN_EXPIRED f1 (length f1) m
            else
              let key = \<lparr>key_session_id = ct_session_id token, key_session_version = ucast (ct_session_version token)\<rparr> in
              case session_map m key of
                None \<Rightarrow> drop_packet RELAY_COUNTER_CONTINUE_REQUEST_PACKET_COULD_NOT_FIND_SESSION f1 (length f1) m
              | Some session \<Rightarrow>
                  if expire_timestamp session < current_timestamp st then
                    (case drop_packet RELAY_COUNTER_CONTINUE_REQUEST_PACKET_SESSION_EXPIRED f1 (length f1) m of
                       (v, f', m') \<Rightarrow> (v, f', m'\<lparr>session_map := fst (map_delete (session_map m') key)\<rparr>))
                  else
                    let m1 = (if expire_timestamp session \<noteq> ct_expire_timestamp token
                              then INCREMENT_COUNTER RELAY_COUNTER_SESSION_CONTINUED m else m);
                        m2 = m1\<lparr>session_map := (session_map m1)
                               (key \<mapsto> session\<lparr>expire_timestamp := ct_expire_timestamp token\<rparr>)\<rparr>;
                        g = strip_token RELAY_ENCRYPTED_CONTINUE_TOKEN_BYTES RELAY_CONTINUE_REQUEST_PACKET f1;
                        args = forward_args cfg st (length g - 42) (next_address session) (next_port session);
                        (result, g') = relay_redirect_packet (whitelist_map m2) args g
                    in
                    if result = XDP_DROP then
                      drop_packet RELAY_COUNTER_REDIRECT_NOT_IN_WHITELIST
                        (take RELAY_ENCRYPTED_CONTINUE_TOKEN_BYTES f1 @ g') (length g') m2
                    else
                      (XDP_TX, g',
                       whitelist_refresh st (source_key f)
                         (ADD_COUNTER RELAY_COUNTER_BYTES_SENT (of_nat (length g'))
                           (INCREMENT_COUNTER RELAY_COUNTER_PACKETS_SENT
                             (INCREMENT_COUNTER RELAY_COUNTER_CONTINUE_REQUEST_PACKET_FORWARD_TO_NEXT_HOP m2)))))"

section \<open>The filter\<close>

definition advanced_filter_any :: "relay_config \<Rightarrow> relay_state \<Rightarrow> bytes \<Rightarrow> bool" where
  "advanced_filter_any cfg st f \<longleftrightarrow>
     (let pd = packet_data f; from = ip_saddr f; n = length f - 42;
          pub = relay_public_address cfg; int' = relay_internal_address cfg in
      \<not> (\<not> relay_advanced_packet_filter pd (current_magic st) from pub n \<and>
         \<not> relay_advanced_packet_filter pd (previous_magic st) from pub n \<and>
         \<not> relay_advanced_packet_filter pd (next_magic st) from pub n \<and>
         \<not> relay_advanced_packet_filter pd (current_magic st) from int' n \<and>
         \<not> relay_advanced_packet_filter pd (previous_magic st) from int' n \<and>
         \<not> relay_advanced_packet_filter pd (next_magic st) from int' n))"

text \<open>The two \<open>switch\<close> statements over the packet type, with the whitelist check between them.\<close>

definition relay_process_packet ::
  "crypto \<Rightarrow> relay_config \<Rightarrow> relay_state \<Rightarrow> bytes \<Rightarrow> relay_maps \<Rightarrow> xdp_result" where
  "relay_process_packet cr cfg st f m =
     (let packet_type = f ! 42 in
      if packet_type = RELAY_PING_PACKET then relay_ping_packet cr cfg st f m
      else if packet_type = RELAY_CLIENT_PING_PACKET then relay_client_ping_packet cr cfg st f m
      else if packet_type = RELAY_SERVER_PING_PACKET then relay_server_ping_packet cr cfg st f m
      else if whitelist_map m (source_key f) = None then
        drop_packet RELAY_COUNTER_NOT_IN_WHITELIST f (length f) m
      else if packet_type = RELAY_PONG_PACKET then relay_pong_packet st f m
      else if packet_type = RELAY_ROUTE_REQUEST_PACKET then relay_route_request_packet cr cfg st f m
      else if packet_type = RELAY_ROUTE_RESPONSE_PACKET then relay_route_response_packet cr cfg st f m
      else if packet_type = RELAY_CONTINUE_REQUEST_PACKET then relay_continue_request_packet cr cfg st f m
      else if packet_type = RELAY_CONTINUE_RESPONSE_PACKET then relay_continue_response_packet cr cfg st f m
      else if packet_type = RELAY_CLIENT_TO_SERVER_PACKET then relay_client_to_server_packet cr cfg st f m
      else if packet_type = RELAY_SERVER_TO_CLIENT_PACKET then relay_server_to_client_packet cr cfg st f m
      else if packet_type = RELAY_SESSION_PING_PACKET then relay_session_ping_packet cr cfg st f m
      else if packet_type = RELAY_SESSION_PONG_PACKET then relay_session_pong_packet cr cfg st f m
      else drop_silently f m)"

text \<open>A UDP packet for the relay's address and port: the size checks, the filters, then the packet.\<close>

definition relay_filter_packet :: "crypto \<Rightarrow> relay_config \<Rightarrow> bytes \<Rightarrow> relay_maps \<Rightarrow> xdp_result" where
  "relay_filter_packet cr cfg f m =
     (if 42 + 18 > length f then
        drop_packet RELAY_COUNTER_PACKET_TOO_SMALL f (length f) m
      else if length f - 34 - 8 > 1400 then
        drop_packet RELAY_COUNTER_PACKET_TOO_LARGE f (length f) m
      else if \<not> xdp_basic_packet_filter (packet_data f) then
        drop_packet RELAY_COUNTER_BASIC_PACKET_FILTER_DROPPED_PACKET f (length f) m
      else
        case state_map m of
          None \<Rightarrow> drop_silently f m
        | Some st \<Rightarrow>
            if \<not> advanced_filter_any cfg st f then
              drop_packet RELAY_COUNTER_ADVANCED_PACKET_FILTER_DROPPED_PACKET f (length f) m
            else relay_process_packet cr cfg st f m)"

definition to_relay :: "relay_config \<Rightarrow> bytes \<Rightarrow> bool" where
  "to_relay cfg f \<longleftrightarrow>
     udp_dest f = relay_port cfg \<and>
     (ip_daddr f = relay_public_address cfg \<or> ip_daddr f = relay_internal_address cfg)"

definition relay_xdp_filter :: "crypto \<Rightarrow> bytes \<Rightarrow> relay_maps \<Rightarrow> xdp_result" where
  "relay_xdp_filter cr f m0 =
     (case stats_map m0 of
        None \<Rightarrow> (XDP_PASS, f, m0)
      | Some _ \<Rightarrow>
        (case config_map m0 of
           None \<Rightarrow> (XDP_PASS, f, m0)
         | Some cfg \<Rightarrow>
             if 14 \<le> length f then
               if eth_proto f = ETH_P_IP then
                 if 14 + 20 > length f then drop_silently f m0
                 else if ip_protocol f = 17 then
                   let m = ADD_COUNTER RELAY_COUNTER_BYTES_RECEIVED (of_nat (length f))
                             (INCREMENT_COUNTER RELAY_COUNTER_PACKETS_RECEIVED m0) in
                   if ip_ihl f \<noteq> 5 then
                     (case drop_packet RELAY_COUNTER_DROP_LARGE_IP_HEADER f (length f) m of
                        (_, f', m') \<Rightarrow> (if dedicated cfg \<noteq> 0 then XDP_DROP else XDP_PASS, f', m'))
                   else if 34 + 8 \<le> length f then
                     if to_relay cfg f then relay_filter_packet cr cfg f m
                     else if dedicated cfg \<noteq> 0 then drop_silently f m
                     else (XDP_PASS, f, m)
                   else if dedicated cfg \<noteq> 0 then drop_silently f m
                   else (XDP_PASS, f, m)
                 else (XDP_PASS, f, m0)
               else if eth_proto f = ETH_P_IPV6 then
                 if dedicated cfg \<noteq> 0 then drop_silently f m0 else (XDP_PASS, f, m0)
               else (XDP_PASS, f, m0)
             else (XDP_PASS, f, m0)))"

end
