(* ===== verification/Relay_Frames.thy ===== *)
theory Relay_Frames
  imports Relay_Xdp
begin

text \<open>
  What rewriting a frame does: every stage of \<open>relay_reflect_packet\<close> and \<open>relay_redirect_packet\<close>
  writes the fields it names and leaves the others, so that the frame that leaves is \<open>sealed\<close>: its length
  fields, its IP checksum and its filter bytes agree with its contents, and the next hop's filters accept it.
\<close>

section \<open>Definitions\<close>

definition wf_gateway :: "bytes option \<Rightarrow> bool" where
  "wf_gateway gw \<longleftrightarrow> (case gw of Some g \<Rightarrow> 6 \<le> length g | None \<Rightarrow> True)"

text \<open>A frame that is ready to leave: lengths, checksum and filter bytes agree with its contents.\<close>

definition sealed :: "bytes \<Rightarrow> bytes \<Rightarrow> bool" where
  "sealed mg g \<longleftrightarrow>
     60 \<le> length g \<and>
     load16 16 g = bswap16 (of_nat (length g - 14)) \<and>
     load16 38 g = bswap16 (of_nat (length g - 34)) \<and>
     load16 40 g = 0 \<and>
     load16 24 g = ip_checksum (store16 24 0 g) \<and>
     window 43 2 g = xdp_pittle (ip_saddr g) (ip_daddr g) (length g - 42) \<and>
     window 45 15 g = xdp_chonkle mg (ip_saddr g) (ip_daddr g) (length g - 42)"

definition wf_whitelist :: "(whitelist_key \<Rightarrow> whitelist_value option) \<Rightarrow> bool" where
  "wf_whitelist wl \<longleftrightarrow> (\<forall>k v. wl k = Some v \<longrightarrow> length (wl_source_address v) = 6 \<and> length (wl_dest_address v) = 6)"

abbreviation dest_key :: "redirect_args \<Rightarrow> whitelist_key" where
  "dest_key args \<equiv> \<lparr>wl_address = dest_address args, wl_port = ucast (dest_port args)\<rparr>"

definition address_frame :: "redirect_args \<Rightarrow> bytes \<Rightarrow> bytes" where
  "address_frame args f =
     store32 30 (dest_address args) (store32 26 (source_address args)
       (store16 36 (dest_port args) (store16 34 (source_port args) f)))"

definition swap_frame :: "bytes \<Rightarrow> bytes" where
  "swap_frame f = store32 30 (ip_saddr f) (store32 26 (ip_daddr f)
     (store16 36 (udp_source f) (store16 34 (udp_dest f) f)))"

section \<open>Lemmas\<close>

lemmas frame_rw = store_defs load_defs buffer_simps codec_simps

lemma length_write_lengths [simp]: "42 \<le> length f \<Longrightarrow> length (write_lengths n f) = length f"
  by (simp add: write_lengths_def frame_rw)

lemma length_write_ethernet [simp]:
  "14 \<le> length f \<Longrightarrow> length s = 6 \<Longrightarrow> length d = 6 \<Longrightarrow> wf_gateway gw \<Longrightarrow>
   length (write_ethernet s d gw f) = length f"
  by (auto simp: write_ethernet_def wf_gateway_def frame_rw Let_def min_def split: option.splits)

lemma window_write_ethernet:
  "14 \<le> length f \<Longrightarrow> length s = 6 \<Longrightarrow> length d = 6 \<Longrightarrow> wf_gateway gw \<Longrightarrow> 12 \<le> o' \<Longrightarrow>
   window o' n (write_ethernet s d gw f) = window o' n f"
  by (auto simp: write_ethernet_def wf_gateway_def frame_rw Let_def min_def split: option.splits)

lemma length_write_checksum [simp]: "34 \<le> length f \<Longrightarrow> length (write_checksum f) = length f"
  by (simp add: write_checksum_def frame_rw)

lemma window_write_checksum:
  assumes "34 \<le> length f"
  shows "o' + n \<le> 24 \<Longrightarrow> window o' n (write_checksum f) = window o' n f"
    and "26 \<le> o' \<Longrightarrow> window o' n (write_checksum f) = window o' n f"
    and "window 24 2 (write_checksum f) = le_bytes 2 (ip_checksum f)"
  using assms by (simp_all add: write_checksum_def frame_rw)

lemma length_write_filter_bytes [simp]: "60 \<le> length f \<Longrightarrow> length (write_filter_bytes m n f) = length f"
  by (simp add: write_filter_bytes_def Let_def frame_rw)

lemma window_write_filter_bytes:
  assumes "60 \<le> length f"
  shows "o' + n \<le> 43 \<Longrightarrow> window o' n (write_filter_bytes mg k f) = window o' n f"
    and "window 43 2 (write_filter_bytes mg k f) = xdp_pittle (ip_saddr f) (ip_daddr f) k"
    and "window 45 15 (write_filter_bytes mg k f) = xdp_chonkle mg (ip_saddr f) (ip_daddr f) k"
    and "60 \<le> o' \<Longrightarrow> window o' n (write_filter_bytes mg k f) = window o' n f"
  using assms by (simp_all add: write_filter_bytes_def Let_def frame_rw)

lemma window_write_lengths:
  assumes "42 \<le> length f"
  shows "o' + n \<le> 16 \<Longrightarrow> window o' n (write_lengths k f) = window o' n f"
    and "18 \<le> o' \<Longrightarrow> o' + n \<le> 24 \<Longrightarrow> window o' n (write_lengths k f) = window o' n f"
    and "26 \<le> o' \<Longrightarrow> o' + n \<le> 38 \<Longrightarrow> window o' n (write_lengths k f) = window o' n f"
    and "42 \<le> o' \<Longrightarrow> window o' n (write_lengths k f) = window o' n f"
    and "window 16 2 (write_lengths k f) = le_bytes 2 (bswap16 (of_nat (28 + k)))"
    and "window 38 2 (write_lengths k f) = le_bytes 2 (bswap16 (of_nat (8 + k)))"
    and "window 40 2 (write_lengths k f) = le_bytes 2 (0 :: u16)"
    and "window 24 2 (write_lengths k f) = le_bytes 2 (0 :: u16)"
  using assms by (simp_all add: write_lengths_def frame_rw)

lemmas frame_stages = window_write_ethernet window_write_checksum window_write_filter_bytes window_write_lengths

lemma nth_hd_window: "i < length f \<Longrightarrow> f ! i = hd (window i 1 f)"
  by (simp add: window_def hd_drop_conv_nth take_Suc hd_take)

lemma drop_window: "drop i f = window i (length f - i) f"
  by (simp add: window_def)

lemma ip_checksum_cong:
  assumes "window 14 20 f = window 14 20 g" "34 \<le> length f" "34 \<le> length g"
  shows "ip_checksum f = ip_checksum g"
proof -
  have "load16 (14 + 2 * i) f = load16 (14 + 2 * i) g" if "i < 10" for i
  proof -
    have "window (14 + 2 * i) 2 f = window (2 * i) 2 (window 14 20 f)"
      using that by (simp add: window_window)
    also have "\<dots> = window (14 + 2 * i) 2 g"
      using that by (simp add: assms(1) window_window)
    finally show ?thesis by (simp add: load_defs)
  qed
  then have "ip_header_sum f = ip_header_sum g"
    unfolding ip_header_sum_def by (intro foldl_cong) auto
  then show ?thesis by (simp add: ip_checksum_def)
qed

lemma window_header:
  "window 14 20 h = window 14 10 h @ window 24 2 h @ window 26 8 h"
  using take_add [of 10 10 "drop 14 h"] take_add [of 2 8 "drop 24 h"] by (simp add: window_def)

lemma sealed_rewrite_take:
  assumes "60 \<le> length f" "length s = 6" "length d = 6" "wf_gateway gw" "18 \<le> k" "42 + k \<le> length f"
  shows "sealed mg (take (42 + k) (write_filter_bytes mg k (write_checksum (write_ethernet s d gw (write_lengths k f)))))"
proof -
  let ?e = "write_ethernet s d gw (write_lengths k f)"
  let ?g = "write_filter_bytes mg k (write_checksum ?e)"
  have len: "length ?e = length f" "length ?g = length f" using assms by simp_all
  have tl: "length (take (42 + k) ?g) = 42 + k" using assms len by simp
  have "ip_checksum ?e = ip_checksum (store16 24 0 (take (42 + k) ?g))"
  proof (rule ip_checksum_cong)
    show "window 14 20 ?e = window 14 20 (store16 24 0 (take (42 + k) ?g))"
      using assms len by (simp add: window_header frame_rw frame_stages)
  qed (use assms len in \<open>simp_all add: frame_rw\<close>)
  then show ?thesis
    using assms len unfolding sealed_def tl
    by (simp add: frame_stages load_defs codec_simps window_take)
qed

lemma sealed_rewrite:
  assumes "60 \<le> length f" "length s = 6" "length d = 6" "wf_gateway gw" "k = length f - 42"
  shows "sealed mg (write_filter_bytes mg k (write_checksum (write_ethernet s d gw (write_lengths k f))))"
  using sealed_rewrite_take [OF assms(1-4), of k mg] assms by simp

lemma length_address_frame [simp]: "42 \<le> length f \<Longrightarrow> length (address_frame args f) = length f"
  by (simp add: address_frame_def frame_rw)

lemma window_address_frame:
  assumes "42 \<le> length f"
  shows "o' + n \<le> 26 \<Longrightarrow> window o' n (address_frame args f) = window o' n f"
    and "38 \<le> o' \<Longrightarrow> window o' n (address_frame args f) = window o' n f"
    and "window 26 4 (address_frame args f) = le_bytes 4 (source_address args)"
    and "window 30 4 (address_frame args f) = le_bytes 4 (dest_address args)"
    and "window 34 2 (address_frame args f) = le_bytes 2 (source_port args)"
    and "window 36 2 (address_frame args f) = le_bytes 2 (dest_port args)"
  using assms by (simp_all add: address_frame_def frame_rw)

lemma redirect_eq:
  "relay_redirect_packet wl args f =
     (case wl (dest_key args) of
        None \<Rightarrow> (XDP_DROP, write_lengths (payload_bytes args) (address_frame args f))
      | Some v \<Rightarrow> (XDP_TX, write_filter_bytes (magic args) (payload_bytes args)
          (write_checksum (write_ethernet (take 6 (wl_dest_address v)) (take 6 (wl_source_address v)) (gateway args)
             (write_lengths (payload_bytes args) (address_frame args f))))))"
  by (simp add: relay_redirect_packet_def address_frame_def Let_def split: option.split)

lemma length_redirect:
  assumes "relay_redirect_packet wl args f = (v, g)" "60 \<le> length f" "wf_whitelist wl" "wf_gateway (gateway args)"
  shows "length g = length f"
  using assms by (auto simp: redirect_eq wf_whitelist_def split: option.splits)

lemma redirect_drop_iff:
  "fst (relay_redirect_packet wl args f) = XDP_DROP \<longleftrightarrow> wl (dest_key args) = None"
  "fst (relay_redirect_packet wl args f) = XDP_TX \<longleftrightarrow> wl (dest_key args) \<noteq> None"
  by (auto simp: redirect_eq split: option.splits)

lemma redirect_frame:
  assumes "relay_redirect_packet wl args f = (XDP_TX, g)" "60 \<le> length f" "wf_whitelist wl"
    and "wf_gateway (gateway args)" "payload_bytes args = length f - 42"
  shows "sealed (magic args) g" "length g = length f"
    and "ip_saddr g = source_address args" "ip_daddr g = dest_address args"
    and "udp_source g = source_port args" "udp_dest g = dest_port args"
    and "g ! 42 = f ! 42" "drop 60 g = drop 60 f" "window 12 4 g = window 12 4 f" "g ! 23 = f ! 23"
proof -
  obtain v where v: "wl (dest_key args) = Some v"
    and g: "g = write_filter_bytes (magic args) (payload_bytes args)
          (write_checksum (write_ethernet (take 6 (wl_dest_address v)) (take 6 (wl_source_address v)) (gateway args)
             (write_lengths (payload_bytes args) (address_frame args f))))"
    using assms(1) by (auto simp: redirect_eq split: option.splits)
  have l: "length (take 6 (wl_dest_address v)) = 6" "length (take 6 (wl_source_address v)) = 6"
    using assms(3) v by (auto simp: wf_whitelist_def)
  show "sealed (magic args) g" unfolding g
    by (rule sealed_rewrite) (use assms l in simp_all)
  show len: "length g = length f" using assms l by (simp add: g)
  note st = frame_stages window_address_frame
  show "ip_saddr g = source_address args" "ip_daddr g = dest_address args"
    "udp_source g = source_port args" "udp_dest g = dest_port args"
    "window 12 4 g = window 12 4 f"
    using assms(2-4) l by (simp_all add: g st load_defs codec_simps)
  have "42 < length f" "42 < length g" "23 < length f" "23 < length g" using assms(2) len by auto
  then show "g ! 42 = f ! 42" "g ! 23 = f ! 23"
    using assms(2-4) l by (simp_all add: nth_hd_window) (simp_all add: g st)
  show "drop 60 g = drop 60 f"
    using assms(2-4) l unfolding drop_window len by (simp add: g st)
qed

lemma length_swap_frame [simp]: "42 \<le> length f \<Longrightarrow> length (swap_frame f) = length f"
  by (simp add: swap_frame_def frame_rw)

lemma window_swap_frame:
  assumes "42 \<le> length f"
  shows "o' + n \<le> 26 \<Longrightarrow> window o' n (swap_frame f) = window o' n f"
    and "38 \<le> o' \<Longrightarrow> window o' n (swap_frame f) = window o' n f"
    and "window 26 4 (swap_frame f) = window 30 4 f"
    and "window 30 4 (swap_frame f) = window 26 4 f"
    and "window 34 2 (swap_frame f) = window 36 2 f"
    and "window 36 2 (swap_frame f) = window 34 2 f"
  using assms by (simp_all add: swap_frame_def frame_rw)

lemma reflect_eq:
  "42 \<le> length f \<Longrightarrow> relay_reflect_packet f k mg gw =
     write_filter_bytes mg k (write_checksum (write_ethernet (eth_dest f) (eth_source f) gw
       (write_lengths k (swap_frame f))))"
proof -
  assume f: "42 \<le> length f"
  let ?f1 = "store16 36 (udp_source f) (store16 34 (udp_dest f) f)"
  have a: "ip_saddr ?f1 = ip_saddr f" "ip_daddr ?f1 = ip_daddr f" using f by (simp_all add: frame_rw)
  have e: "eth_source (write_lengths k (swap_frame f)) = eth_source f"
    "eth_dest (write_lengths k (swap_frame f)) = eth_dest f"
    using f by (simp_all add: window_write_lengths window_swap_frame)
  show ?thesis
    unfolding relay_reflect_packet_def Let_def a using e by (simp add: swap_frame_def)
qed

lemma reflect_frame:
  fixes mg :: bytes
  assumes "60 \<le> length f" "wf_gateway gw" "18 \<le> k" "42 + k \<le> length f"
  defines "g \<equiv> take (42 + k) (relay_reflect_packet f k mg gw)"
  shows "sealed mg g" "length g = 42 + k"
    and "ip_saddr g = ip_daddr f" "ip_daddr g = ip_saddr f"
    and "udp_source g = udp_dest f" "udp_dest g = udp_source f"
    and "g ! 42 = f ! 42" "window 60 (k - 18) g = window 60 (k - 18) f"
    and "window 12 4 g = window 12 4 f" "g ! 23 = f ! 23"
proof -
  have l: "length (eth_dest f) = 6" "length (eth_source f) = 6" using assms(1) by (simp_all add: buffer_simps)
  have r: "length (relay_reflect_packet f k mg gw) = length f" using assms l by (simp add: reflect_eq)
  show "sealed mg g" unfolding g_def using assms l
    by (simp add: reflect_eq) (rule sealed_rewrite_take, simp_all)
  show len: "length g = 42 + k" using assms r by simp
  note st = reflect_eq frame_stages window_swap_frame
  show "ip_saddr g = ip_daddr f" "ip_daddr g = ip_saddr f" "udp_source g = udp_dest f" "udp_dest g = udp_source f"
    "window 12 4 g = window 12 4 f" "window 60 (k - 18) g = window 60 (k - 18) f"
    using assms l by (simp_all add: st load_defs window_take)
  have "42 < length f" "42 < length g" "23 < length f" "23 < length g" using assms(1,3) len by auto
  then show "g ! 42 = f ! 42" "g ! 23 = f ! 23"
    using assms l by (simp_all add: nth_hd_window window_take) (simp_all add: st)
qed

lemma sealed_passes_filters:
  assumes "sealed mg g" "g ! 42 \<noteq> 0" "g ! 42 \<le> 0x0E"
  shows "xdp_basic_packet_filter (packet_data g)"
    and "relay_advanced_packet_filter (packet_data g) mg (ip_saddr g) (ip_daddr g) (length g - 42)"
proof -
  have l: "18 \<le> length (packet_data g)" using assms(1) by (auto simp: sealed_def)
  let ?p = "xdp_pittle (ip_saddr g) (ip_daddr g) (length g - 42)"
  let ?c = "xdp_chonkle mg (ip_saddr g) (ip_daddr g) (length g - 42)"
  have w: "window 1 2 (packet_data g) = ?p" "window 3 15 (packet_data g) = ?c"
    using assms(1) by (simp_all add: sealed_def window_drop)
  show "relay_advanced_packet_filter (packet_data g) mg (ip_saddr g) (ip_daddr g) (length g - 42)"
    using l w by (simp only: relay_advanced_iff)
  have "stamp ?p ?c (packet_data g) = packet_data g"
    using l by (simp add: stamp_def w [symmetric] overwrite_window)
  moreover have "xdp_basic_packet_filter (stamp ?p ?c (packet_data g))"
    by (rule xdp_basic_stamp) (use l assms(2,3) pittle_of_generators(2) chonkle_ok_generators in \<open>simp_all add: sealed_def\<close>)
  ultimately show "xdp_basic_packet_filter (packet_data g)" by simp
qed

end
