(* ===== verification/Relay_Sessions.thy ===== *)
theory Relay_Sessions
  imports Relay_Frames
begin

text \<open>
  What one call of the filter does to the sessions, and what follows over many calls. Every handler
  is classified once (\<open>session_packet_cases\<close>, \<open>route_request_cases\<close>,
  \<open>continue_request_cases\<close>, \<open>xdp_filter_cases\<close>) and the properties go by these cases: sequence
  numbers never decrease, a session's route never changes, and a session packet is forwarded at most
  once while its session lives.
\<close>

named_theorems relay_simps \<open>what the datapath's building blocks do to the maps\<close>

section \<open>Definitions\<close>

abbreviation verdict :: "xdp_result \<Rightarrow> xdp_action" where "verdict r \<equiv> fst r"

abbreviation out_frame :: "xdp_result \<Rightarrow> bytes" where "out_frame r \<equiv> fst (snd r)"

abbreviation out_maps :: "xdp_result \<Rightarrow> relay_maps" where "out_maps r \<equiv> snd (snd r)"

definition can_forward :: "crypto \<Rightarrow> relay_state \<Rightarrow> session_handler \<Rightarrow> bytes \<Rightarrow> relay_maps \<Rightarrow> session_data \<Rightarrow> bool" where
  "can_forward cr st h f m s \<longleftrightarrow>
     session_map m (header_session_key f) = Some s \<and>
     current_timestamp st \<le> expire_timestamp s \<and>
     get_sequence h s < header_sequence f \<and>
     header_verifies cr s f"

definition hop_key :: "session_handler \<Rightarrow> session_data \<Rightarrow> whitelist_key" where
  "hop_key h s = \<lparr>wl_address = hop_address h s, wl_port = ucast (hop_port h s)\<rparr>"

definition handler_of :: "u8 \<Rightarrow> session_handler option" where
  "handler_of t =
     (if t = RELAY_ROUTE_RESPONSE_PACKET then Some route_response_handler
      else if t = RELAY_CONTINUE_RESPONSE_PACKET then Some continue_response_handler
      else if t = RELAY_CLIENT_TO_SERVER_PACKET then Some client_to_server_handler
      else if t = RELAY_SERVER_TO_CLIENT_PACKET then Some server_to_client_handler
      else if t = RELAY_SESSION_PING_PACKET then Some session_ping_handler
      else if t = RELAY_SESSION_PONG_PACKET then Some session_pong_handler
      else None)"

definition same_maps :: "relay_maps \<Rightarrow> relay_maps \<Rightarrow> bool" where
  "same_maps m m' \<longleftrightarrow>
     session_map m' = session_map m \<and> whitelist_map m' = whitelist_map m \<and> relay_map m' = relay_map m \<and>
     config_map m' = config_map m \<and> state_map m' = state_map m"

definition untouched :: "bytes \<Rightarrow> relay_maps \<Rightarrow> xdp_result \<Rightarrow> bool" where
  "untouched f m r \<longleftrightarrow> verdict r \<noteq> XDP_TX \<and> out_frame r = f \<and> same_maps m (out_maps r)"

datatype seq_kind = Payload_Client_To_Server | Payload_Server_To_Client | Special_Client_To_Server | Special_Server_To_Client

fun seq_of :: "seq_kind \<Rightarrow> session_data \<Rightarrow> u64" where
  "seq_of Payload_Client_To_Server s = payload_client_to_server_sequence s"
| "seq_of Payload_Server_To_Client s = payload_server_to_client_sequence s"
| "seq_of Special_Client_To_Server s = special_client_to_server_sequence s"
| "seq_of Special_Server_To_Client s = special_server_to_client_sequence s"

definition kind_of :: "u8 \<Rightarrow> seq_kind option" where
  "kind_of t =
     (if t = RELAY_CLIENT_TO_SERVER_PACKET then Some Payload_Client_To_Server
      else if t = RELAY_SERVER_TO_CLIENT_PACKET then Some Payload_Server_To_Client
      else if t = RELAY_SESSION_PING_PACKET then Some Special_Client_To_Server
      else if t = RELAY_ROUTE_RESPONSE_PACKET \<or> t = RELAY_CONTINUE_RESPONSE_PACKET \<or> t = RELAY_SESSION_PONG_PACKET
      then Some Special_Server_To_Client
      else None)"

definition same_route :: "session_data \<Rightarrow> session_data \<Rightarrow> bool" where
  "same_route s s' \<longleftrightarrow>
     session_private_key s' = session_private_key s \<and> session_id s' = session_id s \<and>
     session_version s' = session_version s \<and>
     next_address s' = next_address s \<and> next_port s' = next_port s \<and>
     prev_address s' = prev_address s \<and> prev_port s' = prev_port s"

definition session_advances :: "session_data \<Rightarrow> session_data \<Rightarrow> bool" where
  "session_advances s s' \<longleftrightarrow> (\<forall>k. seq_of k s \<le> seq_of k s') \<and> same_route s s'"

definition sessions_advance :: "relay_maps \<Rightarrow> relay_maps \<Rightarrow> bool" where
  "sessions_advance m m' \<longleftrightarrow>
     (\<forall>k s'. session_map m' k = Some s' \<longrightarrow>
        (case session_map m k of Some s \<Rightarrow> session_advances s s' | None \<Rightarrow> \<forall>q. seq_of q s' = 0))"

text \<open>
  \<open>session_life cr k m fs m'\<close>: from the maps \<open>m\<close> the relay runs to \<open>m'\<close> through any packets and any steps of the control
  plane that leave the session \<open>k\<close> alone, without the session of key \<open>k\<close> ever being absent, and \<open>fs\<close> are the
  packets of that session which it forwarded, in order.
\<close>

definition forwards :: "crypto \<Rightarrow> session_key \<Rightarrow> bytes \<Rightarrow> relay_maps \<Rightarrow> bool" where
  "forwards cr k f m \<longleftrightarrow>
     kind_of (f ! 42) \<noteq> None \<and> header_session_key f = k \<and> verdict (relay_xdp_filter cr f m) = XDP_TX"

inductive session_life :: "crypto \<Rightarrow> session_key \<Rightarrow> relay_maps \<Rightarrow> bytes list \<Rightarrow> relay_maps \<Rightarrow> bool"
  for cr k m where
  start: "session_map m k \<noteq> None \<Longrightarrow> session_life cr k m [] m"
| packet: "session_life cr k m fs m1 \<Longrightarrow> m2 = out_maps (relay_xdp_filter cr f m1) \<Longrightarrow>
    session_map m2 k \<noteq> None \<Longrightarrow> session_life cr k m (if forwards cr k f m1 then fs @ [f] else fs) m2"
| control: "session_life cr k m fs m1 \<Longrightarrow> session_map m2 k = session_map m1 k \<Longrightarrow> session_life cr k m fs m2"

abbreviation of_kind :: "seq_kind \<Rightarrow> bytes list \<Rightarrow> bytes list" where
  "of_kind q fs \<equiv> filter (\<lambda>f. kind_of (f ! 42) = Some q) fs"

section \<open>Building blocks\<close>

lemma counter_maps [relay_simps]:
  "session_map (ADD_COUNTER i v m) = session_map m"
  "whitelist_map (ADD_COUNTER i v m) = whitelist_map m"
  "relay_map (ADD_COUNTER i v m) = relay_map m"
  "config_map (ADD_COUNTER i v m) = config_map m"
  "state_map (ADD_COUNTER i v m) = state_map m"
  "stats_map (ADD_COUNTER i v m) = map_option (\<lambda>c. c(i := c i + v)) (stats_map m)"
  "session_map (INCREMENT_COUNTER i m) = session_map m"
  "whitelist_map (INCREMENT_COUNTER i m) = whitelist_map m"
  "relay_map (INCREMENT_COUNTER i m) = relay_map m"
  "config_map (INCREMENT_COUNTER i m) = config_map m"
  "state_map (INCREMENT_COUNTER i m) = state_map m"
  "stats_map (INCREMENT_COUNTER i m) = map_option (\<lambda>c. c(i := c i + 1)) (stats_map m)"
  by (simp_all add: ADD_COUNTER_def INCREMENT_COUNTER_def)

lemma drop_packet_sel [relay_simps]:
  "verdict (drop_packet c f n m) = XDP_DROP" "out_frame (drop_packet c f n m) = f"
  "session_map (out_maps (drop_packet c f n m)) = session_map m"
  "whitelist_map (out_maps (drop_packet c f n m)) = whitelist_map m"
  "relay_map (out_maps (drop_packet c f n m)) = relay_map m"
  "config_map (out_maps (drop_packet c f n m)) = config_map m"
  "state_map (out_maps (drop_packet c f n m)) = state_map m"
  by (simp_all add: drop_packet_def counter_maps)

lemma drop_silently_sel [relay_simps]:
  "verdict (drop_silently f m) = XDP_DROP" "out_frame (drop_silently f m) = f"
  "session_map (out_maps (drop_silently f m)) = session_map m"
  "whitelist_map (out_maps (drop_silently f m)) = whitelist_map m"
  "relay_map (out_maps (drop_silently f m)) = relay_map m"
  "config_map (out_maps (drop_silently f m)) = config_map m"
  "state_map (out_maps (drop_silently f m)) = state_map m"
  by (simp_all add: drop_silently_def counter_maps)

lemma whitelist_ops_sel [relay_simps]:
  "session_map (whitelist_insert st f m) = session_map m" "session_map (whitelist_refresh st k m) = session_map m"
  "relay_map (whitelist_insert st f m) = relay_map m" "relay_map (whitelist_refresh st k m) = relay_map m"
  "config_map (whitelist_insert st f m) = config_map m" "config_map (whitelist_refresh st k m) = config_map m"
  "state_map (whitelist_insert st f m) = state_map m" "state_map (whitelist_refresh st k m) = state_map m"
  "stats_map (whitelist_insert st f m) = stats_map m" "stats_map (whitelist_refresh st k m) = stats_map m"
  by (simp_all add: whitelist_insert_def whitelist_refresh_def)

lemma case_drop [relay_simps]:
  "(case drop_packet c f n m of (v, f', m') \<Rightarrow> g v f' m') = g XDP_DROP f (out_maps (drop_packet c f n m))"
  "(case drop_packet c f n m of (v, r) \<Rightarrow> k v r) = k XDP_DROP (snd (drop_packet c f n m))"
  by (simp_all add: drop_packet_def)

lemma reply_sel [relay_simps]:
  "verdict (reply_with_pong cfg st t n k c f m) = XDP_TX"
  "session_map (out_maps (reply_with_pong cfg st t n k c f m)) = session_map m"
  "relay_map (out_maps (reply_with_pong cfg st t n k c f m)) = relay_map m"
  "config_map (out_maps (reply_with_pong cfg st t n k c f m)) = config_map m"
  "state_map (out_maps (reply_with_pong cfg st t n k c f m)) = state_map m"
  "whitelist_map (out_maps (reply_with_pong cfg st t n k c f m)) = whitelist_map (whitelist_insert st f m)"
  by (simp_all add: reply_with_pong_def Let_def relay_simps)

section \<open>Session packets\<close>

lemma dest_key_forward [simp]:
  "dest_key (forward_args cfg st n (hop_address h s) (hop_port h s)) = hop_key h s"
  by (simp add: forward_args_def hop_key_def)

lemma session_packet_cases:
  fixes cr cfg st h n f m
  defines "r \<equiv> relay_session_packet cr cfg st h n f m"
  obtains (drop) c where "r = drop_packet c f (length f) m" "\<nexists>s. can_forward cr st h f m s"
  | (expired) c s where "session_map m (header_session_key f) = Some s" "expire_timestamp s < current_timestamp st"
      "verdict r = XDP_DROP" "out_frame r = f"
      "out_maps r = (out_maps (drop_packet c f (length f) m))\<lparr>session_map := (session_map m)(header_session_key f := None)\<rparr>"
  | (blocked) s where "can_forward cr st h f m s" "whitelist_map m (hop_key h s) = None"
      "r = drop_packet RELAY_COUNTER_REDIRECT_NOT_IN_WHITELIST
             (snd (relay_redirect_packet (whitelist_map m) (forward_args cfg st n (hop_address h s) (hop_port h s)) f))
             (length (snd (relay_redirect_packet (whitelist_map m) (forward_args cfg st n (hop_address h s) (hop_port h s)) f)))
             (m\<lparr>session_map := (session_map m)(header_session_key f \<mapsto> set_sequence h (header_sequence f) s)\<rparr>)"
  | (forwarded) s g where "can_forward cr st h f m s" "whitelist_map m (hop_key h s) \<noteq> None"
      "relay_redirect_packet (whitelist_map m) (forward_args cfg st n (hop_address h s) (hop_port h s)) f = (XDP_TX, g)"
      "r = (XDP_TX, g, whitelist_refresh st (source_key f)
             (ADD_COUNTER RELAY_COUNTER_BYTES_SENT (of_nat (length g))
               (INCREMENT_COUNTER RELAY_COUNTER_PACKETS_SENT (INCREMENT_COUNTER (c_forward h)
                 (m\<lparr>session_map := (session_map m)(header_session_key f \<mapsto> set_sequence h (header_sequence f) s)\<rparr>)))))"
proof (cases "session_map m (header_session_key f)")
  case None
  then show thesis by (intro drop) (auto simp: r_def relay_session_packet_def can_forward_def)
next
  case (Some s)
  show thesis
  proof (cases "expire_timestamp s < current_timestamp st")
    case True
    then show thesis using Some
      by (intro expired [of s "c_session_expired h"]) (auto simp: r_def relay_session_packet_def relay_simps map_delete_def)
  next
    case False
    note alive = False
    show thesis
    proof (cases "get_sequence h s < header_sequence f \<and> header_verifies cr s f")
      case False
      let ?c = "if get_sequence h s < header_sequence f then c_header_did_not_verify h else c_already_received h"
      show thesis using Some alive False
        by (intro drop [of ?c]) (auto simp: r_def relay_session_packet_def can_forward_def Let_def)
    next
      case True
      then have cf: "can_forward cr st h f m s" using Some alive by (auto simp: can_forward_def)
      let ?a = "forward_args cfg st n (hop_address h s) (hop_port h s)"
      obtain v g where vg: "relay_redirect_packet (whitelist_map m) ?a f = (v, g)" by fastforce
      show thesis
      proof (cases "whitelist_map m (hop_key h s)")
        case None
        then have "v = XDP_DROP" using vg redirect_drop_iff(1) [of "whitelist_map m" ?a f] by simp
        then show thesis using Some alive True cf None vg
          by (intro blocked [OF cf None]) (auto simp: r_def relay_session_packet_def Let_def not_le)
      next
        case (Some w)
        then have v: "v = XDP_TX" using vg redirect_drop_iff(2) [of "whitelist_map m" ?a f] by simp
        then show thesis using \<open>session_map m (header_session_key f) = _\<close> alive True cf Some vg
          by (intro forwarded [OF cf, of g]) (auto simp: r_def relay_session_packet_def Let_def not_le)
      qed
    qed
  qed
qed

section \<open>The whole filter\<close>

lemma same_maps_simps [simp]:
  "same_maps m m"
  "same_maps m (ADD_COUNTER i v m') = same_maps m m'" "same_maps m (INCREMENT_COUNTER i m') = same_maps m m'"
  "same_maps m (out_maps (drop_packet c f n m')) = same_maps m m'"
  "same_maps m (out_maps (drop_silently f m')) = same_maps m m'"
  by (simp_all add: same_maps_def relay_simps)

lemma untouched_simps [simp]:
  "untouched f m (drop_packet c f n m') = same_maps m m'"
  "untouched f m (drop_silently f m') = same_maps m m'"
  "untouched f m (XDP_PASS, f, m') = same_maps m m'"
  "untouched f m (XDP_DROP, f, m') = same_maps m m'"
  "untouched f m (XDP_PASS, snd (drop_packet c f n m')) = same_maps m m'"
  "untouched f m (XDP_DROP, snd (drop_packet c f n m')) = same_maps m m'"
  by (simp_all add: untouched_def relay_simps)

lemma filter_packet_cases:
  "untouched f m (relay_filter_packet cr cfg f m) \<or>
   (\<exists>st. state_map m = Some st \<and> 60 \<le> length f \<and> length f \<le> 1442 \<and>
      xdp_basic_packet_filter (packet_data f) \<and> advanced_filter_any cfg st f \<and>
      relay_filter_packet cr cfg f m = relay_process_packet cr cfg st f m)"
  unfolding relay_filter_packet_def by (simp split: option.split) linarith

lemma xdp_filter_cases:
  fixes cr f m
  defines "r \<equiv> relay_xdp_filter cr f m"
  obtains (untouched) "untouched f m r"
  | (packet) cfg st m' where "config_map m = Some cfg" "state_map m = Some st" "stats_map m \<noteq> None"
      "eth_proto f = ETH_P_IP" "ip_protocol f = 17" "ip_ihl f = 5" "to_relay cfg f"
      "60 \<le> length f" "length f \<le> 1442"
      "xdp_basic_packet_filter (packet_data f)" "advanced_filter_any cfg st f"
      "m' = ADD_COUNTER RELAY_COUNTER_BYTES_RECEIVED (of_nat (length f))
              (INCREMENT_COUNTER RELAY_COUNTER_PACKETS_RECEIVED m)"
      "r = relay_process_packet cr cfg st f m'"
proof -
  let ?m = "ADD_COUNTER RELAY_COUNTER_BYTES_RECEIVED (of_nat (length f))
              (INCREMENT_COUNTER RELAY_COUNTER_PACKETS_RECEIVED m)"
  have "untouched f m r \<or> (\<exists>cfg. config_map m = Some cfg \<and> stats_map m \<noteq> None \<and>
      eth_proto f = ETH_P_IP \<and> ip_protocol f = 17 \<and> ip_ihl f = 5 \<and> to_relay cfg f \<and>
      r = relay_filter_packet cr cfg f ?m)"
    unfolding r_def relay_xdp_filter_def
    by (simp add: Let_def relay_simps split: option.split)
  moreover have "untouched f ?m r' \<Longrightarrow> untouched f m r'" for r'
    by (simp add: untouched_def same_maps_def relay_simps)
  moreover have "state_map ?m = state_map m" by (simp add: relay_simps)
  ultimately show thesis
    using filter_packet_cases [of f ?m cr] untouched packet by (metis (no_types, lifting))
qed

lemmas handler_defs = route_response_handler_def continue_response_handler_def client_to_server_handler_def
  server_to_client_handler_def session_ping_handler_def session_pong_handler_def

lemma all_seq_kind:
  "(\<forall>k. P k) \<longleftrightarrow> P Payload_Client_To_Server \<and> P Payload_Server_To_Client \<and>
     P Special_Client_To_Server \<and> P Special_Server_To_Client"
  by (metis seq_kind.exhaust)

lemma handler_of_facts:
  assumes "handler_of t = Some h"
  obtains k where "kind_of t = Some k" "get_sequence h = seq_of k"
    "\<And>q s k'. seq_of k' (set_sequence h q s) = (if k' = k then q else seq_of k' s)"
    "\<And>q s. same_route s (set_sequence h q s)"
    "\<And>q s. expire_timestamp (set_sequence h q s) = expire_timestamp s"
proof -
  have "\<exists>k. kind_of t = Some k \<and> get_sequence h = seq_of k \<and>
    (\<forall>q s k'. seq_of k' (set_sequence h q s) = (if k' = k then q else seq_of k' s)) \<and>
    (\<forall>q s. same_route s (set_sequence h q s)) \<and>
    (\<forall>q s. expire_timestamp (set_sequence h q s) = expire_timestamp s)"
    using assms
    by (auto simp: handler_of_def kind_of_def handler_defs same_route_def fun_eq_iff all_seq_kind split: if_splits)
  then show thesis using that by blast
qed

lemma kind_of_handler: "kind_of t \<noteq> None \<longleftrightarrow> handler_of t \<noteq> None"
  by (simp add: kind_of_def handler_of_def)

lemma process_session_packet:
  assumes "handler_of (f ! 42) = Some h"
  obtains (drop) c m' where "relay_process_packet cr cfg st f m = drop_packet c f (length f) m'" "same_maps m m'"
  | (session) c where "whitelist_map m (source_key f) \<noteq> None" "85 \<le> length f"
      "relay_process_packet cr cfg st f m =
       relay_session_packet cr cfg st h (length f - 42) f (INCREMENT_COUNTER c m)"
proof -
  have "(\<exists>c m'. relay_process_packet cr cfg st f m = drop_packet c f (length f) m' \<and> same_maps m m') \<or>
    (\<exists>c. whitelist_map m (source_key f) \<noteq> None \<and> 85 \<le> length f \<and> relay_process_packet cr cfg st f m =
       relay_session_packet cr cfg st h (length f - 42) f (INCREMENT_COUNTER c m))"
  proof (cases "whitelist_map m (source_key f) = None")
    case True
    then show ?thesis using assms
      by (intro disjI1 exI [of _ RELAY_COUNTER_NOT_IN_WHITELIST] exI [of _ m])
         (auto simp: relay_process_packet_def handler_of_def Let_def split: if_splits)
  next
    case False
    have sz: "length f = 85 \<Longrightarrow> length f - 42 = 43" "length f = 93 \<Longrightarrow> length f - 42 = 51" by simp_all
    show ?thesis using assms False
      unfolding relay_process_packet_def handler_of_def Let_def
        relay_route_response_packet_def relay_continue_response_packet_def relay_client_to_server_packet_def
        relay_server_to_client_packet_def relay_session_ping_packet_def relay_session_pong_packet_def
      by (fastforce simp: not_less sz split: if_splits)
  qed
  then show thesis using drop session by blast
qed

lemma advances_refl [simp]: "session_advances s s"
  by (simp add: session_advances_def same_route_def)

lemma sessions_advance_same:
  "session_map m' = session_map m \<Longrightarrow> sessions_advance m m'"
  by (simp add: sessions_advance_def)

lemma sessions_advance_delete:
  "session_map m' = (session_map m)(k := None) \<Longrightarrow> sessions_advance m m'"
  by (auto simp: sessions_advance_def split: option.split)

lemma sessions_advance_update:
  "session_map m k = Some s \<Longrightarrow> session_advances s s' \<Longrightarrow> session_map m' = (session_map m)(k \<mapsto> s') \<Longrightarrow>
   sessions_advance m m'"
  by (auto simp: sessions_advance_def split: option.split)

lemma session_packet_advances:
  assumes h: "handler_of t = Some h"
  shows "sessions_advance m (out_maps (relay_session_packet cr cfg st h n f m))"
proof -
  obtain k where k: "get_sequence h = seq_of k"
    "\<And>q s k'. seq_of k' (set_sequence h q s) = (if k' = k then q else seq_of k' s)"
    "\<And>q s. same_route s (set_sequence h q s)"
    using handler_of_facts [OF h] by metis
  have adv: "session_advances s (set_sequence h (header_sequence f) s)" if "can_forward cr st h f m s" for s
    using that k by (auto simp: session_advances_def can_forward_def)
  have upd: "sessions_advance m m'"
    if "can_forward cr st h f m s"
      "session_map m' = (session_map m)(header_session_key f \<mapsto> set_sequence h (header_sequence f) s)" for s m'
    using that by (intro sessions_advance_update [OF _ adv [OF that(1)] that(2)]) (simp add: can_forward_def)
  show ?thesis
  proof (cases rule: session_packet_cases [of cr cfg st h n f m])
    case drop
    then show ?thesis by (simp add: sessions_advance_same relay_simps)
  next
    case expired
    then show ?thesis by (intro sessions_advance_delete) (simp add: relay_simps)
  next
    case blocked
    then show ?thesis by (intro upd) (simp_all add: relay_simps)
  next
    case forwarded
    then show ?thesis by (intro upd) (simp_all add: relay_simps)
  qed
qed

lemma route_request_cases:
  fixes cr cfg st f m
  defines "r \<equiv> relay_route_request_packet cr cfg st f m"
  obtains (drop) c f' m' where "r = drop_packet c f' (length f') m'" "same_maps m m'"
  | (request) f1 token session g v g' m2 where
      "282 \<le> length f" "relay_decrypt_route_token cr (take 32 (relay_secret_key cfg)) 60 f = Some f1"
      "token = route_token_at 84 f1" "current_timestamp st \<le> rt_expire_timestamp token"
      "session = session_of_token token (udp_source f1)" "g = strip_token 111 RELAY_ROUTE_REQUEST_PACKET f1"
      "relay_redirect_packet (whitelist_map m)
         (forward_args cfg st (length g - 42) (next_address session) (next_port session)) g = (v, g')"
      "session_map m2 = fst (map_update (session_map m) (token_session_key token) session BPF_NOEXIST)"
      "same_maps m (m2\<lparr>session_map := session_map m\<rparr>)"
      "r = (if v = XDP_DROP then
              drop_packet RELAY_COUNTER_REDIRECT_NOT_IN_WHITELIST (take 111 f1 @ g') (length g') m2
            else (XDP_TX, g', whitelist_refresh st (source_key f)
                   (ADD_COUNTER RELAY_COUNTER_BYTES_SENT (of_nat (length g'))
                     (INCREMENT_COUNTER RELAY_COUNTER_PACKETS_SENT
                       (INCREMENT_COUNTER RELAY_COUNTER_ROUTE_REQUEST_PACKET_FORWARD_TO_NEXT_HOP m2)))))"
proof -
  let ?m = "INCREMENT_COUNTER RELAY_COUNTER_ROUTE_REQUEST_PACKET_RECEIVED m"
  show thesis
  proof (cases "282 \<le> length f")
    case False
    then show thesis
      by (intro drop [of RELAY_COUNTER_ROUTE_REQUEST_PACKET_WRONG_SIZE f ?m])
         (simp_all add: r_def relay_route_request_packet_def)
  next
    case len: True
    show thesis
    proof (cases "relay_decrypt_route_token cr (take 32 (relay_secret_key cfg)) 60 f")
      case None
      then show thesis using len
        by (intro drop [of RELAY_COUNTER_ROUTE_REQUEST_PACKET_COULD_NOT_DECRYPT_ROUTE_TOKEN f ?m])
           (simp_all add: r_def relay_route_request_packet_def)
    next
      case (Some f1)
      let ?t = "route_token_at 84 f1"
      let ?s = "session_of_token ?t (udp_source f1)"
      let ?g = "strip_token 111 RELAY_ROUTE_REQUEST_PACKET f1"
      obtain v g' where vg: "relay_redirect_packet (whitelist_map m)
         (forward_args cfg st (length ?g - 42) (next_address ?s) (next_port ?s)) ?g = (v, g')" by fastforce
      obtain ss rc where u: "map_update (session_map m) (token_session_key ?t) ?s BPF_NOEXIST = (ss, rc)" by fastforce
      let ?m1 = "?m\<lparr>session_map := ss\<rparr>"
      let ?m2 = "if rc = 0 then INCREMENT_COUNTER RELAY_COUNTER_SESSION_CREATED ?m1 else ?m1"
      show thesis
      proof (cases "rt_expire_timestamp ?t < current_timestamp st")
        case True
        then show thesis using len Some
          by (intro drop [of RELAY_COUNTER_ROUTE_REQUEST_PACKET_TOKEN_EXPIRED f1 ?m])
             (simp_all add: r_def relay_route_request_packet_def)
      next
        case False
        then have le: "current_timestamp st \<le> rt_expire_timestamp ?t" by simp
        show thesis
          by (rule request [OF len Some refl le refl refl vg, of ?m2])
             (use len Some False vg u in \<open>simp_all add: r_def relay_route_request_packet_def
                relay_simps same_maps_def Let_def\<close>)
      qed
    qed
  qed
qed

lemma route_request_advances:
  "sessions_advance m (out_maps (relay_route_request_packet cr cfg st f m))"
proof (cases rule: route_request_cases [of cr cfg st f m])
  case drop
  then show ?thesis by (simp add: sessions_advance_same relay_simps same_maps_def)
next
  case (request f1 token session g v g' m2)
  have "sessions_advance m m'" if "session_map m' = session_map m2" for m'
    using that request(5,8)
    by (auto simp: sessions_advance_def map_update_def session_of_token_def all_seq_kind split: option.splits if_splits)
  then show ?thesis using request(10) by (simp add: relay_simps)
qed

lemma continue_request_cases:
  fixes cr cfg st f m
  defines "r \<equiv> relay_continue_request_packet cr cfg st f m"
  obtains (drop) c f' m' where "r = drop_packet c f' (length f') m'" "same_maps m m'"
  | (expired) k s where "session_map m k = Some s" "expire_timestamp s < current_timestamp st"
      "verdict r = XDP_DROP" "session_map (out_maps r) = (session_map m)(k := None)"
      "same_maps m ((out_maps r)\<lparr>session_map := session_map m\<rparr>)"
  | (request) f1 token k s g v g' m2 where
      "174 \<le> length f" "relay_decrypt_continue_token cr (take 32 (relay_secret_key cfg)) 60 f = Some f1"
      "token = continue_token_at 84 f1" "current_timestamp st \<le> ct_expire_timestamp token"
      "session_map m k = Some s" "current_timestamp st \<le> expire_timestamp s"
      "g = strip_token 57 RELAY_CONTINUE_REQUEST_PACKET f1"
      "relay_redirect_packet (whitelist_map m)
         (forward_args cfg st (length g - 42) (next_address s) (next_port s)) g = (v, g')"
      "session_map m2 = (session_map m)(k \<mapsto> s\<lparr>expire_timestamp := ct_expire_timestamp token\<rparr>)"
      "same_maps m (m2\<lparr>session_map := session_map m\<rparr>)"
      "r = (if v = XDP_DROP then
              drop_packet RELAY_COUNTER_REDIRECT_NOT_IN_WHITELIST (take 57 f1 @ g') (length g') m2
            else (XDP_TX, g', whitelist_refresh st (source_key f)
                   (ADD_COUNTER RELAY_COUNTER_BYTES_SENT (of_nat (length g'))
                     (INCREMENT_COUNTER RELAY_COUNTER_PACKETS_SENT
                       (INCREMENT_COUNTER RELAY_COUNTER_CONTINUE_REQUEST_PACKET_FORWARD_TO_NEXT_HOP m2)))))"
proof -
  let ?m = "INCREMENT_COUNTER RELAY_COUNTER_CONTINUE_REQUEST_PACKET_RECEIVED m"
  note d = r_def relay_continue_request_packet_def
  show thesis
  proof (cases "174 \<le> length f")
    case False
    then show thesis
      by (intro drop [of RELAY_COUNTER_CONTINUE_REQUEST_PACKET_WRONG_SIZE f ?m]) (simp_all add: d)
  next
    case len: True
    show thesis
    proof (cases "relay_decrypt_continue_token cr (take 32 (relay_secret_key cfg)) 60 f")
      case None
      then show thesis using len
        by (intro drop [of RELAY_COUNTER_CONTINUE_REQUEST_PACKET_COULD_NOT_DECRYPT_CONTINUE_TOKEN f ?m]) (simp_all add: d)
    next
      case dec: (Some f1)
      let ?t = "continue_token_at 84 f1"
      let ?k = "\<lparr>key_session_id = ct_session_id ?t, key_session_version = ucast (ct_session_version ?t)\<rparr>"
      let ?g = "strip_token 57 RELAY_CONTINUE_REQUEST_PACKET f1"
      show thesis
      proof (cases "ct_expire_timestamp ?t < current_timestamp st")
        case True
        then show thesis using len dec
          by (intro drop [of RELAY_COUNTER_CONTINUE_REQUEST_PACKET_TOKEN_EXPIRED f1 ?m]) (simp_all add: d)
      next
        case False
        then have le: "current_timestamp st \<le> ct_expire_timestamp ?t" by simp
        show thesis
        proof (cases "session_map m ?k")
          case None
          then show thesis using len dec False
            by (intro drop [of RELAY_COUNTER_CONTINUE_REQUEST_PACKET_COULD_NOT_FIND_SESSION f1 ?m])
               (simp_all add: d relay_simps Let_def)
        next
          case ses: (Some s)
          show thesis
          proof (cases "expire_timestamp s < current_timestamp st")
            case True
            then show thesis using len dec False ses
              by (intro expired [OF ses True]) (simp_all add: d relay_simps Let_def map_delete_def same_maps_def)
          next
            case alive: False
            then have le': "current_timestamp st \<le> expire_timestamp s" by simp
            obtain v g' where vg: "relay_redirect_packet (whitelist_map m)
               (forward_args cfg st (length ?g - 42) (next_address s) (next_port s)) ?g = (v, g')" by fastforce
            let ?m1 = "if expire_timestamp s \<noteq> ct_expire_timestamp ?t
                       then INCREMENT_COUNTER RELAY_COUNTER_SESSION_CONTINUED ?m else ?m"
            let ?m2 = "?m1\<lparr>session_map := (session_map m)(?k \<mapsto> s\<lparr>expire_timestamp := ct_expire_timestamp ?t\<rparr>)\<rparr>"
            show thesis
              by (rule request [OF len dec refl le ses le' refl vg, of ?m2])
                 (use len dec False ses alive vg in \<open>simp_all add: d relay_simps same_maps_def Let_def\<close>)
          qed
        qed
      qed
    qed
  qed
qed

lemma continue_request_advances:
  "sessions_advance m (out_maps (relay_continue_request_packet cr cfg st f m))"
proof (cases rule: continue_request_cases [of cr cfg st f m])
  case drop
  then show ?thesis by (simp add: sessions_advance_same relay_simps same_maps_def)
next
  case (expired k s)
  then show ?thesis by (intro sessions_advance_delete)
next
  case (request f1 token k s g v g' m2)
  have "session_advances s (s\<lparr>expire_timestamp := t\<rparr>)" for t
    by (simp add: session_advances_def all_seq_kind same_route_def)
  then have "sessions_advance m m'" if "session_map m' = session_map m2" for m'
    using that request(5,9) by (intro sessions_advance_update) auto
  then show ?thesis using request(11) by (simp add: relay_simps)
qed

lemma ping_sessions:
  "session_map (out_maps (relay_ping_packet cr cfg st f m)) = session_map m"
  "session_map (out_maps (relay_client_ping_packet cr cfg st f m)) = session_map m"
  "session_map (out_maps (relay_server_ping_packet cr cfg st f m)) = session_map m"
  "session_map (out_maps (relay_pong_packet st f m)) = session_map m"
  by (simp_all add: relay_ping_packet_def relay_client_ping_packet_def relay_server_ping_packet_def
      relay_pong_packet_def Let_def relay_simps)

lemma process_advances: "sessions_advance m (out_maps (relay_process_packet cr cfg st f m))"
proof (cases "handler_of (f ! 42)")
  case None
  then show ?thesis
    unfolding relay_process_packet_def Let_def
    by (simp add: handler_of_def ping_sessions sessions_advance_same relay_simps
        route_request_advances continue_request_advances split: if_splits)
next
  case (Some h)
  then show ?thesis
  proof (cases rule: process_session_packet [of f h cr cfg st m])
    case drop
    then show ?thesis by (simp add: sessions_advance_same relay_simps same_maps_def)
  next
    case (session c)
    then show ?thesis
      using session_packet_advances [OF Some, of "INCREMENT_COUNTER c m"]
      by (simp add: sessions_advance_def relay_simps)
  qed
qed

lemma filter_advances: "sessions_advance m (out_maps (relay_xdp_filter cr f m))"
proof (cases rule: xdp_filter_cases [of f m cr])
  case untouched
  then show ?thesis by (simp add: sessions_advance_same untouched_def same_maps_def)
next
  case (packet cfg st m')
  then show ?thesis
    using process_advances [of m' cr cfg st f] by (simp add: sessions_advance_def relay_simps)
qed

section \<open>What a forwarded session packet has been through\<close>

lemma filter_session_TX:
  assumes h: "handler_of (f ! 42) = Some h" and tx: "verdict (relay_xdp_filter cr f m) = XDP_TX"
  obtains cfg st s g where
    "config_map m = Some cfg" "state_map m = Some st" "to_relay cfg f"
    "85 \<le> length f" "length f \<le> 1442"
    "xdp_basic_packet_filter (packet_data f)" "advanced_filter_any cfg st f"
    "whitelist_map m (source_key f) \<noteq> None"
    "can_forward cr st h f m s" "whitelist_map m (hop_key h s) \<noteq> None"
    "relay_redirect_packet (whitelist_map m)
       (forward_args cfg st (length f - 42) (hop_address h s) (hop_port h s)) f = (XDP_TX, g)"
    "out_frame (relay_xdp_filter cr f m) = g"
    "session_map (out_maps (relay_xdp_filter cr f m)) =
       (session_map m)(header_session_key f \<mapsto> set_sequence h (header_sequence f) s)"
proof (cases rule: xdp_filter_cases [of f m cr])
  case untouched
  then show thesis using tx by (simp add: untouched_def)
next
  case (packet cfg st m')
  have m': "same_maps m m'" using packet(12) by simp
  show thesis
    using h
  proof (cases rule: process_session_packet [of f h cr cfg st m'])
    case drop
    then show thesis using tx packet(13) by (simp add: relay_simps)
  next
    case (session c)
    let ?m = "INCREMENT_COUNTER c m'"
    have mm: "session_map ?m = session_map m" "whitelist_map ?m = whitelist_map m"
      using m' by (simp_all add: same_maps_def relay_simps)
    have tx': "verdict (relay_session_packet cr cfg st h (length f - 42) f ?m) = XDP_TX"
      using tx packet(13) session(3) by simp
    show thesis
    proof (cases rule: session_packet_cases [of cr cfg st h "length f - 42" f ?m])
      case (forwarded s g)
      show thesis
        by (rule that [of cfg st s g])
           (use packet session forwarded mm in \<open>simp_all add: can_forward_def relay_simps same_maps_def\<close>)
    qed (use tx' in \<open>simp_all add: relay_simps\<close>)
  qed
qed

section \<open>Sessions over many packets\<close>

lemma life_alive: "session_life cr k m fs m' \<Longrightarrow> session_map m' k \<noteq> None"
  by (induction rule: session_life.induct) auto

lemma filter_keeps_order:
  assumes "session_map m k = Some s" "session_map (out_maps (relay_xdp_filter cr f m)) k = Some s'"
  shows "seq_of q s \<le> seq_of q s'"
    and "forwards cr k f m \<Longrightarrow> kind_of (f ! 42) = Some q \<Longrightarrow> seq_of q s < header_sequence f \<and> seq_of q s' = header_sequence f"
proof -
  show "seq_of q s \<le> seq_of q s'"
    using filter_advances [of m cr f, unfolded sessions_advance_def, rule_format, OF assms(2)] assms(1)
    by (simp add: session_advances_def)
  assume fw: "forwards cr k f m" and q: "kind_of (f ! 42) = Some q"
  obtain h where h: "handler_of (f ! 42) = Some h" using kind_of_handler q by (metis not_None_eq)
  obtain q' where q': "kind_of (f ! 42) = Some q'" "get_sequence h = seq_of q'"
    "\<And>x s k'. seq_of k' (set_sequence h x s) = (if k' = q' then x else seq_of k' s)"
    using handler_of_facts [OF h] by metis
  show "seq_of q s < header_sequence f \<and> seq_of q s' = header_sequence f"
  proof (rule filter_session_TX [OF h])
    show "verdict (relay_xdp_filter cr f m) = XDP_TX" using fw by (simp add: forwards_def)
  next
    fix cfg st t g
    assume "can_forward cr st h f m t"
      "session_map (out_maps (relay_xdp_filter cr f m)) =
       (session_map m)(header_session_key f \<mapsto> set_sequence h (header_sequence f) t)"
    then show ?thesis
      using q q' fw assms by (auto simp: can_forward_def forwards_def)
  qed
qed

lemma session_life_ordered:
  assumes "session_life cr k m fs m'"
  shows "sorted_wrt (<) (map header_sequence (of_kind q fs))"
    and "\<forall>f \<in> set (of_kind q fs). header_sequence f \<le> seq_of q (the (session_map m' k))"
proof -
  have "sorted_wrt (<) (map header_sequence (of_kind q fs)) \<and>
    (\<forall>f \<in> set (of_kind q fs). header_sequence f \<le> seq_of q (the (session_map m' k)))"
    using assms
  proof (induction rule: session_life.induct)
    case (packet fs m1 m2 f)
    obtain s where s: "session_map m1 k = Some s" using life_alive [OF packet(1)] by blast
    obtain s' where s': "session_map m2 k = Some s'" using packet by blast
    note o = filter_keeps_order [OF s s' [unfolded packet(2)], of q]
    have le: "header_sequence g \<le> seq_of q s'" if "g \<in> set (of_kind q fs)" for g
      using packet.IH that s o(1) by (metis (no_types, lifting) option.sel order_trans)
    show ?case
    proof (cases "forwards cr k f m1 \<and> kind_of (f ! 42) = Some q")
      case True
      then have "seq_of q s < header_sequence f" "seq_of q s' = header_sequence f" using o(2) by auto
      then show ?thesis using packet.IH True s s' le
        by (auto simp: sorted_wrt_append intro: order.strict_trans1)
    next
      case False
      then show ?thesis using packet.IH s' le by auto
    qed
  qed simp_all
  then show "sorted_wrt (<) (map header_sequence (of_kind q fs))"
    "\<forall>f \<in> set (of_kind q fs). header_sequence f \<le> seq_of q (the (session_map m' k))" by simp_all
qed

end
