(* ===== verification/Relay_Output.thy ===== *)
theory Relay_Output
  imports Relay_Sessions
begin

text \<open>
  What the datapath sends: every frame it transmits is \<open>sealed\<close> with the current magic value, carries a known
  packet type and is no longer than the frame that caused it; what it replies to a ping; and that it never
  changes the configuration, the state or the set of relays, and keeps the maps well formed.
\<close>

section \<open>Definitions\<close>

definition wf_maps :: "relay_maps \<Rightarrow> bool" where
  "wf_maps m \<longleftrightarrow>
     (\<forall>cfg. config_map m = Some cfg \<longrightarrow> length (gateway_ethernet_address cfg) = 6) \<and>
     (\<forall>st. state_map m = Some st \<longrightarrow> length (current_magic st) = 8 \<and> length (previous_magic st) = 8 \<and>
        length (next_magic st) = 8 \<and> length (ping_key st) = 32) \<and>
     wf_whitelist (whitelist_map m)"

text \<open>The documented interface of the AEAD: the plaintext is the ciphertext without its 16 byte tag.\<close>

definition aead_ok :: "crypto \<Rightarrow> bool" where
  "aead_ok cr \<longleftrightarrow>
     (\<forall>nonce key c p. xchacha20poly1305_decrypt cr nonce key c = Some p \<longrightarrow> length p + 16 = length c)"

definition sendable :: "relay_state \<Rightarrow> bytes \<Rightarrow> bytes \<Rightarrow> bool" where
  "sendable st f g \<longleftrightarrow>
     sealed (current_magic st) g \<and> length g \<le> length f \<and> g ! 42 \<noteq> 0 \<and> g ! 42 \<le> 0x0E \<and>
     window 12 4 g = window 12 4 f \<and> g ! 23 = f ! 23"

definition keeps_static :: "relay_maps \<Rightarrow> relay_maps \<Rightarrow> bool" where
  "keeps_static m m' \<longleftrightarrow>
     config_map m' = config_map m \<and> state_map m' = state_map m \<and> relay_map m' = relay_map m \<and>
     (wf_whitelist (whitelist_map m) \<longrightarrow> wf_whitelist (whitelist_map m'))"

section \<open>What is sent\<close>

lemma wf_gateway_of: "wf_maps m \<Longrightarrow> config_map m = Some cfg \<Longrightarrow> wf_gateway (gateway_of cfg)"
  by (simp add: wf_maps_def gateway_of_def wf_gateway_def)

lemma store8_facts:
  assumes "60 \<le> length f"
  shows "length (store8 42 t f) = length f" "store8 42 t f ! 42 = t" "store8 42 t f ! 23 = f ! 23"
    "window 12 4 (store8 42 t f) = window 12 4 f" "load32 26 (store8 42 t f) = load32 26 f"
    "load32 30 (store8 42 t f) = load32 30 f" "load16 34 (store8 42 t f) = load16 34 f"
    "load16 36 (store8 42 t f) = load16 36 f" "43 \<le> o' \<Longrightarrow> window o' n (store8 42 t f) = window o' n f"
  using assms by (simp_all add: frame_rw nth_overwrite)

lemma reply_frame:
  fixes st c m
  assumes "wf_gateway (gateway_of cfg)" "length f = 42 + n + trim" "18 \<le> n" "t \<noteq> 0" "t \<le> 0x0E"
  defines "g \<equiv> out_frame (reply_with_pong cfg st t n trim c f m)"
  shows "sendable st f g" "length g = 42 + n" "g ! 42 = t"
    "ip_saddr g = ip_daddr f" "ip_daddr g = ip_saddr f" "udp_source g = udp_dest f" "udp_dest g = udp_source f"
    "window 60 (n - 18) g = window 60 (n - 18) f"
proof -
  have l: "60 \<le> length f" using assms(2,3) by simp
  note s8 = store8_facts [OF l]
  have len: "length (relay_reflect_packet (store8 42 t f) n (current_magic st) (gateway_of cfg)) = length f"
    using assms(1) l s8(1) by (simp add: reflect_eq buffer_simps)
  have g: "g = take (42 + n) (relay_reflect_packet (store8 42 t f) n (current_magic st) (gateway_of cfg))"
    unfolding g_def reply_with_pong_def Let_def using len assms(2) by simp
  have "60 \<le> length (store8 42 t f)" "42 + n \<le> length (store8 42 t f)" using l s8(1) assms(2) by simp_all
  note r = reflect_frame [OF this(1) assms(1,3) this(2), of "current_magic st", folded g]
  show "sendable st f g"
    unfolding sendable_def using r s8 assms(2,4,5) by simp
  show "length g = 42 + n" "g ! 42 = t" "ip_saddr g = ip_daddr f" "ip_daddr g = ip_saddr f"
    "udp_source g = udp_dest f" "udp_dest g = udp_source f" "window 60 (n - 18) g = window 60 (n - 18) f"
    using r s8 by simp_all
qed

lemma strip_token_facts:
  fixes t
  assumes "42 + n + 43 \<le> length f" "42 \<le> n"
  defines "g \<equiv> strip_token n t f"
  shows "length g = length f - n" "g ! 42 = t" "g ! 23 = f ! 23" "window 12 4 g = window 12 4 f"
    "drop 43 g = drop (n + 43) f"
proof -
  have e: "drop n (overwrite n (take 42 f) f) = take 42 f @ drop (n + 42) f"
    using assms(1) by (simp add: overwrite_def min_def)
  have l: "length (take 42 f @ drop (n + 42) f) = length f - n" using assms(1) by simp
  show len: "length g = length f - n"
    unfolding g_def strip_token_def e using assms(1) l by (simp add: frame_rw)
  show "g ! 42 = t" "g ! 23 = f ! 23" "window 12 4 g = window 12 4 f"
    unfolding g_def strip_token_def e using assms(1) by (simp_all add: frame_rw nth_overwrite nth_append)
  show "drop 43 g = drop (n + 43) f"
    unfolding g_def strip_token_def e using assms(1) by (simp add: frame_rw add.commute)
qed

lemma decrypt_length:
  assumes "aead_ok cr"
  shows "relay_decrypt_route_token cr key 60 f = Some f1 \<Longrightarrow> 171 \<le> length f \<Longrightarrow> length f1 = length f \<and> take 84 f1 = take 84 f"
    and "relay_decrypt_continue_token cr key 60 f = Some f1 \<Longrightarrow> 117 \<le> length f \<Longrightarrow> length f1 = length f \<and> take 84 f1 = take 84 f"
proof -
  have p: "length p + 16 = length c" if "xchacha20poly1305_decrypt cr n k c = Some p" for n k c p
    using assms that unfolding aead_ok_def by blast
  have ov: "length (overwrite 84 p f) = length f \<and> take 84 (overwrite 84 p f) = take 84 f"
    if "84 + length p \<le> length f" for p :: bytes
    using that by (simp add: overwrite_def)
  show "relay_decrypt_route_token cr key 60 f = Some f1 \<Longrightarrow> 171 \<le> length f \<Longrightarrow> length f1 = length f \<and> take 84 f1 = take 84 f"
    by (auto simp: relay_decrypt_route_token_def length_window dest!: p intro!: ov)
  show "relay_decrypt_continue_token cr key 60 f = Some f1 \<Longrightarrow> 117 \<le> length f \<Longrightarrow> length f1 = length f \<and> take 84 f1 = take 84 f"
    by (auto simp: relay_decrypt_continue_token_def length_window dest!: p intro!: ov)
qed

lemma stripped_frame:
  assumes "length f1 = length f \<and> take 84 f1 = take 84 f" "42 \<le> n" "n + 60 \<le> length f" "n + 85 \<le> length f"
  shows "60 \<le> length (strip_token n t f1)" "length (strip_token n t f1) \<le> length f"
    "window 12 4 (strip_token n t f1) = window 12 4 f" "strip_token n t f1 ! 23 = f ! 23" "strip_token n t f1 ! 42 = t"
proof -
  have "42 + n + 43 \<le> length f1" using assms by simp
  note s = strip_token_facts [OF this assms(2), of t]
  have "window 12 4 f1 = window 12 4 (take 84 f1)" "window 12 4 f = window 12 4 (take 84 f)"
    by (simp_all add: window_take)
  then have w: "window 12 4 f1 = window 12 4 f" using assms(1) by simp
  have "take 84 f1 ! 23 = take 84 f ! 23" by (simp only: conjunct2 [OF assms(1)])
  then have n: "f1 ! 23 = f ! 23" by simp
  show "60 \<le> length (strip_token n t f1)" "length (strip_token n t f1) \<le> length f"
    "window 12 4 (strip_token n t f1) = window 12 4 f" "strip_token n t f1 ! 23 = f ! 23" "strip_token n t f1 ! 42 = t"
    using s w n assms by simp_all
qed

lemma redirect_sendable:
  assumes "relay_redirect_packet wl (forward_args cfg st (length f - 42) a p) f = (XDP_TX, g)"
    and "60 \<le> length f" "wf_whitelist wl" "wf_gateway (gateway_of cfg)" "f ! 42 \<noteq> 0" "f ! 42 \<le> 0x0E"
  shows "sendable st f g"
  using redirect_frame [OF assms(1-3)] assms(4-6) by (simp add: sendable_def forward_args_def)

lemma redirect_not_drop: "relay_redirect_packet wl args f = (v, g) \<Longrightarrow> v \<noteq> XDP_DROP \<Longrightarrow> v = XDP_TX"
  by (auto simp: redirect_eq split: option.splits)

lemma ping_reply:
  assumes "verdict (relay_ping_packet cr cfg st f m) = XDP_TX"
  shows "length f = 109" "current_timestamp st \<le> load64 68 f" "relay_map m (relay_map_key f) \<noteq> None"
    "\<exists>dst \<in> {relay_public_address cfg, relay_internal_address cfg}. ping_token_matches cr
       (ping_data st (load64 68 f) (ip_saddr f) (udp_source f) dst (udp_dest f)) (window 77 32 f)"
    "relay_ping_packet cr cfg st f m = reply_with_pong cfg st RELAY_PONG_PACKET 26 41
       RELAY_COUNTER_RELAY_PONG_PACKET_SENT f (INCREMENT_COUNTER RELAY_COUNTER_RELAY_PING_PACKET_RECEIVED m)"
  using assms by (auto simp: relay_ping_packet_def Let_def relay_simps not_less split: if_splits)

lemma client_ping_reply:
  assumes "verdict (relay_client_ping_packet cr cfg st f m) = XDP_TX"
  shows "length f = 116" "current_timestamp st \<le> load64 76 f"
    "ping_token_matches cr
       (ping_data st (load64 76 f) (ip_saddr f) 0 (relay_public_address cfg) (udp_dest f)) (window 84 32 f)"
    "relay_client_ping_packet cr cfg st f m = reply_with_pong cfg st RELAY_CLIENT_PONG_PACKET 34 40
       RELAY_COUNTER_CLIENT_PING_PACKET_RESPONDED_WITH_PONG f (INCREMENT_COUNTER RELAY_COUNTER_CLIENT_PING_PACKET_RECEIVED m)"
  using assms by (auto simp: relay_client_ping_packet_def Let_def relay_simps not_less split: if_splits)

lemma server_ping_reply:
  assumes "verdict (relay_server_ping_packet cr cfg st f m) = XDP_TX"
  shows "length f = 108" "current_timestamp st \<le> load64 68 f"
    "ping_token_matches cr
       (ping_data st (load64 68 f) (ip_saddr f) (udp_source f) (relay_public_address cfg) (udp_dest f)) (window 76 32 f)"
    "relay_server_ping_packet cr cfg st f m = reply_with_pong cfg st RELAY_SERVER_PONG_PACKET 26 40
       RELAY_COUNTER_SERVER_PING_PACKET_RESPONDED_WITH_PONG f (INCREMENT_COUNTER RELAY_COUNTER_SERVER_PING_PACKET_RECEIVED m)"
  using assms by (auto simp: relay_server_ping_packet_def Let_def relay_simps not_less split: if_splits)

lemma pong_not_sent: "verdict (relay_pong_packet st f m) \<noteq> XDP_TX"
  by (simp add: relay_pong_packet_def Let_def relay_simps)

lemma process_other:
  assumes "handler_of (f ! 42) = None"
  shows "relay_process_packet cr cfg st f m \<in>
    {relay_ping_packet cr cfg st f m, relay_client_ping_packet cr cfg st f m, relay_server_ping_packet cr cfg st f m,
     drop_packet RELAY_COUNTER_NOT_IN_WHITELIST f (length f) m, relay_pong_packet st f m,
     relay_route_request_packet cr cfg st f m, relay_continue_request_packet cr cfg st f m, drop_silently f m}"
  using assms by (simp add: relay_process_packet_def handler_of_def Let_def split: if_splits)

lemma process_sendable:
  assumes wl: "wf_whitelist (whitelist_map m)" and gw: "wf_gateway (gateway_of cfg)" and cr: "aead_ok cr"
    and len: "60 \<le> length f" and ty: "f ! 42 \<noteq> 0" "f ! 42 \<le> 0x0E"
    and tx: "verdict (relay_process_packet cr cfg st f m) = XDP_TX"
  shows "sendable st f (out_frame (relay_process_packet cr cfg st f m))"
proof (cases "handler_of (f ! 42)")
  case (Some h)
  then show ?thesis
  proof (cases rule: process_session_packet [of f h cr cfg st m])
    case drop
    then show ?thesis using tx by (simp add: relay_simps)
  next
    case (session c)
    then show ?thesis
    proof (cases rule: session_packet_cases [of cr cfg st h "length f - 42" f "INCREMENT_COUNTER c m"])
      case (forwarded s g)
      then show ?thesis
        using session redirect_sendable [OF _ len _ gw ty, of "whitelist_map m"] wl by (simp add: relay_simps)
    qed (use session tx in \<open>simp_all add: relay_simps\<close>)
  qed
next
  case None
  have route: ?thesis if e: "relay_process_packet cr cfg st f m = relay_route_request_packet cr cfg st f m"
  proof (cases rule: route_request_cases [of cr cfg st f m])
    case drop
    then show ?thesis using tx e by (simp add: relay_simps)
  next
    case (request f1 token session g v g' m2)
    have v: "v = XDP_TX" using request(7,10) tx e by (cases "v = XDP_DROP") (auto simp: relay_simps dest: redirect_not_drop)
    have "length f1 = length f \<and> take 84 f1 = take 84 f" using decrypt_length(1) [OF cr request(2)] request(1) by simp
    note s = stripped_frame [OF this, of 111 RELAY_ROUTE_REQUEST_PACKET, folded request(6)]
    have "sendable st g g'"
      using redirect_sendable [OF request(7) [unfolded v]] s request(1) wl gw by simp
    then show ?thesis using s request(1,10) v e by (auto simp: sendable_def)
  qed
  have cont: ?thesis if e: "relay_process_packet cr cfg st f m = relay_continue_request_packet cr cfg st f m"
  proof (cases rule: continue_request_cases [of cr cfg st f m])
    case drop
    then show ?thesis using tx e by (simp add: relay_simps)
  next
    case expired
    then show ?thesis using tx e by simp
  next
    case (request f1 token k s g v g' m2)
    have v: "v = XDP_TX" using request(8,11) tx e by (cases "v = XDP_DROP") (auto simp: relay_simps dest: redirect_not_drop)
    have "length f1 = length f \<and> take 84 f1 = take 84 f" using decrypt_length(2) [OF cr request(2)] request(1) by simp
    note s = stripped_frame [OF this, of 57 RELAY_CONTINUE_REQUEST_PACKET, folded request(7)]
    have "sendable st g g'"
      using redirect_sendable [OF request(8) [unfolded v]] s request(1) wl gw by simp
    then show ?thesis using s request(1,11) v e by (auto simp: sendable_def)
  qed
  let ?r = "relay_process_packet cr cfg st f m"
  have p: ?thesis if e: "?r = relay_ping_packet cr cfg st f m"
    using ping_reply [OF tx [unfolded e]] e gw by (simp add: reply_frame(1))
  have c: ?thesis if e: "?r = relay_client_ping_packet cr cfg st f m"
    using client_ping_reply [OF tx [unfolded e]] e gw by (simp add: reply_frame(1))
  have v: ?thesis if e: "?r = relay_server_ping_packet cr cfg st f m"
    using server_ping_reply [OF tx [unfolded e]] e gw by (simp add: reply_frame(1))
  have "?r \<noteq> drop_packet RELAY_COUNTER_NOT_IN_WHITELIST f (length f) m" "?r \<noteq> drop_silently f m"
    "?r \<noteq> relay_pong_packet st f m"
    using tx pong_not_sent by (auto simp: relay_simps)
  then show ?thesis using process_other [OF None, of cr cfg st m] p c v route cont by blast
qed

section \<open>What stays the same\<close>

lemma keeps_static_simps [simp]:
  "keeps_static m m"
  "keeps_static m (ADD_COUNTER i v m') = keeps_static m m'" "keeps_static m (INCREMENT_COUNTER i m') = keeps_static m m'"
  "keeps_static (INCREMENT_COUNTER i m) m' = keeps_static m m'"
  "keeps_static m (out_maps (drop_packet c f n m')) = keeps_static m m'"
  "keeps_static m (out_maps (drop_silently f m')) = keeps_static m m'"
  "keeps_static m (m'\<lparr>session_map := ss\<rparr>) = keeps_static m m'"
  by (simp_all add: keeps_static_def relay_simps)

lemma wf_whitelist_update:
  assumes "wf_whitelist wl" "\<And>v. x = Some v \<Longrightarrow> length (wl_source_address v) = 6 \<and> length (wl_dest_address v) = 6"
  shows "wf_whitelist (wl(k := x))"
  unfolding wf_whitelist_def
proof (intro allI impI)
  fix k' v assume "(wl(k := x)) k' = Some v"
  then show "length (wl_source_address v) = 6 \<and> length (wl_dest_address v) = 6"
    using assms unfolding wf_whitelist_def by (cases "k' = k") simp_all
qed

lemma keeps_static_refresh:
  assumes "keeps_static m m'"
  shows "keeps_static m (whitelist_refresh st k m')"
proof -
  have "wf_whitelist (whitelist_map m') \<Longrightarrow> wf_whitelist (whitelist_map (whitelist_refresh st k m'))"
    unfolding whitelist_refresh_def
    by (simp, rule wf_whitelist_update) (auto simp: wf_whitelist_def)
  then show ?thesis using assms by (simp add: keeps_static_def whitelist_ops_sel)
qed

lemma keeps_static_insert:
  assumes "60 \<le> length f" "keeps_static m m'"
  shows "keeps_static m (whitelist_insert st f m')"
proof -
  have e: "fst (map_update wl k v BPF_ANY) = wl(k \<mapsto> v)" for wl :: "whitelist_key \<Rightarrow> whitelist_value option" and k v
    by (simp add: map_update_def split: option.split)
  have "wf_whitelist (whitelist_map m') \<Longrightarrow> wf_whitelist (whitelist_map (whitelist_insert st f m'))"
    unfolding whitelist_insert_def e
    using assms(1) by (simp, intro wf_whitelist_update) (auto simp: buffer_simps)
  then show ?thesis using assms(2) by (simp add: keeps_static_def whitelist_ops_sel)
qed

lemma keeps_static_reply:
  "60 \<le> length f \<Longrightarrow> keeps_static m (out_maps (reply_with_pong cfg st t n k c f m))"
  by (simp add: reply_with_pong_def Let_def keeps_static_insert)

lemma keeps_static_pings:
  assumes "60 \<le> length f"
  shows "keeps_static m (out_maps (relay_ping_packet cr cfg st f m))"
    and "keeps_static m (out_maps (relay_client_ping_packet cr cfg st f m))"
    and "keeps_static m (out_maps (relay_server_ping_packet cr cfg st f m))"
    and "keeps_static m (out_maps (relay_pong_packet st f m))"
  using keeps_static_reply [OF assms, of "INCREMENT_COUNTER _ m"]
  by (simp_all add: relay_ping_packet_def relay_client_ping_packet_def relay_server_ping_packet_def
      relay_pong_packet_def Let_def keeps_static_refresh)

lemma keeps_static_same: "same_maps m m' \<Longrightarrow> keeps_static m m'"
  by (simp add: same_maps_def keeps_static_def)

lemma keeps_static_except_sessions: "same_maps m (m'\<lparr>session_map := session_map m\<rparr>) \<Longrightarrow> keeps_static m m'"
  by (simp add: same_maps_def keeps_static_def)

lemma keeps_static_process:
  assumes "60 \<le> length f"
  shows "keeps_static m (out_maps (relay_process_packet cr cfg st f m))"
proof (cases "handler_of (f ! 42)")
  case (Some h)
  then show ?thesis
  proof (cases rule: process_session_packet [of f h cr cfg st m])
    case drop
    then show ?thesis by (simp add: keeps_static_same)
  next
    case (session c)
    have "keeps_static m (out_maps (relay_session_packet cr cfg st h (length f - 42) f (INCREMENT_COUNTER c m)))"
      by (cases rule: session_packet_cases [of cr cfg st h "length f - 42" f "INCREMENT_COUNTER c m"])
         (simp_all add: keeps_static_refresh)
    then show ?thesis using session by simp
  qed
next
  case None
  have "keeps_static m (out_maps (relay_route_request_packet cr cfg st f m))"
    by (cases rule: route_request_cases [of cr cfg st f m])
       (auto simp: keeps_static_same keeps_static_refresh keeps_static_except_sessions)
  moreover have "keeps_static m (out_maps (relay_continue_request_packet cr cfg st f m))"
    by (cases rule: continue_request_cases [of cr cfg st f m])
       (auto simp: keeps_static_same keeps_static_refresh keeps_static_except_sessions)
  ultimately show ?thesis
    using process_other [OF None, of cr cfg st m] keeps_static_pings [OF assms]
    by (auto simp: relay_simps)
qed

lemma filter_keeps_static: "keeps_static m (out_maps (relay_xdp_filter cr f m))"
proof (cases rule: xdp_filter_cases [of f m cr])
  case untouched
  then show ?thesis by (simp add: untouched_def keeps_static_same)
next
  case (packet cfg st m')
  then show ?thesis
    using keeps_static_process [of f m' cr cfg st] by (simp add: keeps_static_def relay_simps)
qed

lemma filter_keeps_wf: "wf_maps m \<Longrightarrow> wf_maps (out_maps (relay_xdp_filter cr f m))"
  using filter_keeps_static [of m cr f] by (simp add: wf_maps_def keeps_static_def)

lemma basic_filter_type: "xdp_basic_packet_filter pd \<Longrightarrow> pd ! 0 \<noteq> 0 \<and> pd ! 0 \<le> 0x0E"
  by (auto simp: xdp_basic_packet_filter_def not_less)

lemma filter_sendable:
  assumes wf: "wf_maps m" and cr: "aead_ok cr" and st: "state_map m = Some st"
    and tx: "relay_xdp_filter cr f m = (XDP_TX, g, m')"
  shows "sendable st f g"
proof (cases rule: xdp_filter_cases [of f m cr])
  case untouched
  then show ?thesis using tx by (simp add: untouched_def)
next
  case (packet cfg st' m1)
  have "f ! 42 \<noteq> 0 \<and> f ! 42 \<le> 0x0E" using basic_filter_type [OF packet(10)] packet(8) by simp
  moreover have r: "relay_process_packet cr cfg st' f m1 = (XDP_TX, g, m')" using packet(13) tx by simp
  moreover have "wf_whitelist (whitelist_map m1)" using wf packet(12) by (simp add: wf_maps_def relay_simps)
  ultimately have "sendable st' f g"
    using process_sendable [of m1 cfg cr f st'] packet(8) cr wf_gateway_of [OF wf packet(1)] by simp
  then show ?thesis using st packet(2) by simp
qed

end
