(* ===== verification/Relay_Accounting.thy ===== *)
theory Relay_Accounting
  imports Relay_Output
begin

text \<open>
  The books of the datapath: every packet addressed to the relay that its filter sees is settled in
  the counters of \<open>relay_stats\<close> in exactly one way, as sent (with its bytes), as dropped, or as passed on.
\<close>

section \<open>Definitions\<close>

text \<open>How a call settles the packet it was given, on the three counters of packets sent, bytes sent and
  packets dropped.\<close>

definition settles :: "relay_maps \<Rightarrow> xdp_result \<Rightarrow> bool" where
  "settles m r \<longleftrightarrow>
     (\<forall>c. stats_map m = Some c \<longrightarrow>
        (\<exists>c'. stats_map (out_maps r) = Some c' \<and>
           (case verdict r of
              XDP_TX \<Rightarrow>
                c' RELAY_COUNTER_PACKETS_SENT = c RELAY_COUNTER_PACKETS_SENT + 1 \<and>
                c' RELAY_COUNTER_BYTES_SENT = c RELAY_COUNTER_BYTES_SENT + of_nat (length (out_frame r)) \<and>
                c' RELAY_COUNTER_DROPPED_PACKETS = c RELAY_COUNTER_DROPPED_PACKETS
            | XDP_DROP \<Rightarrow>
                c' RELAY_COUNTER_PACKETS_SENT = c RELAY_COUNTER_PACKETS_SENT \<and>
                c' RELAY_COUNTER_BYTES_SENT = c RELAY_COUNTER_BYTES_SENT \<and>
                c' RELAY_COUNTER_DROPPED_PACKETS = c RELAY_COUNTER_DROPPED_PACKETS + 1
            | XDP_PASS \<Rightarrow>
                c' RELAY_COUNTER_PACKETS_SENT = c RELAY_COUNTER_PACKETS_SENT \<and>
                c' RELAY_COUNTER_BYTES_SENT = c RELAY_COUNTER_BYTES_SENT \<and>
                c' RELAY_COUNTER_DROPPED_PACKETS = c RELAY_COUNTER_DROPPED_PACKETS
            | _ \<Rightarrow> False)))"

abbreviation plain_counter :: "nat \<Rightarrow> bool" where
  "plain_counter i \<equiv> i \<noteq> RELAY_COUNTER_PACKETS_SENT \<and> i \<noteq> RELAY_COUNTER_BYTES_SENT \<and> i \<noteq> RELAY_COUNTER_DROPPED_PACKETS"

section \<open>Lemmas\<close>

lemma settles_drop [simp]:
  "plain_counter c \<Longrightarrow> settles m (drop_packet c f n m)"
  "settles m (drop_silently f m)"
  by (auto simp: settles_def drop_packet_def drop_silently_def counter_maps)

lemma settles_pass: "stats_map m' = stats_map m \<Longrightarrow> settles m (XDP_PASS, f, m')"
  by (simp add: settles_def)

lemma settles_counter: "plain_counter i \<Longrightarrow> settles (INCREMENT_COUNTER i m) r \<Longrightarrow> settles m r"
  by (cases "verdict r"; cases "stats_map m") (auto simp: settles_def counter_maps)

lemma settles_sent:
  "plain_counter c \<Longrightarrow> stats_map m' = stats_map m \<Longrightarrow> n = length g \<Longrightarrow>
   settles m (XDP_TX, g, whitelist_refresh st k (ADD_COUNTER RELAY_COUNTER_BYTES_SENT (of_nat n)
      (INCREMENT_COUNTER RELAY_COUNTER_PACKETS_SENT (INCREMENT_COUNTER c m'))))"
  by (auto simp: settles_def relay_simps)

lemma settles_stats_eq: "stats_map m' = stats_map m \<Longrightarrow> settles m' r = settles m r"
  by (simp add: settles_def)

lemma handler_counters:
  assumes "handler_of t = Some h"
  shows "plain_counter (c_could_not_find_session h)" "plain_counter (c_session_expired h)"
    "plain_counter (c_already_received h)" "plain_counter (c_header_did_not_verify h)" "plain_counter (c_forward h)"
  using assms by (auto simp: handler_of_def handler_defs split: if_splits)

lemma settles_session:
  assumes "handler_of t = Some h"
  shows "settles m (relay_session_packet cr cfg st h n f m)"
proof -
  note c = handler_counters [OF assms]
  let ?s = "\<lambda>s. m\<lparr>session_map := (session_map m)(header_session_key f \<mapsto> set_sequence h (header_sequence f) s)\<rparr>"
  have blocked: "settles m (drop_packet RELAY_COUNTER_REDIRECT_NOT_IN_WHITELIST g k (?s s))" for g k s
    using settles_drop(1) [of RELAY_COUNTER_REDIRECT_NOT_IN_WHITELIST "?s s" g k] by (simp add: settles_def)
  have expired: "settles m (XDP_DROP, f, (out_maps (drop_packet (c_session_expired h) f k m))\<lparr>session_map := ss\<rparr>)" for k ss
    using settles_drop(1) [OF c(2), of m f k] by (simp add: settles_def relay_simps)
  have sent: "settles m (XDP_TX, g, whitelist_refresh st k (ADD_COUNTER RELAY_COUNTER_BYTES_SENT (of_nat (length g))
      (INCREMENT_COUNTER RELAY_COUNTER_PACKETS_SENT (INCREMENT_COUNTER (c_forward h) (?s s)))))" for g k s
    by (rule settles_sent) (use c in simp_all)
  show ?thesis
    unfolding relay_session_packet_def Let_def
    by (simp add: c blocked expired sent relay_simps split: option.split prod.split)
qed

lemma settles_reply:
  assumes "plain_counter c" "wf_gateway (gateway_of cfg)" "length f = 42 + n + trim" "18 \<le> n" "t \<noteq> 0" "t \<le> 0x0E"
  shows "settles m (reply_with_pong cfg st t n trim c f m)"
proof -
  have "length (out_frame (reply_with_pong cfg st t n trim c f m)) = n + 42"
    using reply_frame(2) [OF assms(2-6), of st c m] by simp
  moreover have "stats_map (out_maps (reply_with_pong cfg st t n trim c f m)) =
    map_option (\<lambda>s. ((s(RELAY_COUNTER_PACKETS_SENT := s RELAY_COUNTER_PACKETS_SENT + 1))
       (c := (s(RELAY_COUNTER_PACKETS_SENT := s RELAY_COUNTER_PACKETS_SENT + 1)) c + 1))
       (RELAY_COUNTER_BYTES_SENT := s RELAY_COUNTER_BYTES_SENT + of_nat (n + 42))) (stats_map m)"
    using assms(1) by (cases "stats_map m") (simp_all add: reply_with_pong_def Let_def relay_simps add.commute)
  ultimately show ?thesis using assms(1) by (auto simp: settles_def relay_simps)
qed

lemma settles_pings:
  assumes "wf_gateway (gateway_of cfg)"
  shows "settles m (relay_ping_packet cr cfg st f m)" "settles m (relay_client_ping_packet cr cfg st f m)"
    "settles m (relay_server_ping_packet cr cfg st f m)"
proof -
  have r: "settles (INCREMENT_COUNTER i m) (reply_with_pong cfg st t n trim c f (INCREMENT_COUNTER i m))"
    if "plain_counter c" "length f = 42 + n + trim" "18 \<le> n" "t \<noteq> 0" "t \<le> 0x0E" for i t n trim c
    using settles_reply assms that by blast
  show "settles m (relay_ping_packet cr cfg st f m)"
    by (rule settles_counter [of RELAY_COUNTER_RELAY_PING_PACKET_RECEIVED])
       (simp_all add: relay_ping_packet_def Let_def r)
  show "settles m (relay_client_ping_packet cr cfg st f m)"
    by (rule settles_counter [of RELAY_COUNTER_CLIENT_PING_PACKET_RECEIVED])
       (simp_all add: relay_client_ping_packet_def Let_def r)
  show "settles m (relay_server_ping_packet cr cfg st f m)"
    by (rule settles_counter [of RELAY_COUNTER_SERVER_PING_PACKET_RECEIVED])
       (simp_all add: relay_server_ping_packet_def Let_def r)
qed

lemma settles_pong: "settles m (relay_pong_packet st f m)"
  by (rule settles_counter [of RELAY_COUNTER_RELAY_PONG_PACKET_RECEIVED])
     (simp_all add: relay_pong_packet_def Let_def settles_pass relay_simps)

lemma settles_requests:
  "settles m (relay_route_request_packet cr cfg st f m)" "settles m (relay_continue_request_packet cr cfg st f m)"
proof -
  have drop: "settles m (drop_packet c f' n m')" if "plain_counter c" "stats_map m' = stats_map m" for c f' n and m m' :: relay_maps
    using settles_drop(1) [OF that(1), of m' f' n] settles_stats_eq [OF that(2)] by simp
  have del: "settles m (XDP_DROP, f', (out_maps (drop_packet c f' n m))\<lparr>session_map := ss\<rparr>)"
    if "plain_counter c" for c f' n ss and m :: relay_maps
    using settles_drop(1) [OF that, of m f' n] by (simp add: settles_def relay_simps)
  have sent: "settles m (XDP_TX, g, whitelist_refresh st k (ADD_COUNTER RELAY_COUNTER_BYTES_SENT (of_nat (length g))
      (INCREMENT_COUNTER RELAY_COUNTER_PACKETS_SENT (INCREMENT_COUNTER c m'))))"
    if "plain_counter c" "stats_map m' = stats_map m" for c g k and m m' :: relay_maps
    using settles_sent [OF that refl] .
  have c1: "settles m (drop_packet c f' n (INCREMENT_COUNTER i m'))"
    if "plain_counter c" "plain_counter i" "stats_map m' = stats_map m" for c f' n i and m m' :: relay_maps
    using settles_counter [OF that(2) settles_drop(1) [OF that(1)], of m' f' n] settles_stats_eq [OF that(3)] by simp
  have s1: "settles m (XDP_TX, g, whitelist_refresh st k (ADD_COUNTER RELAY_COUNTER_BYTES_SENT (of_nat (length g))
      (INCREMENT_COUNTER RELAY_COUNTER_PACKETS_SENT (INCREMENT_COUNTER c (INCREMENT_COUNTER i m')))))"
    if "plain_counter c" "plain_counter i" "stats_map m' = stats_map m" for c g k i and m m' :: relay_maps
    by (subst settles_stats_eq [OF that(3), symmetric])
       (rule settles_counter [OF that(2)], rule settles_sent [OF that(1) refl refl])
  have swap: "(INCREMENT_COUNTER i m)\<lparr>session_map := ss\<rparr> = INCREMENT_COUNTER i (m\<lparr>session_map := ss\<rparr>)" for i ss m
    by (simp add: INCREMENT_COUNTER_def ADD_COUNTER_def)
  show "settles m (relay_route_request_packet cr cfg st f m)"
    by (rule settles_counter [of RELAY_COUNTER_ROUTE_REQUEST_PACKET_RECEIVED])
       (simp_all add: relay_route_request_packet_def Let_def drop sent c1 s1 relay_simps split: option.split prod.split)
  show "settles m (relay_continue_request_packet cr cfg st f m)"
    by (rule settles_counter [of RELAY_COUNTER_CONTINUE_REQUEST_PACKET_RECEIVED])
       (simp_all add: relay_continue_request_packet_def Let_def drop sent c1 s1 del swap relay_simps split: option.split prod.split)
qed

lemma settles_session_handlers:
  "settles m (relay_route_response_packet cr cfg st f m)" "settles m (relay_continue_response_packet cr cfg st f m)"
  "settles m (relay_client_to_server_packet cr cfg st f m)" "settles m (relay_server_to_client_packet cr cfg st f m)"
  "settles m (relay_session_ping_packet cr cfg st f m)" "settles m (relay_session_pong_packet cr cfg st f m)"
proof -
  have h: "handler_of 2 = Some route_response_handler" "handler_of 8 = Some continue_response_handler"
    "handler_of 3 = Some client_to_server_handler" "handler_of 4 = Some server_to_client_handler"
    "handler_of 5 = Some session_ping_handler" "handler_of 6 = Some session_pong_handler"
    by (simp_all add: handler_of_def)
  note s = h [THEN settles_session]
  show "settles m (relay_route_response_packet cr cfg st f m)"
    by (rule settles_counter [of RELAY_COUNTER_ROUTE_RESPONSE_PACKET_RECEIVED])
       (simp_all add: relay_route_response_packet_def Let_def s)
  show "settles m (relay_continue_response_packet cr cfg st f m)"
    by (rule settles_counter [of RELAY_COUNTER_CONTINUE_RESPONSE_PACKET_RECEIVED])
       (simp_all add: relay_continue_response_packet_def Let_def s)
  show "settles m (relay_client_to_server_packet cr cfg st f m)"
    by (rule settles_counter [of RELAY_COUNTER_CLIENT_TO_SERVER_PACKET_RECEIVED])
       (simp_all add: relay_client_to_server_packet_def Let_def s)
  show "settles m (relay_server_to_client_packet cr cfg st f m)"
    by (rule settles_counter [of RELAY_COUNTER_SERVER_TO_CLIENT_PACKET_RECEIVED])
       (simp_all add: relay_server_to_client_packet_def Let_def s)
  show "settles m (relay_session_ping_packet cr cfg st f m)"
    by (rule settles_counter [of RELAY_COUNTER_SESSION_PING_PACKET_RECEIVED])
       (simp_all add: relay_session_ping_packet_def Let_def s)
  show "settles m (relay_session_pong_packet cr cfg st f m)"
    by (rule settles_counter [of RELAY_COUNTER_SESSION_PONG_PACKET_RECEIVED])
       (simp_all add: relay_session_pong_packet_def Let_def s)
qed

lemma settles_process:
  "wf_gateway (gateway_of cfg) \<Longrightarrow> settles m (relay_process_packet cr cfg st f m)"
  unfolding relay_process_packet_def Let_def
  by (simp add: settles_pings settles_pong settles_requests settles_session_handlers)

lemma settles_filter_packet:
  "wf_gateway (gateway_of cfg) \<Longrightarrow> settles m (relay_filter_packet cr cfg f m)"
  unfolding relay_filter_packet_def by (simp add: settles_process split: option.split)

lemma filter_settles:
  assumes "wf_maps m" "stats_map m = Some c" "config_map m = Some cfg"
    and "42 \<le> length f" "eth_proto f = ETH_P_IP" "ip_protocol f = 17" "ip_ihl f = 5" "to_relay cfg f"
  shows "settles m (relay_xdp_filter cr f m)"
    and "\<exists>c'. stats_map (out_maps (relay_xdp_filter cr f m)) = Some c'"
proof -
  let ?m = "ADD_COUNTER RELAY_COUNTER_BYTES_RECEIVED (of_nat (length f))
              (INCREMENT_COUNTER RELAY_COUNTER_PACKETS_RECEIVED m)"
  have e: "relay_xdp_filter cr f m = relay_filter_packet cr cfg f ?m"
    using assms(2-8) by (simp add: relay_xdp_filter_def)
  have "settles ?m (relay_filter_packet cr cfg f ?m)"
    by (rule settles_filter_packet) (rule wf_gateway_of [OF assms(1,3)])
  then show s: "settles m (relay_xdp_filter cr f m)"
    unfolding e settles_def using assms(2)
    by (cases "verdict (relay_filter_packet cr cfg f ?m)") (auto simp: counter_maps)
  show "\<exists>c'. stats_map (out_maps (relay_xdp_filter cr f m)) = Some c'"
    using s assms(2) by (auto simp: settles_def)
qed

end
