(* ===== verification/Relay_Admission.thy ===== *)
theory Relay_Admission
  imports Relay_Accounting
begin

text \<open>
  Who gets in: the whitelist grows only by a verified ping, a session only comes from a route token that
  decrypts and has not expired, and of the packets addressed to the relay only the pongs of known relays reach
  its socket.
\<close>

section \<open>Definitions\<close>

text \<open>A ping whose token verifies: what it takes to enter the whitelist.\<close>

definition verified_ping :: "crypto \<Rightarrow> relay_config \<Rightarrow> relay_state \<Rightarrow> bytes \<Rightarrow> relay_maps \<Rightarrow> bool" where
  "verified_ping cr cfg st f m \<longleftrightarrow>
     f ! 42 = RELAY_PING_PACKET \<and> length f = 109 \<and> current_timestamp st \<le> load64 68 f \<and>
       relay_map m (relay_map_key f) \<noteq> None \<and>
       (\<exists>dst \<in> {relay_public_address cfg, relay_internal_address cfg}. ping_token_matches cr
          (ping_data st (load64 68 f) (ip_saddr f) (udp_source f) dst (udp_dest f)) (window 77 32 f)) \<or>
     f ! 42 = RELAY_CLIENT_PING_PACKET \<and> length f = 116 \<and> current_timestamp st \<le> load64 76 f \<and>
       ping_token_matches cr (ping_data st (load64 76 f) (ip_saddr f) 0 (relay_public_address cfg) (udp_dest f))
         (window 84 32 f) \<or>
     f ! 42 = RELAY_SERVER_PING_PACKET \<and> length f = 108 \<and> current_timestamp st \<le> load64 68 f \<and>
       ping_token_matches cr
         (ping_data st (load64 68 f) (ip_saddr f) (udp_source f) (relay_public_address cfg) (udp_dest f))
         (window 76 32 f)"

abbreviation is_ping :: "bytes \<Rightarrow> bool" where
  "is_ping f \<equiv> f ! 42 = RELAY_PING_PACKET \<or> f ! 42 = RELAY_CLIENT_PING_PACKET \<or> f ! 42 = RELAY_SERVER_PING_PACKET"

definition opens_session :: "crypto \<Rightarrow> relay_config \<Rightarrow> relay_state \<Rightarrow> bytes \<Rightarrow> session_key \<Rightarrow> session_data \<Rightarrow> bool" where
  "opens_session cr cfg st f k s \<longleftrightarrow>
     f ! 42 = RELAY_ROUTE_REQUEST_PACKET \<and> 282 \<le> length f \<and>
     (case relay_decrypt_route_token cr (take 32 (relay_secret_key cfg)) 60 f of
        Some f1 \<Rightarrow> current_timestamp st \<le> rt_expire_timestamp (route_token_at 84 f1) \<and>
                   k = token_session_key (route_token_at 84 f1) \<and>
                   s = session_of_token (route_token_at 84 f1) (udp_source f1)
      | None \<Rightarrow> False)"

section \<open>The whitelist\<close>

lemma dom_refresh [simp]: "dom (whitelist_map (whitelist_refresh st k m)) = dom (whitelist_map m)"
  by (auto simp: whitelist_refresh_def)

lemma dom_insert: "dom (whitelist_map (whitelist_insert st f m)) = insert (source_key f) (dom (whitelist_map m))"
  by (auto simp: whitelist_insert_def map_update_def split: option.splits)

lemma ping_not_sent:
  "verdict (relay_ping_packet cr cfg st f m) \<noteq> XDP_TX \<Longrightarrow>
     whitelist_map (out_maps (relay_ping_packet cr cfg st f m)) = whitelist_map m"
  "verdict (relay_client_ping_packet cr cfg st f m) \<noteq> XDP_TX \<Longrightarrow>
     whitelist_map (out_maps (relay_client_ping_packet cr cfg st f m)) = whitelist_map m"
  "verdict (relay_server_ping_packet cr cfg st f m) \<noteq> XDP_TX \<Longrightarrow>
     whitelist_map (out_maps (relay_server_ping_packet cr cfg st f m)) = whitelist_map m"
  by (auto simp: relay_ping_packet_def relay_client_ping_packet_def relay_server_ping_packet_def Let_def
      relay_simps split: if_splits)

lemma process_ping:
  "f ! 42 = RELAY_PING_PACKET \<Longrightarrow> relay_process_packet cr cfg st f m = relay_ping_packet cr cfg st f m"
  "f ! 42 = RELAY_CLIENT_PING_PACKET \<Longrightarrow> relay_process_packet cr cfg st f m = relay_client_ping_packet cr cfg st f m"
  "f ! 42 = RELAY_SERVER_PING_PACKET \<Longrightarrow> relay_process_packet cr cfg st f m = relay_server_ping_packet cr cfg st f m"
  by (simp_all add: relay_process_packet_def)

lemma whitelist_requests:
  "dom (whitelist_map (out_maps (relay_route_request_packet cr cfg st f m))) = dom (whitelist_map m)"
  "dom (whitelist_map (out_maps (relay_continue_request_packet cr cfg st f m))) = dom (whitelist_map m)"
  "dom (whitelist_map (out_maps (relay_pong_packet st f m))) = dom (whitelist_map m)"
proof -
  show "dom (whitelist_map (out_maps (relay_route_request_packet cr cfg st f m))) = dom (whitelist_map m)"
  proof (cases rule: route_request_cases [of cr cfg st f m])
    case drop
    then show ?thesis by (simp add: relay_simps same_maps_def)
  next
    case request
    then show ?thesis by (simp add: relay_simps same_maps_def)
  qed
  show "dom (whitelist_map (out_maps (relay_continue_request_packet cr cfg st f m))) = dom (whitelist_map m)"
  proof (cases rule: continue_request_cases [of cr cfg st f m])
    case drop
    then show ?thesis by (simp add: relay_simps same_maps_def)
  next
    case expired
    then show ?thesis by (simp add: same_maps_def)
  next
    case request
    then show ?thesis by (simp add: relay_simps same_maps_def)
  qed
  show "dom (whitelist_map (out_maps (relay_pong_packet st f m))) = dom (whitelist_map m)"
    by (simp add: relay_pong_packet_def Let_def relay_simps)
qed

lemma whitelist_not_ping:
  assumes "\<not> is_ping f"
  shows "dom (whitelist_map (out_maps (relay_process_packet cr cfg st f m))) = dom (whitelist_map m)"
proof (cases "handler_of (f ! 42)")
  case (Some h)
  then show ?thesis
  proof (cases rule: process_session_packet [of f h cr cfg st m])
    case drop
    then show ?thesis by (simp add: relay_simps same_maps_def)
  next
    case (session c)
    have "dom (whitelist_map (out_maps (relay_session_packet cr cfg st h (length f - 42) f (INCREMENT_COUNTER c m))))
      = dom (whitelist_map m)"
      by (cases rule: session_packet_cases [of cr cfg st h "length f - 42" f "INCREMENT_COUNTER c m"])
         (simp_all add: relay_simps)
    then show ?thesis using session by simp
  qed
next
  case None
  then show ?thesis using assms
    by (simp add: relay_process_packet_def handler_of_def Let_def relay_simps whitelist_requests split: if_splits)
qed

lemma process_whitelist:
  "dom (whitelist_map (out_maps (relay_process_packet cr cfg st f m))) =
     (if is_ping f \<and> verdict (relay_process_packet cr cfg st f m) = XDP_TX
      then insert (source_key f) (dom (whitelist_map m)) else dom (whitelist_map m))"
proof (cases "is_ping f \<and> verdict (relay_process_packet cr cfg st f m) = XDP_TX")
  case False
  have "dom (whitelist_map (out_maps (relay_process_packet cr cfg st f m))) = dom (whitelist_map m)"
  proof (cases "is_ping f")
    case True
    then show ?thesis
      using False by (elim disjE) (simp_all add: process_ping ping_not_sent)
  next
    case np: False
    then show ?thesis by (rule whitelist_not_ping)
  qed
  with False show ?thesis by (simp only: if_False)
next
  case True
  have "dom (whitelist_map (out_maps (reply_with_pong cfg st t n k c f (INCREMENT_COUNTER i m)))) =
    insert (source_key f) (dom (whitelist_map m))" for t n k c i
    by (simp add: relay_simps dom_insert)
  moreover have "\<exists>t n k c i. relay_process_packet cr cfg st f m = reply_with_pong cfg st t n k c f (INCREMENT_COUNTER i m)"
    using True
    by (elim disjE conjE)
       (use ping_reply(5) client_ping_reply(4) server_ping_reply(4) in \<open>simp_all add: process_ping, blast+\<close>)
  ultimately have "dom (whitelist_map (out_maps (relay_process_packet cr cfg st f m))) = insert (source_key f) (dom (whitelist_map m))"
    by (elim exE) (simp del: dom_eq_empty_conv)
  with True show ?thesis by (simp only: if_True simp_thms)
qed

lemma ping_verified:
  assumes "is_ping f" "verdict (relay_process_packet cr cfg st f m) = XDP_TX"
  shows "verified_ping cr cfg st f m"
  using assms process_ping [of f cr cfg st m] ping_reply(1-4) [of cr cfg st f m]
    client_ping_reply(1-3) [of cr cfg st f m] server_ping_reply(1-3) [of cr cfg st f m]
  unfolding verified_ping_def by (elim disjE) simp_all

section \<open>Sessions come from route tokens\<close>

lemma process_creates_session:
  assumes "session_map m k = None" "session_map (out_maps (relay_process_packet cr cfg st f m)) k = Some s"
  shows "opens_session cr cfg st f k s \<and> whitelist_map m (source_key f) \<noteq> None"
proof (cases "handler_of (f ! 42)")
  case (Some h)
  then have "session_map (out_maps (relay_process_packet cr cfg st f m)) k = None"
  proof (cases rule: process_session_packet [of f h cr cfg st m])
    case drop
    then show ?thesis using assms(1) by (simp add: relay_simps same_maps_def)
  next
    case (session c)
    have "session_map (out_maps (relay_session_packet cr cfg st h (length f - 42) f (INCREMENT_COUNTER c m))) k = None"
      using assms(1)
      by (cases rule: session_packet_cases [of cr cfg st h "length f - 42" f "INCREMENT_COUNTER c m"])
         (auto simp: relay_simps can_forward_def)
    then show ?thesis using session by simp
  qed
  then show ?thesis using assms(2) by simp
next
  case None
  have pings: "session_map (out_maps (relay_ping_packet cr cfg st f m)) = session_map m"
    "session_map (out_maps (relay_client_ping_packet cr cfg st f m)) = session_map m"
    "session_map (out_maps (relay_server_ping_packet cr cfg st f m)) = session_map m"
    "session_map (out_maps (relay_pong_packet st f m)) = session_map m"
    by (simp_all add: relay_ping_packet_def relay_client_ping_packet_def relay_server_ping_packet_def
        relay_pong_packet_def Let_def relay_simps)
  have cont: "session_map (out_maps (relay_continue_request_packet cr cfg st f m)) k = None"
    using assms(1)
    by (cases rule: continue_request_cases [of cr cfg st f m]) (auto simp: relay_simps same_maps_def)
  have "relay_process_packet cr cfg st f m = relay_route_request_packet cr cfg st f m \<and>
    f ! 42 = RELAY_ROUTE_REQUEST_PACKET \<and> whitelist_map m (source_key f) \<noteq> None"
    using assms None pings cont
    by (simp add: relay_process_packet_def handler_of_def Let_def relay_simps split: if_splits)
  then have e: "relay_process_packet cr cfg st f m = relay_route_request_packet cr cfg st f m"
    "f ! 42 = RELAY_ROUTE_REQUEST_PACKET" "whitelist_map m (source_key f) \<noteq> None" by simp_all
  show ?thesis
  proof (cases rule: route_request_cases [of cr cfg st f m])
    case drop
    then show ?thesis using assms e(1) by (simp add: relay_simps same_maps_def)
  next
    case (request f1 token session g v g' m2)
    have "session_map m2 k = Some s" using request assms(2) e(1) by (simp add: relay_simps split: if_splits)
    then have "k = token_session_key token \<and> s = session"
      using assms(1) request(8) by (simp add: map_update_def split: if_splits option.splits)
    then show ?thesis using request e by (simp add: opens_session_def)
  qed
qed

lemma filter_creates_session:
  assumes "session_map m k = None" "session_map (out_maps (relay_xdp_filter cr f m)) k = Some s"
  shows "\<exists>cfg st. config_map m = Some cfg \<and> state_map m = Some st \<and> opens_session cr cfg st f k s \<and>
    whitelist_map m (source_key f) \<noteq> None \<and> xdp_basic_packet_filter (packet_data f) \<and> advanced_filter_any cfg st f"
proof (cases rule: xdp_filter_cases [of f m cr])
  case untouched
  then show ?thesis using assms by (simp add: untouched_def same_maps_def)
next
  case (packet cfg st m')
  then show ?thesis using assms process_creates_session [of m' k cr cfg st f s] by (simp add: relay_simps)
qed

lemma filter_whitelist:
  assumes "whitelist_map m k = None" "whitelist_map (out_maps (relay_xdp_filter cr f m)) k \<noteq> None"
  shows "\<exists>cfg st. config_map m = Some cfg \<and> state_map m = Some st \<and> k = source_key f \<and> verified_ping cr cfg st f m \<and>
    xdp_basic_packet_filter (packet_data f) \<and> advanced_filter_any cfg st f"
proof (cases rule: xdp_filter_cases [of f m cr])
  case untouched
  then show ?thesis using assms by (simp add: untouched_def same_maps_def)
next
  case (packet cfg st m')
  have k: "k \<in> dom (whitelist_map (out_maps (relay_process_packet cr cfg st f m')))" "k \<notin> dom (whitelist_map m')"
    using packet assms by (auto simp: relay_simps)
  then have "is_ping f \<and> verdict (relay_process_packet cr cfg st f m') = XDP_TX" "k = source_key f"
    unfolding process_whitelist by (auto split: if_splits)
  then have "verified_ping cr cfg st f m' \<and> k = source_key f" using ping_verified by blast
  moreover have "verified_ping cr cfg st f m' = verified_ping cr cfg st f m"
    using packet(12) by (simp add: verified_ping_def relay_simps)
  ultimately show ?thesis using packet by blast
qed

section \<open>What reaches the socket\<close>

lemma process_pass:
  assumes "verdict (relay_process_packet cr cfg st f m) = XDP_PASS"
  shows "relay_process_packet cr cfg st f m = relay_pong_packet st f m \<and> f ! 42 = RELAY_PONG_PACKET \<and>
    length f = 68 \<and> relay_map m (relay_map_key f) \<noteq> None \<and> whitelist_map m (source_key f) \<noteq> None"
proof (cases "handler_of (f ! 42)")
  case (Some h)
  then have "verdict (relay_process_packet cr cfg st f m) \<noteq> XDP_PASS"
  proof (cases rule: process_session_packet [of f h cr cfg st m])
    case drop
    then show ?thesis by (simp add: relay_simps)
  next
    case (session c)
    have "verdict (relay_session_packet cr cfg st h (length f - 42) f (INCREMENT_COUNTER c m)) \<noteq> XDP_PASS"
      by (cases rule: session_packet_cases [of cr cfg st h "length f - 42" f "INCREMENT_COUNTER c m"])
         (simp_all add: relay_simps)
    then show ?thesis using session by simp
  qed
  then show ?thesis using assms by simp
next
  case None
  have pings: "verdict (relay_ping_packet cr cfg st f m) \<noteq> XDP_PASS"
    "verdict (relay_client_ping_packet cr cfg st f m) \<noteq> XDP_PASS"
    "verdict (relay_server_ping_packet cr cfg st f m) \<noteq> XDP_PASS"
    by (simp_all add: relay_ping_packet_def relay_client_ping_packet_def relay_server_ping_packet_def
        Let_def relay_simps)
  have r: "verdict (relay_route_request_packet cr cfg st f m) \<noteq> XDP_PASS"
    by (cases rule: route_request_cases [of cr cfg st f m]) (simp_all add: relay_simps)
  have c: "verdict (relay_continue_request_packet cr cfg st f m) \<noteq> XDP_PASS"
    by (cases rule: continue_request_cases [of cr cfg st f m]) (simp_all add: relay_simps)
  have "relay_process_packet cr cfg st f m = relay_pong_packet st f m \<and> f ! 42 = RELAY_PONG_PACKET \<and>
     whitelist_map m (source_key f) \<noteq> None"
    using assms None pings r c
    by (simp add: relay_process_packet_def handler_of_def Let_def relay_simps split: if_splits)
  then show ?thesis using assms
    by (simp add: relay_pong_packet_def Let_def relay_simps split: if_splits)
qed

end
