(* ===== verification/Relay_Manager.thy ===== *)
theory Relay_Manager
  imports Complex_Main Relay_Types
begin

text \<open>
  The relays this relay pings and what it knows of them: \<open>relay/xdp/relay_ping_history.c\<close> (the last 64 pings
  to a relay and the statistics drawn from them) and \<open>relay/xdp/relay_manager.c\<close> (the table of relays).
\<close>

section \<open>Definitions\<close>

text \<open>Constants of \<open>relay_constants.h\<close>.\<close>

abbreviation (input) MAX_RELAYS :: nat where "MAX_RELAYS \<equiv> 1024"

abbreviation (input) RELAY_PING_HISTORY_SIZE :: nat where "RELAY_PING_HISTORY_SIZE \<equiv> 64"

abbreviation (input) RELAY_PING_STATS_WINDOW :: rat where "RELAY_PING_STATS_WINDOW \<equiv> 10"

abbreviation (input) RELAY_PING_SAFETY :: rat where "RELAY_PING_SAFETY \<equiv> 1"

abbreviation (input) RELAY_PING_TIME :: rat where "RELAY_PING_TIME \<equiv> 1 / 10"

text \<open>Times are \<open>double\<close>s in the code and rational numbers here; rounding is not modelled. A \<open>float\<close> is a
  rational number or the infinity that a product beyond \<open>FLT_MAX\<close> yields.\<close>

type_synonym time = rat

datatype float32 = Fin rat | Infinity

definition FLT_MAX :: rat where
  "FLT_MAX = (2 ^ 24 - 1) * 2 ^ 104"

definition float_of :: "rat \<Rightarrow> float32" where
  "float_of x = (if FLT_MAX < x then Infinity else Fin x)"

text \<open>Ping history, \<open>relay_ping_history.c\<close>.\<close>

record ping_entry =
  entry_sequence :: u64
  time_ping_sent :: time
  time_pong_received :: time

record ping_history =
  history_sequence :: u64
  history_entries :: "ping_entry list"

record ping_history_stats =
  stat_rtt :: float32
  stat_jitter :: float32
  stat_packet_loss :: rat

definition relay_ping_history_clear :: "ping_history \<Rightarrow> ping_history" where
  "relay_ping_history_clear history =
     history\<lparr>history_sequence := 0,
       history_entries := replicate RELAY_PING_HISTORY_SIZE
         \<lparr>entry_sequence = 0xFFFFFFFFFFFFFFFF, time_ping_sent = - 1, time_pong_received = - 1\<rparr>\<rparr>"

definition history_index :: "u64 \<Rightarrow> nat" where
  "history_index s = unat s mod RELAY_PING_HISTORY_SIZE"

definition relay_ping_history_ping_sent :: "ping_history \<Rightarrow> time \<Rightarrow> ping_history \<times> u64" where
  "relay_ping_history_ping_sent history t =
     (let entry = \<lparr>entry_sequence = history_sequence history, time_ping_sent = t, time_pong_received = - 1\<rparr>
      in (history\<lparr>history_entries := (history_entries history)[history_index (history_sequence history) := entry],
            history_sequence := history_sequence history + 1\<rparr>,
          entry_sequence entry))"

definition relay_ping_history_pong_received :: "ping_history \<Rightarrow> u64 \<Rightarrow> time \<Rightarrow> ping_history" where
  "relay_ping_history_pong_received history s t =
     (let index = history_index s; entry = history_entries history ! index
      in if entry_sequence entry = s
         then history\<lparr>history_entries := (history_entries history)[index := entry\<lparr>time_pong_received := t\<rparr>]\<rparr>
         else history)"

definition ping_in_window :: "time \<Rightarrow> time \<Rightarrow> ping_entry \<Rightarrow> bool" where
  "ping_in_window start finish e \<longleftrightarrow> start \<le> time_ping_sent e \<and> time_ping_sent e \<le> finish"

text \<open>The first loop counts pings and pongs, the second finds the smallest round trip time, the third sums up how
  much the others exceed it.\<close>

definition count_pings :: "time \<Rightarrow> time \<Rightarrow> ping_entry list \<Rightarrow> nat \<times> nat" where
  "count_pings start finish es =
     fold (\<lambda>e (sent, received).
        if ping_in_window start finish e
        then (sent + 1, if time_ping_sent e \<le> time_pong_received e then received + 1 else received)
        else (sent, received)) es (0, 0)"

definition min_rtt :: "time \<Rightarrow> time \<Rightarrow> ping_entry list \<Rightarrow> rat" where
  "min_rtt start finish es =
     fold (\<lambda>e m.
        if ping_in_window start finish e \<and> time_ping_sent e < time_pong_received e
        then (let rtt = time_pong_received e - time_ping_sent e in if rtt < m then rtt else m)
        else m) es FLT_MAX"

definition sum_jitter :: "rat \<Rightarrow> time \<Rightarrow> time \<Rightarrow> ping_entry list \<Rightarrow> nat \<times> rat" where
  "sum_jitter m start finish es =
     fold (\<lambda>e (n, s).
        if ping_in_window start finish e \<and> time_ping_sent e < time_pong_received e
        then (n + 1, s + (time_pong_received e - time_ping_sent e - m))
        else (n, s)) es (0, 0)"

definition relay_ping_history_get_stats :: "ping_history \<Rightarrow> time \<Rightarrow> time \<Rightarrow> rat \<Rightarrow> ping_history_stats" where
  "relay_ping_history_get_stats history start finish ping_safety =
     (let es = history_entries history;
          (num_pings_sent, num_pongs_received) = count_pings start (finish - ping_safety) es;
          packet_loss = (if 0 < num_pings_sent
                         then 100 * (1 - of_nat num_pongs_received / of_nat num_pings_sent) else 100);
          m = min_rtt start finish es;
          (num_jitter_samples, jitter_sum) = sum_jitter m start finish es
      in \<lparr>stat_rtt = float_of (1000 * m),
          stat_jitter = (if 0 < num_jitter_samples
                         then float_of (1000 * (jitter_sum / of_nat num_jitter_samples)) else Fin 0),
          stat_packet_loss = packet_loss\<rparr>)"

text \<open>Relay manager, \<open>relay_manager.c\<close>.\<close>

text \<open>The parallel arrays of \<open>struct relay_set\<close> and \<open>struct relay_manager_t\<close> are lists of records;
  their \<open>num_relays\<close> is the length.\<close>

record relay_info =
  relay_id :: u64
  relay_address :: u32
  info_port :: u16
  relay_internal :: u8

type_synonym relay_set = "relay_info list"

record managed_relay =
  relay_info :: relay_info
  relay_last_ping_time :: time
  relay_ping_history :: ping_history

type_synonym relay_manager = "managed_relay list"

definition relay_manager_reset :: "relay_manager \<Rightarrow> relay_manager" where
  "relay_manager_reset manager = []"

definition relay_in_set :: "u64 \<Rightarrow> relay_set \<Rightarrow> bool" where
  "relay_in_set i rs \<longleftrightarrow> list_ex (\<lambda>r. relay_id r = i) rs"

definition distribute_ping_times :: "time \<Rightarrow> relay_manager \<Rightarrow> relay_manager" where
  "distribute_ping_times current_time manager =
     map (\<lambda>(i, r). r\<lparr>relay_last_ping_time :=
            current_time - RELAY_PING_TIME + of_nat i * RELAY_PING_TIME / of_nat (length manager)\<rparr>)
       (enumerate 0 manager)"

text \<open>
  The ping histories of new relays are allocated and never cleared: \<open>fresh i\<close> is what the memory of the \<open>i\<close>th
  of them happens to hold. The arrays on the stack have room for \<open>MAX_RELAYS\<close> relays; \<open>None\<close> is the write
  beyond their end.
\<close>

definition relay_manager_update ::
  "(nat \<Rightarrow> ping_history) \<Rightarrow> time \<Rightarrow> relay_manager \<Rightarrow> relay_set \<Rightarrow> relay_set \<Rightarrow> relay_manager option" where
  "relay_manager_update fresh current_time manager new_relays delete_relays =
     (if new_relays = [] \<and> delete_relays = [] then Some manager
      else
        let kept = filter (\<lambda>r. \<not> relay_in_set (relay_id (relay_info r)) delete_relays) manager;
            added = map (\<lambda>(i, r). \<lparr>relay_info = r, relay_last_ping_time = 0, relay_ping_history = fresh i\<rparr>)
                      (enumerate 0 new_relays);
            relays = kept @ added
        in if MAX_RELAYS < length relays then None
           else Some (distribute_ping_times current_time relays))"

fun relay_manager_process_pong :: "relay_manager \<Rightarrow> u32 \<Rightarrow> u16 \<Rightarrow> u64 \<Rightarrow> time \<Rightarrow> relay_manager \<times> bool" where
  "relay_manager_process_pong [] from_address from_port s t = ([], False)"
| "relay_manager_process_pong (r # rs) from_address from_port s t =
     (if from_address = relay_address (relay_info r) \<and> from_port = info_port (relay_info r)
      then (r\<lparr>relay_ping_history := relay_ping_history_pong_received (relay_ping_history r) s t\<rparr> # rs, True)
      else case relay_manager_process_pong rs from_address from_port s t of (rs', b) \<Rightarrow> (r # rs', b))"

definition relay_manager_get_ping_stats :: "relay_manager \<Rightarrow> time \<Rightarrow> (u64 \<times> ping_history_stats) list" where
  "relay_manager_get_ping_stats manager current_time =
     map (\<lambda>r. (relay_id (relay_info r),
                relay_ping_history_get_stats (relay_ping_history r)
                  (current_time - RELAY_PING_STATS_WINDOW) current_time RELAY_PING_SAFETY)) manager"

text \<open>Reference definitions: the answered pings of a window and their round trip times.\<close>

definition history_inv :: "ping_history \<Rightarrow> bool" where
  "history_inv h \<longleftrightarrow> length (history_entries h) = RELAY_PING_HISTORY_SIZE"

definition answered :: "time \<Rightarrow> time \<Rightarrow> ping_entry list \<Rightarrow> ping_entry list" where
  "answered start finish es =
     filter (\<lambda>e. ping_in_window start finish e \<and> time_ping_sent e < time_pong_received e) es"

definition rtt_of :: "ping_entry \<Rightarrow> rat" where
  "rtt_of e = time_pong_received e - time_ping_sent e"

fun send_pings :: "ping_history \<Rightarrow> time list \<Rightarrow> ping_history" where
  "send_pings h [] = h"
| "send_pings h (t # ts) = send_pings (fst (relay_ping_history_ping_sent h t)) ts"

definition example_history :: ping_history where
  "example_history =
     \<lparr>history_sequence = 2, history_entries =
        [\<lparr>entry_sequence = 0, time_ping_sent = 1, time_pong_received = 4\<rparr>,
         \<lparr>entry_sequence = 1, time_ping_sent = 2, time_pong_received = 4\<rparr>]\<rparr>"

definition example_relay :: "u64 \<Rightarrow> managed_relay" where
  "example_relay i =
     \<lparr>relay_info = \<lparr>relay_id = i, relay_address = 7, info_port = 8, relay_internal = 0\<rparr>,
      relay_last_ping_time = 0, relay_ping_history = example_history\<rparr>"

section \<open>Ping history\<close>

lemma count_pings_eq:
  "count_pings start finish es =
     (length (filter (ping_in_window start finish) es),
      length (filter (\<lambda>e. ping_in_window start finish e \<and> time_ping_sent e \<le> time_pong_received e) es))"
proof -
  have "fold (\<lambda>e (s, r). if ping_in_window start finish e
        then (s + 1, if time_ping_sent e \<le> time_pong_received e then r + 1 else r) else (s, r)) es (a, b) =
     (a + length (filter (ping_in_window start finish) es),
      b + length (filter (\<lambda>e. ping_in_window start finish e \<and> time_ping_sent e \<le> time_pong_received e) es))" for a b
    by (induction es arbitrary: a b) simp_all
  from this [of 0 0] show ?thesis by (simp add: count_pings_def)
qed

lemma received_le_sent: "snd (count_pings start finish es) \<le> fst (count_pings start finish es)"
proof -
  have "length (filter (\<lambda>e. P e \<and> Q e) es) \<le> length (filter P es)" for P Q and es :: "ping_entry list"
    by (induction es) auto
  then show ?thesis by (simp add: count_pings_eq)
qed

lemma min_rtt_eq: "min_rtt start finish es = Min (insert FLT_MAX (rtt_of ` set (answered start finish es)))"
proof -
  have "fold (\<lambda>e m. if ping_in_window start finish e \<and> time_ping_sent e < time_pong_received e
        then (let rtt = time_pong_received e - time_ping_sent e in if rtt < m then rtt else m) else m) es a =
     Min (insert a (rtt_of ` set (answered start finish es)))" for a
  proof (induction es arbitrary: a)
    case (Cons e es)
    have m: "Min (insert (if x < a then x else a) S) = Min (insert a (insert x S))" if "finite S" for x S
      using that by (cases "S = {}") (auto simp: min_def)
    show ?case using Cons by (simp add: answered_def Let_def rtt_of_def [symmetric] m)
  qed (simp add: answered_def)
  then show ?thesis by (simp add: min_rtt_def)
qed

lemma sum_jitter_eq:
  "sum_jitter m start finish es =
     (length (answered start finish es), (\<Sum>e \<leftarrow> answered start finish es. rtt_of e - m))"
proof -
  have "fold (\<lambda>e (n, s). if ping_in_window start finish e \<and> time_ping_sent e < time_pong_received e
        then (n + 1, s + (time_pong_received e - time_ping_sent e - m)) else (n, s)) es (a, b) =
     (a + length (answered start finish es), b + (\<Sum>e \<leftarrow> answered start finish es. rtt_of e - m))" for a b
    by (induction es arbitrary: a b) (simp_all add: answered_def rtt_of_def)
  from this [of 0 0] show ?thesis by (simp add: sum_jitter_def)
qed

lemma rtt_ge_min: "e \<in> set (answered start finish es) \<Longrightarrow> min_rtt start finish es \<le> rtt_of e"
  by (simp add: min_rtt_eq)

lemma min_rtt_pos: "0 < min_rtt start finish es"
proof -
  have "0 < rtt_of e" if "e \<in> set (answered start finish es)" for e
    using that by (auto simp: answered_def rtt_of_def)
  moreover have "0 < FLT_MAX" by (simp add: FLT_MAX_def)
  ultimately show ?thesis by (simp add: min_rtt_eq)
qed

lemma history_index_less: "history_index s < 64"
  by (simp add: history_index_def)

lemma history_index_plus: "history_index (s + of_nat k) = (history_index s + k) mod 64"
proof -
  have "unat (s + of_nat k) = (unat s + k) mod 2 ^ 64"
    by (simp add: unsigned_of_nat unat_word_ariths mod_add_right_eq take_bit_eq_mod)
  moreover have "(n mod 2 ^ 64) mod 64 = n mod (64::nat)" for n
    by (rule mod_mod_cancel) simp
  ultimately show ?thesis by (simp add: history_index_def mod_add_left_eq)
qed

lemma send_pings_facts:
  "length ts < 64 \<Longrightarrow> history_inv h \<Longrightarrow>
   history_inv (send_pings h ts) \<and>
   (\<forall>i. (\<forall>k < length ts. i \<noteq> history_index (history_sequence h + of_nat k)) \<longrightarrow>
        history_entries (send_pings h ts) ! i = history_entries h ! i)"
proof (induction ts arbitrary: h)
  case (Cons t ts)
  let ?h = "fst (relay_ping_history_ping_sent h t)"
  have h: "history_inv ?h" "history_sequence ?h = history_sequence h + 1"
    "i \<noteq> history_index (history_sequence h) \<Longrightarrow> history_entries ?h ! i = history_entries h ! i" for i
    using Cons.prems by (simp_all add: relay_ping_history_ping_sent_def Let_def history_inv_def)
  have "history_entries (send_pings ?h ts) ! i = history_entries h ! i"
    if i: "\<forall>k < length (t # ts). i \<noteq> history_index (history_sequence h + of_nat k)" for i
  proof -
    have "i \<noteq> history_index (history_sequence ?h + of_nat k)" if "k < length ts" for k
      using i [rule_format, of "Suc k"] that h(2) by (simp add: add.assoc)
    moreover have "i \<noteq> history_index (history_sequence h)" using i [rule_format, of 0] by simp
    ultimately show ?thesis using Cons.IH [of ?h] Cons.prems h by simp
  qed
  then show ?case using Cons.IH [of ?h] Cons.prems h by simp
qed simp

lemma ping_still_there:
  assumes "history_inv h" "length ts < 64" "relay_ping_history_ping_sent h t = (h1, s)"
  shows "history_entries (send_pings h1 ts) ! history_index s =
    \<lparr>entry_sequence = s, time_ping_sent = t, time_pong_received = - 1\<rparr>" "history_inv (send_pings h1 ts)"
proof -
  have s: "s = history_sequence h" "history_sequence h1 = s + 1" "history_inv h1"
    "history_entries h1 ! history_index s = \<lparr>entry_sequence = s, time_ping_sent = t, time_pong_received = - 1\<rparr>"
    using assms(1,3) history_index_less
    by (auto simp: relay_ping_history_ping_sent_def Let_def history_inv_def)
  have "history_index s \<noteq> history_index (history_sequence h1 + of_nat k)" if "k < length ts" for k
  proof -
    have "history_index (history_sequence h1 + of_nat k) = (history_index s + Suc k) mod 64"
      using history_index_plus [of s "Suc k"] s(2) by (simp add: add.assoc)
    moreover have "Suc k < 64" using that assms(2) by simp
    ultimately show ?thesis using ring_shift [OF history_index_less [of s], of "Suc k"] by simp
  qed
  then show "history_entries (send_pings h1 ts) ! history_index s =
    \<lparr>entry_sequence = s, time_ping_sent = t, time_pong_received = - 1\<rparr>" "history_inv (send_pings h1 ts)"
    using send_pings_facts [OF assms(2) s(3)] s(4) by simp_all
qed

lemma pong_recorded:
  assumes "history_inv h" "history_entries h ! history_index s = e" "entry_sequence e = s"
  shows "history_entries (relay_ping_history_pong_received h s t) ! history_index s = e\<lparr>time_pong_received := t\<rparr>"
    "s' \<noteq> s \<Longrightarrow> history_entries (relay_ping_history_pong_received h s' t) ! history_index s = e"
proof -
  have l: "history_index x < length (history_entries h)" for x
    using assms(1) history_index_less [of x] by (simp add: history_inv_def)
  show "history_entries (relay_ping_history_pong_received h s t) ! history_index s = e\<lparr>time_pong_received := t\<rparr>"
    using assms l by (simp add: relay_ping_history_pong_received_def)
  assume "s' \<noteq> s"
  then show "history_entries (relay_ping_history_pong_received h s' t) ! history_index s = e"
    using assms(2,3) by (cases "history_index s' = history_index s") (auto simp: relay_ping_history_pong_received_def Let_def)
qed

lemma stats_sel:
  "stat_packet_loss (relay_ping_history_get_stats h start finish safety) =
     (let (n, k) = count_pings start (finish - safety) (history_entries h)
      in if 0 < n then 100 * (1 - of_nat k / of_nat n) else 100)"
  "stat_rtt (relay_ping_history_get_stats h start finish safety) =
     float_of (1000 * min_rtt start finish (history_entries h))"
  "stat_jitter (relay_ping_history_get_stats h start finish safety) =
     (let (n, s) = sum_jitter (min_rtt start finish (history_entries h)) start finish (history_entries h)
      in if 0 < n then float_of (1000 * (s / of_nat n)) else Fin 0)"
  by (simp_all add: relay_ping_history_get_stats_def Let_def split: prod.split)

lemma loss_bounds:
  "0 \<le> stat_packet_loss (relay_ping_history_get_stats h start finish safety) \<and>
   stat_packet_loss (relay_ping_history_get_stats h start finish safety) \<le> 100"
proof -
  obtain n k where c: "count_pings start (finish - safety) (history_entries h) = (n, k)" by fastforce
  then have "k \<le> n" using received_le_sent [of start "finish - safety" "history_entries h"] by simp
  then have "0 < n \<Longrightarrow> 100 * (of_nat k :: rat) / of_nat n \<le> 100"
    by (simp add: divide_le_eq)
  then show ?thesis by (auto simp: stats_sel c right_diff_distrib)
qed

lemma average_bounds:
  fixes xs :: "rat list"
  assumes "xs \<noteq> []" "\<forall>x \<in> set xs. 0 \<le> x \<and> x \<le> b"
  shows "0 \<le> sum_list xs / of_nat (length xs) \<and> sum_list xs / of_nat (length xs) \<le> b"
proof -
  have "0 \<le> sum_list xs \<and> sum_list xs \<le> of_nat (length xs) * b"
    using assms(2) by (induction xs) (auto simp: algebra_simps)
  then show ?thesis using assms(1) by (simp add: divide_le_eq mult.commute)
qed

lemma answered_stats:
  fixes start finish safety h
  defines "A \<equiv> answered start finish (history_entries h)" and "st \<equiv> relay_ping_history_get_stats h start finish safety"
  assumes "A \<noteq> []" "\<forall>e \<in> set A. rtt_of e \<le> FLT_MAX / 1000"
  shows "stat_rtt st = Fin (1000 * Min (rtt_of ` set A))" "\<exists>j. stat_jitter st = Fin j \<and> 0 \<le> j"
proof -
  let ?m = "min_rtt start finish (history_entries h)"
  have b: "0 < FLT_MAX" "FLT_MAX / 1000 < FLT_MAX" by (simp_all add: FLT_MAX_def)
  obtain e where e: "e \<in> set A" using assms(3) by (meson last_in_set)
  then have le: "Min (rtt_of ` set A) \<le> FLT_MAX / 1000"
    using assms(4) by (meson Min_le finite_imageI finite_set imageI order_trans)
  then have m: "?m = Min (rtt_of ` set A)"
    using e b unfolding min_rtt_eq A_def [symmetric] by (subst Min_insert) auto
  then show "stat_rtt st = Fin (1000 * Min (rtt_of ` set A))"
    using le b by (simp add: st_def stats_sel float_of_def not_less)
  define c where "c = FLT_MAX / 1000"
  have "0 \<le> rtt_of x - ?m \<and> rtt_of x - ?m \<le> c" if "x \<in> set A" for x
    using that assms(4) [folded c_def] rtt_ge_min [of x start finish "history_entries h"]
      min_rtt_pos [of start finish "history_entries h"] by (fastforce simp: A_def)
  then have j: "0 \<le> (\<Sum>e \<leftarrow> A. rtt_of e - ?m) / of_nat (length A) \<and>
    (\<Sum>e \<leftarrow> A. rtt_of e - ?m) / of_nat (length A) \<le> c"
    using average_bounds [of "map (\<lambda>e. rtt_of e - ?m) A" c] assms(3) by simp
  then have "float_of (1000 * ((\<Sum>e \<leftarrow> A. rtt_of e - ?m) / of_nat (length A))) =
    Fin (1000 * ((\<Sum>e \<leftarrow> A. rtt_of e - ?m) / of_nat (length A)))"
    by (simp add: float_of_def not_less c_def mult.commute)
  then show "\<exists>j. stat_jitter st = Fin j \<and> 0 \<le> j"
    using assms(3) j by (simp add: st_def stats_sel sum_jitter_eq A_def [symmetric])
qed

lemma unanswered_stats:
  assumes "answered start finish (history_entries h) = []"
  shows "stat_rtt (relay_ping_history_get_stats h start finish safety) = Infinity"
    "stat_jitter (relay_ping_history_get_stats h start finish safety) = Fin 0"
  using assms by (simp_all add: stats_sel sum_jitter_eq min_rtt_eq float_of_def FLT_MAX_def)

section \<open>Relay manager\<close>

lemma map_enumerate_snd: "map (\<lambda>(i, r). f r) (enumerate n xs) = map f xs"
  by (induction xs arbitrary: n) simp_all

lemma distribute_facts:
  "map relay_info (distribute_ping_times t m) = map relay_info m"
  "map relay_ping_history (distribute_ping_times t m) = map relay_ping_history m"
  "r \<in> set (distribute_ping_times t m) \<Longrightarrow> t - 1 / 10 \<le> relay_last_ping_time r \<and> relay_last_ping_time r < t"
proof -
  show "map relay_info (distribute_ping_times t m) = map relay_info m"
    "map relay_ping_history (distribute_ping_times t m) = map relay_ping_history m"
    by (simp_all add: distribute_ping_times_def comp_def split_def map_enumerate_snd [unfolded split_def])
  assume "r \<in> set (distribute_ping_times t m)"
  then obtain i where i: "i < length m"
    "relay_last_ping_time r = t - 1 / 10 + of_nat i * (1 / 10) / of_nat (length m)"
    by (auto simp: distribute_ping_times_def in_set_enumerate_eq)
  have "(of_nat i * (1 / 10) / of_nat (length m) :: rat) < 1 / 10" using i(1) by (simp add: divide_less_eq)
  then show "t - 1 / 10 \<le> relay_last_ping_time r \<and> relay_last_ping_time r < t" using i(2) by simp
qed

lemma manager_update_infos:
  assumes "relay_manager_update fresh t m new del = Some m'"
  shows "map relay_info m' = filter (\<lambda>r. \<not> relay_in_set (relay_id r) del) (map relay_info m) @ new"
proof -
  have f: "filter (\<lambda>r. \<not> relay_in_set (relay_id r) del) (map relay_info m) =
    map relay_info (filter (\<lambda>r. \<not> relay_in_set (relay_id (relay_info r)) del) m)"
    by (simp add: filter_map comp_def)
  show ?thesis using assms unfolding f
    by (auto simp: relay_manager_update_def Let_def distribute_facts relay_in_set_def comp_def
        map_enumerate_snd [unfolded split_def] split_def split: if_splits)
qed

lemma manager_update_histories:
  assumes "relay_manager_update fresh t m new del = Some m'"
  shows "take (length m' - length new) (map (\<lambda>r. (relay_info r, relay_ping_history r)) m') =
    map (\<lambda>r. (relay_info r, relay_ping_history r)) (filter (\<lambda>r. \<not> relay_in_set (relay_id (relay_info r)) del) m)"
proof -
  let ?p = "\<lambda>r. (relay_info r, relay_ping_history r)"
  have d: "map ?p (distribute_ping_times t xs) = map ?p xs" for xs
    using map_enumerate_snd [of ?p 0 xs] by (simp add: distribute_ping_times_def comp_def split_def)
  have l: "length (distribute_ping_times t xs) = length xs" for xs by (simp add: distribute_ping_times_def)
  show ?thesis using assms
    by (auto simp: relay_manager_update_def Let_def d l relay_in_set_def split: if_splits)
qed

section \<open>Properties\<close>

text \<open>
  C31. A ping is matched with its pong as long as fewer than 64 pings follow it: the entry then holds the ping's
  sequence number, its time and the time of the pong, and a pong with another sequence number leaves it alone.
\<close>

theorem pong_is_matched_with_its_ping:
  assumes "history_inv h" "relay_ping_history_ping_sent h t = (h1, s)" "length ts < 64"
  shows "history_entries (relay_ping_history_pong_received (send_pings h1 ts) s t') ! history_index s =
      \<lparr>entry_sequence = s, time_ping_sent = t, time_pong_received = t'\<rparr> \<and>
    (s' \<noteq> s \<longrightarrow> history_entries (relay_ping_history_pong_received (send_pings h1 ts) s' t') ! history_index s =
      \<lparr>entry_sequence = s, time_ping_sent = t, time_pong_received = - 1\<rparr>)"
  using pong_recorded [OF ping_still_there(2,1) [OF assms(1,3,2)]] by simp

theorem pong_is_matched_with_its_ping_witness:
  "history_entries (relay_ping_history_pong_received (send_pings
      (fst (relay_ping_history_ping_sent (relay_ping_history_clear example_history) 5)) [6, 7]) 0 8) ! 0 =
    \<lparr>entry_sequence = 0, time_ping_sent = 5, time_pong_received = 8\<rparr>"
proof -
  have i: "history_inv (relay_ping_history_clear example_history)"
    by (simp add: history_inv_def relay_ping_history_clear_def)
  have p: "relay_ping_history_ping_sent (relay_ping_history_clear example_history) 5 =
    (fst (relay_ping_history_ping_sent (relay_ping_history_clear example_history) 5), 0)"
    by (simp add: relay_ping_history_ping_sent_def relay_ping_history_clear_def)
  show ?thesis using pong_is_matched_with_its_ping [OF i p, of "[6, 7]" 8 1]
    by (simp add: history_index_def)
qed

text \<open>
  C32. The statistics of a ping history are what they should be: the packet loss lies between 0 and 100 percent;
  when pings of the window were answered, the round trip time is the smallest one in milliseconds and the jitter is
  finite and not negative; when none was, the round trip time is infinite.
\<close>

theorem ping_statistics:
  "0 \<le> stat_packet_loss (relay_ping_history_get_stats h start finish safety) \<and>
   stat_packet_loss (relay_ping_history_get_stats h start finish safety) \<le> 100 \<and>
   (answered start finish (history_entries h) = [] \<longrightarrow>
      stat_rtt (relay_ping_history_get_stats h start finish safety) = Infinity \<and>
      stat_jitter (relay_ping_history_get_stats h start finish safety) = Fin 0) \<and>
   (answered start finish (history_entries h) \<noteq> [] \<and>
    (\<forall>e \<in> set (answered start finish (history_entries h)). rtt_of e \<le> FLT_MAX / 1000) \<longrightarrow>
      stat_rtt (relay_ping_history_get_stats h start finish safety) =
        Fin (1000 * Min (rtt_of ` set (answered start finish (history_entries h)))) \<and>
      (\<exists>j. stat_jitter (relay_ping_history_get_stats h start finish safety) = Fin j \<and> 0 \<le> j))"
  by (intro conjI impI loss_bounds [THEN conjunct1] loss_bounds [THEN conjunct2] unanswered_stats answered_stats) auto

theorem ping_statistics_witness:
  "stat_rtt (relay_ping_history_get_stats example_history 0 10 1) = Fin 2000"
proof -
  have a: "answered 0 10 (history_entries example_history) = history_entries example_history"
    by (simp add: example_history_def answered_def ping_in_window_def)
  have b: "\<forall>e \<in> set (history_entries example_history). rtt_of e \<le> FLT_MAX / 1000"
    by (simp add: example_history_def rtt_of_def FLT_MAX_def)
  show ?thesis using ping_statistics [of example_history 0 10 1] a b
    by (simp add: example_history_def rtt_of_def)
qed



end
