(* ===== verification/Relay_Queue.thy ===== *)
theory Relay_Queue
  imports Next_Prelude
begin

text \<open>
  The ring buffers that connect threads: \<open>relay/xdp/relay_queue.h\<close> (control and statistics messages of the
  relay) and \<open>sdk/include/next_queue.h\<close> (commands and notifications of the SDK). The locale \<open>bounded_fifo\<close>
  is what their users rely on; both rings are instances of it.
\<close>

section \<open>Definitions\<close>

text \<open>
  \<open>struct relay_queue_t\<close>: \<open>entries\<close> is an array of pointers allocated without initialisation, so a slot
  that holds no entry has an unspecified content; here it is \<open>None\<close>, as it is after \<open>relay_queue_clear\<close>.
\<close>

record 'a relay_queue =
  queue_size :: nat
  num_entries :: nat
  start_index :: nat
  entries :: "'a option list"

definition relay_queue_create :: "nat \<Rightarrow> 'a relay_queue" where
  "relay_queue_create n = \<lparr>queue_size = n, num_entries = 0, start_index = 0, entries = replicate n None\<rparr>"

fun clear_slots :: "nat \<Rightarrow> nat \<Rightarrow> nat \<Rightarrow> 'a option list \<Rightarrow> 'a option list" where
  "clear_slots sz start 0 es = es"
| "clear_slots sz start (Suc n) es = (clear_slots sz start n es)[(start + n) mod sz := None]"

definition relay_queue_clear :: "'a relay_queue \<Rightarrow> 'a relay_queue" where
  "relay_queue_clear q =
     q\<lparr>entries := clear_slots (queue_size q) (start_index q) (num_entries q) (entries q),
       num_entries := 0, start_index := 0\<rparr>"

definition relay_queue_full :: "'a relay_queue \<Rightarrow> bool" where
  "relay_queue_full q \<longleftrightarrow> num_entries q = queue_size q"

definition relay_queue_push :: "'a relay_queue \<Rightarrow> 'a \<Rightarrow> 'a relay_queue \<times> bool" where
  "relay_queue_push q entry =
     (if num_entries q = queue_size q then (q, False)
      else let index = (start_index q + num_entries q) mod queue_size q
           in (q\<lparr>entries := (entries q)[index := Some entry], num_entries := num_entries q + 1\<rparr>, True))"

definition relay_queue_pop :: "'a relay_queue \<Rightarrow> 'a relay_queue \<times> 'a option" where
  "relay_queue_pop q =
     (if num_entries q = 0 then (q, None)
      else let entry = entries q ! start_index q
           in (q\<lparr>start_index := (start_index q + 1) mod queue_size q, num_entries := num_entries q - 1\<rparr>, entry))"

text \<open>\<open>next_queue_t\<close> of the SDK is the same ring with a result code in place of the boolean.\<close>

abbreviation (input) NEXT_OK :: int where "NEXT_OK \<equiv> 0"

abbreviation (input) NEXT_ERROR :: int where "NEXT_ERROR \<equiv> - 1"

definition next_queue_push :: "'a relay_queue \<Rightarrow> 'a \<Rightarrow> 'a relay_queue \<times> int" where
  "next_queue_push q entry =
     (if num_entries q = queue_size q then (q, NEXT_ERROR)
      else let index = (start_index q + num_entries q) mod queue_size q
           in (q\<lparr>entries := (entries q)[index := Some entry], num_entries := num_entries q + 1\<rparr>, NEXT_OK))"

definition next_queue_pop :: "'a relay_queue \<Rightarrow> 'a relay_queue \<times> 'a option" where
  "next_queue_pop q =
     (if num_entries q = 0 then (q, None)
      else let entry = entries q ! start_index q
           in (q\<lparr>start_index := (start_index q + 1) mod queue_size q, num_entries := num_entries q - 1\<rparr>, entry))"

text \<open>The queue as a list, oldest entry first, and its invariant.\<close>

definition slot :: "'a relay_queue \<Rightarrow> nat \<Rightarrow> 'a option" where
  "slot q i = entries q ! ((start_index q + i) mod queue_size q)"

definition queue_list :: "'a relay_queue \<Rightarrow> 'a list" where
  "queue_list q = map (\<lambda>i. the (slot q i)) [0..<num_entries q]"

definition queue_inv :: "'a relay_queue \<Rightarrow> bool" where
  "queue_inv q \<longleftrightarrow>
     0 < queue_size q \<and> length (entries q) = queue_size q \<and> start_index q < queue_size q \<and>
     num_entries q \<le> queue_size q \<and> (\<forall>i < num_entries q. slot q i \<noteq> None)"

text \<open>
  The loop of \<open>main_update\<close> and \<open>ping_thread_function\<close> that pops messages until the queue is empty, at most
  \<open>n\<close> of them, and the sequence of pushes that fills it. The queue's operations are arguments, since both rings are
  used this way.
\<close>

fun queue_drain :: "('q \<Rightarrow> 'q \<times> 'a option) \<Rightarrow> nat \<Rightarrow> 'q \<Rightarrow> 'q \<times> 'a list" where
  "queue_drain pop 0 q = (q, [])"
| "queue_drain pop (Suc n) q =
     (case pop q of
        (q', None) \<Rightarrow> (q', [])
      | (q', Some x) \<Rightarrow> (case queue_drain pop n q' of (q'', xs) \<Rightarrow> (q'', x # xs)))"

fun queue_push_all :: "('q \<Rightarrow> 'a \<Rightarrow> 'q \<times> 'r) \<Rightarrow> 'q \<Rightarrow> 'a list \<Rightarrow> 'q" where
  "queue_push_all push q [] = q"
| "queue_push_all push q (x # xs) = queue_push_all push (fst (push q x)) xs"

definition example_queue :: "nat relay_queue" where
  "example_queue = \<lparr>queue_size = 3, num_entries = 1, start_index = 2, entries = [None, None, Some 7]\<rparr>"

section \<open>The interface\<close>

text \<open>What the users of a queue rely on: a bounded FIFO. \<open>push\<close> fails exactly when the queue is full.\<close>

locale bounded_fifo =
  fixes push :: "'q \<Rightarrow> 'a \<Rightarrow> 'q \<times> 'r" and pop :: "'q \<Rightarrow> 'q \<times> 'a option"
    and ok :: "'r \<Rightarrow> bool" and contents :: "'q \<Rightarrow> 'a list" and inv :: "'q \<Rightarrow> bool" and capacity :: "'q \<Rightarrow> nat"
  assumes push_inv: "inv q \<Longrightarrow> inv (fst (push q x))"
    and push_capacity: "inv q \<Longrightarrow> capacity (fst (push q x)) = capacity q"
    and push_ok: "inv q \<Longrightarrow> ok (snd (push q x)) \<longleftrightarrow> length (contents q) < capacity q"
    and push_contents: "inv q \<Longrightarrow> contents (fst (push q x)) =
      (if length (contents q) < capacity q then contents q @ [x] else contents q)"
    and pop_inv: "inv q \<Longrightarrow> inv (fst (pop q))"
    and pop_capacity: "inv q \<Longrightarrow> capacity (fst (pop q)) = capacity q"
    and pop_contents: "inv q \<Longrightarrow> contents (fst (pop q)) = tl (contents q)"
    and pop_result: "inv q \<Longrightarrow> snd (pop q) = (case contents q of [] \<Rightarrow> None | x # _ \<Rightarrow> Some x)"
begin

lemma push_all_contents:
  "inv q \<Longrightarrow> length (contents q) + length xs \<le> capacity q \<Longrightarrow>
   inv (queue_push_all push q xs) \<and> contents (queue_push_all push q xs) = contents q @ xs \<and> capacity (queue_push_all push q xs) = capacity q"
proof (induction xs arbitrary: q)
  case (Cons x xs)
  then show ?case by (simp add: push_inv push_contents push_capacity)
qed simp

lemma drain_contents:
  "inv q \<Longrightarrow> length (contents q) \<le> n \<Longrightarrow>
   inv (fst (queue_drain pop n q)) \<and> contents (fst (queue_drain pop n q)) = [] \<and> snd (queue_drain pop n q) = contents q"
proof (induction n arbitrary: q)
  case (Suc n)
  obtain q' r where p: "pop q = (q', r)" by fastforce
  show ?case
  proof (cases "contents q")
    case Nil
    then show ?thesis using Suc.prems p pop_result [of q] pop_inv [of q] pop_contents [of q] by simp
  next
    case (Cons x xs)
    have "inv q'" "contents q' = xs" "r = Some x"
      using Suc.prems p Cons pop_result [of q] pop_inv [of q] pop_contents [of q] by simp_all
    then show ?thesis using Suc p Cons by (simp add: split_beta)
  qed
qed simp

end

section \<open>Lemmas\<close>

lemma queue_list_eq_iff: "length (queue_list q) = num_entries q"
  by (simp add: queue_list_def)

lemma push_slot:
  assumes "queue_inv q" "num_entries q < queue_size q"
    and q': "q' = q\<lparr>entries := (entries q)[(start_index q + num_entries q) mod queue_size q := Some x],
                     num_entries := num_entries q + 1\<rparr>"
  shows "slot q' (num_entries q) = Some x" "i < num_entries q \<Longrightarrow> slot q' i = slot q i"
proof -
  have l: "length (entries q) = queue_size q" "start_index q < queue_size q" "0 < queue_size q"
    using assms(1) by (simp_all add: queue_inv_def)
  show "slot q' (num_entries q) = Some x"
    using l by (simp add: slot_def q')
  assume i: "i < num_entries q"
  then have "(start_index q + i) mod queue_size q \<noteq> (start_index q + num_entries q) mod queue_size q"
    using ring_index [OF l(2), of i "num_entries q"] assms(2) by force
  then show "slot q' i = slot q i" by (simp add: slot_def q')
qed

lemma push_step:
  assumes "queue_inv q" "num_entries q < queue_size q"
    and "q' = q\<lparr>entries := (entries q)[(start_index q + num_entries q) mod queue_size q := Some x],
                 num_entries := num_entries q + 1\<rparr>"
  shows "queue_inv q'" "queue_list q' = queue_list q @ [x]" "queue_size q' = queue_size q"
proof -
  note s = push_slot [OF assms]
  show "queue_size q' = queue_size q" by (simp add: assms(3))
  show "queue_list q' = queue_list q @ [x]" using s by (simp add: queue_list_def assms(3))
  have "\<forall>i < num_entries q'. slot q' i \<noteq> None"
    using s assms(1) by (auto simp: assms(3) queue_inv_def less_Suc_eq)
  then show "queue_inv q'" using assms(1,2) by (simp add: queue_inv_def assms(3))
qed

lemma pop_step:
  assumes "queue_inv q" "0 < num_entries q"
    and q': "q' = q\<lparr>start_index := (start_index q + 1) mod queue_size q, num_entries := num_entries q - 1\<rparr>"
  shows "queue_inv q'" "queue_list q = the (slot q 0) # queue_list q'" "queue_size q' = queue_size q"
    "entries q ! start_index q = Some (the (slot q 0))"
proof -
  have sl: "slot q' i = slot q (Suc i)" for i
    by (simp add: slot_def q' mod_add_left_eq)
  show "queue_size q' = queue_size q" by (simp add: q')
  have ne: "slot q i \<noteq> None" if "i < num_entries q" for i using assms(1) that by (simp add: queue_inv_def)
  show "queue_inv q'"
    using assms(1,2) ne by (auto simp: queue_inv_def sl) (auto simp: q')
  have "[0..<num_entries q] = 0 # map Suc [0..<num_entries q']"
    using assms(2) by (simp add: q' map_Suc_upt upt_conv_Cons)
  then show "queue_list q = the (slot q 0) # queue_list q'"
    by (simp add: queue_list_def sl comp_def)
  have "slot q 0 = entries q ! start_index q" using assms(1) by (simp add: slot_def queue_inv_def)
  then show "entries q ! start_index q = Some (the (slot q 0))" using ne [OF assms(2)] by simp
qed

lemma create_inv: "0 < n \<Longrightarrow> queue_inv (relay_queue_create n)" "queue_list (relay_queue_create n) = []"
  by (simp_all add: queue_inv_def relay_queue_create_def queue_list_def)

lemma length_clear_slots [simp]: "length (clear_slots sz s n es) = length es"
  by (induction n arbitrary: es) simp_all

lemma clear_inv:
  "queue_inv q \<Longrightarrow> queue_inv (relay_queue_clear q) \<and> queue_list (relay_queue_clear q) = []"
  by (simp add: queue_inv_def relay_queue_clear_def queue_list_def)

lemma full_iff: "relay_queue_full q \<longleftrightarrow> length (queue_list q) = queue_size q"
  by (simp add: relay_queue_full_def queue_list_eq_iff)

lemma next_pop_eq: "next_queue_pop = relay_queue_pop"
  by (simp add: fun_eq_iff next_queue_pop_def relay_queue_pop_def)

lemma next_push_eq: "fst (next_queue_push q x) = fst (relay_queue_push q x)"
  "snd (next_queue_push q x) = NEXT_OK \<longleftrightarrow> snd (relay_queue_push q x)"
  by (simp_all add: next_queue_push_def relay_queue_push_def Let_def)

lemma relay_push_facts:
  assumes "queue_inv q"
  shows "queue_inv (fst (relay_queue_push q x))" "queue_size (fst (relay_queue_push q x)) = queue_size q"
    "snd (relay_queue_push q x) \<longleftrightarrow> length (queue_list q) < queue_size q"
    "queue_list (fst (relay_queue_push q x)) =
       (if length (queue_list q) < queue_size q then queue_list q @ [x] else queue_list q)"
proof -
  have le: "num_entries q \<le> queue_size q" using assms by (simp add: queue_inv_def)
  have "queue_inv (fst (relay_queue_push q x)) \<and> queue_size (fst (relay_queue_push q x)) = queue_size q \<and>
    (snd (relay_queue_push q x) \<longleftrightarrow> length (queue_list q) < queue_size q) \<and>
    queue_list (fst (relay_queue_push q x)) =
       (if length (queue_list q) < queue_size q then queue_list q @ [x] else queue_list q)"
  proof (cases "num_entries q = queue_size q")
    case True
    then show ?thesis using assms by (simp add: relay_queue_push_def queue_list_eq_iff)
  next
    case False
    then have lt: "num_entries q < queue_size q" using le by simp
    show ?thesis using push_step [OF assms lt refl, of x] lt
      by (simp add: relay_queue_push_def queue_list_eq_iff Let_def)
  qed
  then show "queue_inv (fst (relay_queue_push q x))" "queue_size (fst (relay_queue_push q x)) = queue_size q"
    "snd (relay_queue_push q x) \<longleftrightarrow> length (queue_list q) < queue_size q"
    "queue_list (fst (relay_queue_push q x)) =
       (if length (queue_list q) < queue_size q then queue_list q @ [x] else queue_list q)" by blast+
qed

lemma relay_pop_facts:
  assumes "queue_inv q"
  shows "queue_inv (fst (relay_queue_pop q))" "queue_size (fst (relay_queue_pop q)) = queue_size q"
    "queue_list (fst (relay_queue_pop q)) = tl (queue_list q)"
    "snd (relay_queue_pop q) = (case queue_list q of [] \<Rightarrow> None | x # _ \<Rightarrow> Some x)"
proof -
  have "queue_inv (fst (relay_queue_pop q)) \<and> queue_size (fst (relay_queue_pop q)) = queue_size q \<and>
    queue_list (fst (relay_queue_pop q)) = tl (queue_list q) \<and>
    snd (relay_queue_pop q) = (case queue_list q of [] \<Rightarrow> None | x # _ \<Rightarrow> Some x)"
  proof (cases "num_entries q = 0")
    case True
    then show ?thesis using assms by (simp add: relay_queue_pop_def queue_list_def)
  next
    case False
    then show ?thesis using pop_step [OF assms _ refl] by (simp add: relay_queue_pop_def Let_def)
  qed
  then show "queue_inv (fst (relay_queue_pop q))" "queue_size (fst (relay_queue_pop q)) = queue_size q"
    "queue_list (fst (relay_queue_pop q)) = tl (queue_list q)"
    "snd (relay_queue_pop q) = (case queue_list q of [] \<Rightarrow> None | x # _ \<Rightarrow> Some x)" by blast+
qed

interpretation rq: bounded_fifo relay_queue_push relay_queue_pop "\<lambda>b. b" queue_list queue_inv queue_size
  by unfold_locales (simp_all add: relay_push_facts relay_pop_facts)

interpretation nq: bounded_fifo next_queue_push next_queue_pop "\<lambda>r. r = NEXT_OK" queue_list queue_inv queue_size
  by unfold_locales (simp_all add: next_push_eq next_pop_eq relay_push_facts relay_pop_facts)

section \<open>Properties\<close>

text \<open>
  C30. The control and statistics queues between the relay's threads, and the command and notify queues of the SDK,
  are bounded FIFOs: entries pushed while there is room come out of a drain of the queue complete and in order,
  whatever the position of the ring, and leave it empty; a push onto a full queue is refused and changes nothing.
\<close>

theorem queues_are_fifo:
  fixes q :: "'a relay_queue"
  assumes "queue_inv q" "length (queue_list q) + length xs \<le> queue_size q" "length (queue_list q) + length xs \<le> n"
  shows "snd (queue_drain relay_queue_pop n (queue_push_all relay_queue_push q xs)) = queue_list q @ xs \<and>
    snd (queue_drain next_queue_pop n (queue_push_all next_queue_push q xs)) = queue_list q @ xs \<and>
    queue_list (fst (queue_drain relay_queue_pop n (queue_push_all relay_queue_push q xs))) = [] \<and>
    queue_list (fst (queue_drain next_queue_pop n (queue_push_all next_queue_push q xs))) = [] \<and>
    (length (queue_list q) = queue_size q \<longrightarrow>
       relay_queue_push q x = (q, False) \<and> next_queue_push q x = (q, NEXT_ERROR))"
proof -
  note r = rq.push_all_contents [OF assms(1,2)] and s = nq.push_all_contents [OF assms(1,2)]
  show ?thesis
    using rq.drain_contents [of "queue_push_all relay_queue_push q xs" n] r
      nq.drain_contents [of "queue_push_all next_queue_push q xs" n] s assms(3)
    by (simp add: relay_queue_push_def next_queue_push_def queue_list_eq_iff)
qed

theorem queues_are_fifo_witness:
  "snd (queue_drain relay_queue_pop 5 (queue_push_all relay_queue_push example_queue [8, 9])) = [7, 8, 9]"
  using queues_are_fifo [of example_queue "[8, 9]" 5]
  by (simp add: example_queue_def queue_inv_def queue_list_def slot_def)

end
