(* ===== verification/Wire_Encoding.thy ===== *)
theory Wire_Encoding
  imports Next_Prelude "HOL-Library.Monad_Syntax"
begin

text \<open>
  How the parts of the system write integers, strings and addresses to the wire: \<open>relay/xdp/relay_encoding.h\<close> in C and
  \<open>modules/encoding/encoding.go\<close> in Go. The lemmas show that each side reads back what either side writes.
\<close>

section \<open>Definitions\<close>

text \<open>
  Writers append to a buffer and are modelled by the bytes they append; readers consume the bytes a pointer
  or an index stands at and are modelled by \<open>bytes \<Rightarrow> ('a \<times> bytes) option\<close>. For the C code, whose reads are not checked,
  \<open>None\<close> is a read beyond the end of the memory; for the Go code it is the \<open>false\<close> that the function returns.
\<close>

type_synonym 'a reader = "bytes \<Rightarrow> ('a \<times> bytes) option"

abbreviation (input) RELAY_ADDRESS_IPV4 :: u8 where "RELAY_ADDRESS_IPV4 \<equiv> 1"

text \<open>\<open>relay_encoding.h\<close>.\<close>

definition relay_write_uint8 :: "u8 \<Rightarrow> bytes" where
  "relay_write_uint8 v = [v]"

definition relay_write_uint16 :: "u16 \<Rightarrow> bytes" where
  "relay_write_uint16 v = [ucast (v AND 0xFF), ucast (drop_bit 8 v)]"

definition relay_write_uint32 :: "u32 \<Rightarrow> bytes" where
  "relay_write_uint32 v =
     [ucast (v AND 0xFF), ucast (drop_bit 8 v AND 0xFF), ucast (drop_bit 16 v AND 0xFF), ucast (drop_bit 24 v)]"

definition relay_write_uint64 :: "u64 \<Rightarrow> bytes" where
  "relay_write_uint64 v =
     [ucast (v AND 0xFF), ucast (drop_bit 8 v AND 0xFF), ucast (drop_bit 16 v AND 0xFF), ucast (drop_bit 24 v AND 0xFF),
      ucast (drop_bit 32 v AND 0xFF), ucast (drop_bit 40 v AND 0xFF), ucast (drop_bit 48 v AND 0xFF), ucast (drop_bit 56 v)]"

definition relay_write_bytes :: "bytes \<Rightarrow> nat \<Rightarrow> bytes" where
  "relay_write_bytes bs n = concat (map relay_write_uint8 (take n bs))"

definition relay_write_string :: "bytes \<Rightarrow> nat \<Rightarrow> bytes" where
  "relay_write_string s max_length =
     (let n = (if length s > max_length - 1 then max_length - 1 else length s)
      in relay_write_uint32 (of_nat n) @ concat (map relay_write_uint8 (take n s)))"

definition relay_write_address :: "u32 \<Rightarrow> u16 \<Rightarrow> bytes" where
  "relay_write_address address prt =
     relay_write_uint8 RELAY_ADDRESS_IPV4 @ relay_write_uint32 (bswap32 address) @ relay_write_uint16 prt"

fun relay_read_uint8 :: "u8 reader" where
  "relay_read_uint8 (a # q) = Some (a, q)"
| "relay_read_uint8 _ = None"

fun relay_read_uint16 :: "u16 reader" where
  "relay_read_uint16 (a # b # q) = Some (ucast a OR push_bit 8 (ucast b), q)"
| "relay_read_uint16 _ = None"

fun relay_read_uint32 :: "u32 reader" where
  "relay_read_uint32 (a # b # c # d # q) =
     Some (ucast a OR push_bit 8 (ucast b) OR push_bit 16 (ucast c) OR push_bit 24 (ucast d), q)"
| "relay_read_uint32 _ = None"

fun relay_read_uint64 :: "u64 reader" where
  "relay_read_uint64 (a # b # c # d # e # f # g # h # q) =
     Some (ucast a OR push_bit 8 (ucast b) OR push_bit 16 (ucast c) OR push_bit 24 (ucast d) OR
           push_bit 32 (ucast e) OR push_bit 40 (ucast f) OR push_bit 48 (ucast g) OR push_bit 56 (ucast h), q)"
| "relay_read_uint64 _ = None"

fun relay_read_bytes :: "nat \<Rightarrow> bytes reader" where
  "relay_read_bytes 0 q = Some ([], q)"
| "relay_read_bytes (Suc n) q =
     do { (b, q) \<leftarrow> relay_read_uint8 q; (bs, q) \<leftarrow> relay_read_bytes n q; Some (b # bs, q) }"

text \<open>\<open>relay_read_string\<close> writes the string and a terminating zero to its buffer; the result is what it writes. A
  length above the maximum writes nothing and leaves the string's bytes unread.\<close>

definition relay_read_string :: "u32 \<Rightarrow> bytes reader" where
  "relay_read_string max_length q =
     do { (n, q) \<leftarrow> relay_read_uint32 q;
          if n > max_length then Some ([], q)
          else do { (bs, q) \<leftarrow> relay_read_bytes (unat n) q; Some (bs @ [0], q) } }"

text \<open>\<open>relay_read_address\<close> yields \<open>None\<close> in the first component when the address is not IPv4.\<close>

definition relay_read_address :: "(u32 \<times> u16) option reader" where
  "relay_read_address q =
     do { (t, q) \<leftarrow> relay_read_uint8 q;
          if t \<noteq> RELAY_ADDRESS_IPV4 then Some (None, q)
          else do { (a, q) \<leftarrow> relay_read_uint32 q; (p, q) \<leftarrow> relay_read_uint16 q; Some (Some (bswap32 a, p), q) } }"

text \<open>\<open>modules/encoding/encoding.go\<close>: the Go side, over \<open>encoding/binary\<close>'s little-endian functions.\<close>

definition WriteUint8 :: "u8 \<Rightarrow> bytes" where "WriteUint8 v = [v]"

definition WriteUint16 :: "u16 \<Rightarrow> bytes" where "WriteUint16 v = le_bytes 2 v"

definition WriteUint32 :: "u32 \<Rightarrow> bytes" where "WriteUint32 v = le_bytes 4 v"

definition WriteUint64 :: "u64 \<Rightarrow> bytes" where "WriteUint64 v = le_bytes 8 v"

text \<open>\<open>None\<close> is the panic on a string that is too long; \<open>WriteBytes\<close> panics beyond the end of its argument.\<close>

definition WriteString :: "bytes \<Rightarrow> u32 \<Rightarrow> bytes option" where
  "WriteString s max_length =
     (if (of_nat (length s) :: u32) > max_length then None
      else Some (le_bytes 4 (of_nat (length s) :: u32) @ take (unat (of_nat (length s) :: u32)) s))"

definition WriteBytes :: "bytes \<Rightarrow> nat \<Rightarrow> bytes option" where
  "WriteBytes bs n = (if n \<le> length bs then Some (take n bs) else None)"

text \<open>A \<open>net.UDPAddr\<close>: nothing, four bytes of IPv4 or sixteen of IPv6, and a port.\<close>

datatype udp_addr = No_Addr | IPv4 bytes u16 | IPv6 bytes u16

fun WriteAddress :: "udp_addr \<Rightarrow> bytes" where
  "WriteAddress No_Addr = [0]"
| "WriteAddress (IPv4 ip p) = [1, ip ! 0, ip ! 1, ip ! 2, ip ! 3, ucast (p AND 0xFF), ucast (drop_bit 8 p)]"
| "WriteAddress (IPv6 ip p) = [2] @ take 16 ip @ [ucast (p AND 0xFF), ucast (drop_bit 8 p)]"

definition ReadUint8 :: "u8 reader" where
  "ReadUint8 q = (if 1 > length q then None else Some (q ! 0, drop 1 q))"

definition ReadUint16 :: "u16 reader" where
  "ReadUint16 q = (if 2 > length q then None else Some (le_word (take 2 q), drop 2 q))"

definition ReadUint32 :: "u32 reader" where
  "ReadUint32 q = (if 4 > length q then None else Some (le_word (take 4 q), drop 4 q))"

definition ReadUint64 :: "u64 reader" where
  "ReadUint64 q = (if 8 > length q then None else Some (le_word (take 8 q), drop 8 q))"

definition ReadString :: "u32 \<Rightarrow> bytes reader" where
  "ReadString max_length q =
     do { (n, q) \<leftarrow> ReadUint32 q;
          if n > max_length then None
          else if unat n > length q then None
          else Some (take (unat n) q, drop (unat n) q) }"

definition ReadBytes :: "nat \<Rightarrow> bytes reader" where
  "ReadBytes n q = (if n > length q then None else Some (take n q, drop n q))"

definition ReadAddress :: "udp_addr reader" where
  "ReadAddress q =
     (if 1 > length q then None
      else if q ! 0 = 0 then Some (No_Addr, drop 1 q)
      else if q ! 0 = 1 then
        (if 7 > length q then None
         else Some (IPv4 [q ! 1, q ! 2, q ! 3, q ! 4] (le_word (window 5 2 q)), drop 7 q))
      else if q ! 0 = 2 then
        (if 19 > length q then None
         else Some (IPv6 (window 1 16 q) (le_word (window 17 2 q)), drop 19 q))
      else None)"

fun wf_addr :: "udp_addr \<Rightarrow> bool" where
  "wf_addr No_Addr = True"
| "wf_addr (IPv4 ip p) = (length ip = 4)"
| "wf_addr (IPv6 ip p) = (length ip = 16)"

text \<open>The address a relay keeps for the bytes of an IPv4 address: a 32-bit integer in host order.\<close>

definition ipv4_host :: "bytes \<Rightarrow> u32" where
  "ipv4_host ip = le_word (rev ip)"

section \<open>Lemmas\<close>

lemma ucast_byte_mask:
  "(ucast ((w::u16) AND 0xFF) :: u8) = ucast w" "(ucast ((v::u32) AND 0xFF) :: u8) = ucast v"
  "(ucast ((z::u64) AND 0xFF) :: u8) = ucast z"
  unfolding mask_255 by (rule bit_word_eqI; auto simp: bit_simps)+

lemma relay_write_eq [codec_simps]:
  "relay_write_uint16 a = le_bytes 2 a" "relay_write_uint32 b = le_bytes 4 b" "relay_write_uint64 c = le_bytes 8 c"
  by (simp_all add: relay_write_uint16_def relay_write_uint32_def relay_write_uint64_def le_bytes_explicit ucast_byte_mask)

lemma concat_singletons: "concat (map relay_write_uint8 bs) = bs"
  by (induction bs) (simp_all add: relay_write_uint8_def)

lemma relay_write_bytes_eq [codec_simps]: "relay_write_bytes bs n = take n bs"
  by (simp add: relay_write_bytes_def concat_singletons)

lemma WriteUint_eq [codec_simps]:
  "WriteUint16 a = relay_write_uint16 a" "WriteUint32 b = relay_write_uint32 b" "WriteUint64 c = relay_write_uint64 c"
  "WriteUint8 d = relay_write_uint8 d"
  by (simp_all add: WriteUint16_def WriteUint32_def WriteUint64_def WriteUint8_def relay_write_uint8_def relay_write_eq)

lemma le_word_explicit:
  "(le_word [a, b] :: u16) = ucast a OR push_bit 8 (ucast b)"
  "(le_word [a, b, c, d] :: u32) = ucast a OR push_bit 8 (ucast b) OR push_bit 16 (ucast c) OR push_bit 24 (ucast d)"
  "(le_word [a, b, c, d, e, f, g, h] :: u64) =
     ucast a OR push_bit 8 (ucast b) OR push_bit 16 (ucast c) OR push_bit 24 (ucast d) OR
     push_bit 32 (ucast e) OR push_bit 40 (ucast f) OR push_bit 48 (ucast g) OR push_bit 56 (ucast h)"
  by (simp_all add: push_bit_or)

lemma relay_read_eq:
  "relay_read_uint16 q = ReadUint16 q" "relay_read_uint32 q = ReadUint32 q" "relay_read_uint64 q = ReadUint64 q"
  "relay_read_uint8 q = ReadUint8 q"
proof -
  show "relay_read_uint16 q = ReadUint16 q"
    by (cases q rule: relay_read_uint16.cases) (simp_all add: ReadUint16_def le_word_explicit del: le_word.simps)
  show "relay_read_uint32 q = ReadUint32 q"
    by (cases q rule: relay_read_uint32.cases) (simp_all add: ReadUint32_def le_word_explicit del: le_word.simps)
  show "relay_read_uint64 q = ReadUint64 q"
    by (cases q rule: relay_read_uint64.cases) (simp_all add: ReadUint64_def le_word_explicit del: le_word.simps)
  show "relay_read_uint8 q = ReadUint8 q" by (cases q) (simp_all add: ReadUint8_def)
qed

lemma read_written [codec_simps]:
  "relay_read_uint8 (relay_write_uint8 d @ q) = Some (d, q)"
  "relay_read_uint16 (le_bytes 2 a @ q) = Some (a, q)" "relay_read_uint32 (le_bytes 4 b @ q) = Some (b, q)"
  "relay_read_uint64 (le_bytes 8 c @ q) = Some (c, q)"
  by (simp_all add: relay_read_eq ReadUint16_def ReadUint32_def ReadUint64_def relay_write_uint8_def ReadUint8_def
      codec_simps)

lemma relay_read_bytes_eq: "relay_read_bytes n q = (if n \<le> length q then Some (take n q, drop n q) else None)"
proof (induction n arbitrary: q)
  case (Suc n)
  show ?case by (cases q) (auto simp: Suc)
qed simp

lemma relay_read_bytes_append [codec_simps]: "length bs = n \<Longrightarrow> relay_read_bytes n (bs @ q) = Some (bs, q)"
  by (simp add: relay_read_bytes_eq)

lemma relay_read_bytes_Read: "relay_read_bytes n q = ReadBytes n q"
  by (simp add: relay_read_bytes_eq ReadBytes_def)

lemma read_address_written [codec_simps]:
  "relay_read_address (relay_write_address a p @ q) = Some (Some (a, p), q)"
  by (simp add: relay_read_address_def relay_write_address_def codec_simps)

lemma write_ipv4: 
  assumes "length ip = 4"
  shows "WriteAddress (IPv4 ip p) = relay_write_address (ipv4_host ip) p"
proof -
  have "ip = [ip ! 0, ip ! 1, ip ! 2, ip ! 3]"
    using assms by (intro nth_equalityI) (auto simp: nth_Cons' numeral_eq_Suc less_Suc_eq)
  then have "le_bytes 4 (bswap32 (ipv4_host ip)) = [ip ! 0, ip ! 1, ip ! 2, ip ! 3]"
    using assms by (simp add: bswap32_def ipv4_host_def codec_simps)
  then show ?thesis
    by (simp add: relay_write_address_def relay_write_uint8_def relay_write_eq le_bytes_explicit(1) ucast_byte_mask)
qed

lemma ReadAddress_Write: "wf_addr a \<Longrightarrow> ReadAddress (WriteAddress a @ q) = Some (a, q)"
proof (cases a)
  case (IPv4 ip p)
  assume "wf_addr a"
  then have "ip = [ip ! 0, ip ! 1, ip ! 2, ip ! 3]"
    using IPv4 by (intro nth_equalityI) (auto simp: nth_Cons' numeral_eq_Suc less_Suc_eq)
  moreover have "le_word [ucast (p AND 0xFF), ucast (drop_bit 8 p)] = p"
    using le_word_le_bytes [of 2 p] by (simp add: le_bytes_explicit ucast_byte_mask)
  ultimately show ?thesis by (simp add: IPv4 ReadAddress_def window_def del: le_word.simps)
next
  case (IPv6 ip p)
  assume w: "wf_addr a"
  have "le_word [ucast (p AND 0xFF), ucast (drop_bit 8 p)] = p"
    using le_word_le_bytes [of 2 p] by (simp add: le_bytes_explicit ucast_byte_mask)
  then show ?thesis using w by (simp add: IPv6 ReadAddress_def window_def numeral_eq_Suc del: le_word.simps)
qed (simp add: ReadAddress_def)

lemma read_string_written:
  assumes "WriteString s m = Some bs" "length s < 2 ^ 32"
  shows "relay_read_string m (bs @ q) = Some (s @ [0], q)" "ReadString m (bs @ q) = Some (s, q)"
proof -
  have n: "unat (of_nat (length s) :: u32) = length s" using assms(2) by (simp add: unsigned_of_nat take_bit_eq_mod)
  have bs: "bs = le_bytes 4 (of_nat (length s) :: u32) @ s" "\<not> m < of_nat (length s)"
    using assms(1) n by (simp_all add: WriteString_def split: if_splits)
  then show "relay_read_string m (bs @ q) = Some (s @ [0], q)"
    by (simp add: relay_read_string_def codec_simps n relay_read_bytes_eq)
  show "ReadString m (bs @ q) = Some (s, q)"
    using bs read_written(3) [of "of_nat (length s)" "s @ q"] by (simp add: ReadString_def relay_read_eq n)
qed

end
