(* ===== verification/Relay_Ping.thy ===== *)
theory Relay_Ping
  imports Relay_Admission Relay_Manager Relay_Queue Wire_Encoding
begin

text \<open>
  The ping thread, \<open>relay/xdp/relay_ping.c\<close>: it sends pings to the other relays, matches pongs with them, applies
  the control messages of the main thread, and, in the user space build, is the socket the datapath runs behind. The
  lemmas follow a ping from one relay to another and its pong back.
\<close>

section \<open>Definitions\<close>

text \<open>\<open>relay_htonl\<close> and its relatives, on a little-endian machine.\<close>

abbreviation relay_htonl :: "u32 \<Rightarrow> u32" where "relay_htonl \<equiv> bswap32"

abbreviation relay_ntohl :: "u32 \<Rightarrow> u32" where "relay_ntohl \<equiv> bswap32"

abbreviation relay_htons :: "u16 \<Rightarrow> u16" where "relay_htons \<equiv> bswap16"

abbreviation relay_ntohs :: "u16 \<Rightarrow> u16" where "relay_ntohs \<equiv> bswap16"

record control_message =
  msg_timestamp :: u64
  msg_magic :: bytes
  msg_ping_key :: bytes
  new_relays :: relay_set
  delete_relays :: relay_set

record ping_thread =
  thread_port :: u16
  thread_public_address :: u32
  thread_internal_address :: u32
  thread_manager :: relay_manager
  thread_timestamp :: u64
  thread_magic :: bytes
  has_ping_key :: bool
  thread_ping_key :: bytes
  pings_sent :: u64
  ping_bytes_sent :: u64

record stats_message =
  stats_pings_sent :: u64
  stats_bytes_sent :: u64
  stats_ping_stats :: "(u64 \<times> ping_history_stats) list"

text \<open>A UDP datagram to send: destination address and port in host order, and the payload.\<close>

type_synonym datagram = "u32 \<times> u16 \<times> bytes"

definition synthetic_frame :: "ping_thread \<Rightarrow> u32 \<Rightarrow> u16 \<Rightarrow> bytes \<Rightarrow> bytes" where
  "synthetic_frame ping from_address from_port packet =
     replicate 6 0x22 @ replicate 6 0x11 @ le_bytes 2 ETH_P_IP @
     [0x45, 0] @ le_bytes 2 (bswap16 (of_nat (20 + 8 + length packet))) @ [0, 0, 0, 0, 64, 17, 0, 0] @
     le_bytes 4 (bswap32 from_address) @ le_bytes 4 (bswap32 (thread_public_address ping)) @
     le_bytes 2 (bswap16 from_port) @ le_bytes 2 (bswap16 (thread_port ping)) @
     le_bytes 2 (bswap16 (of_nat (8 + length packet))) @ [0, 0] @ packet"

text \<open>The number of bytes passed on to the pong processing, the datagram sent, and the maps.\<close>

definition userspace_datapath_packet ::
  "crypto \<Rightarrow> ping_thread \<Rightarrow> u32 \<Rightarrow> u16 \<Rightarrow> bytes \<Rightarrow> relay_maps \<Rightarrow> nat \<times> datagram option \<times> relay_maps" where
  "userspace_datapath_packet cr ping from_address from_port packet m =
     (if length packet > RELAY_MAX_PACKET_BYTES then (0, None, m)
      else
        case relay_xdp_filter cr (synthetic_frame ping from_address from_port packet) m of
          (v, f, m') \<Rightarrow>
            if v = XDP_TX then
              (0, if length f > 42
                  then Some (relay_ntohl (ip_daddr f), relay_ntohs (udp_dest f), packet_data f) else None, m')
            else if v = XDP_PASS then (length packet, None, m')
            else (0, None, m'))"

text \<open>The pong that the datapath passed on is matched with its ping.\<close>

definition receive_pong :: "u32 \<Rightarrow> u16 \<Rightarrow> bytes \<Rightarrow> time \<Rightarrow> relay_manager \<Rightarrow> relay_manager" where
  "receive_pong from_address from_port packet t manager =
     (if length packet = 18 + 8 \<and> packet ! 0 = RELAY_PONG_PACKET
      then fst (relay_manager_process_pong manager from_address from_port (load64 18 packet) t)
      else manager)"

definition relay_key :: "relay_info \<Rightarrow> u64" where
  "relay_key r = push_bit 32 (ucast (relay_htonl (relay_address r))) OR ucast (relay_htons (info_port r))"

definition add_relay :: "relay_info \<Rightarrow> relay_maps \<Rightarrow> relay_maps" where
  "add_relay r m = m\<lparr>relay_map := fst (map_update (relay_map m) (relay_key r) 1 BPF_NOEXIST)\<rparr>"

definition remove_relay :: "relay_info \<Rightarrow> relay_maps \<Rightarrow> relay_maps" where
  "remove_relay r m = m\<lparr>relay_map := fst (map_delete (relay_map m) (relay_key r))\<rparr>"

definition process_control_message ::
  "(nat \<Rightarrow> ping_history) \<Rightarrow> time \<Rightarrow> control_message \<Rightarrow> ping_thread \<times> relay_maps \<Rightarrow> (ping_thread \<times> relay_maps) option" where
  "process_control_message fresh t message s =
     (case s of (ping, m) \<Rightarrow>
        let m1 = fold add_relay (new_relays message) m;
            m2 = fold remove_relay (delete_relays message) m1
        in case relay_manager_update fresh t (thread_manager ping) (new_relays message) (delete_relays message) of
             None \<Rightarrow> None
           | Some manager \<Rightarrow>
               Some (ping\<lparr>thread_timestamp := msg_timestamp message, has_ping_key := True,
                 thread_ping_key := msg_ping_key message, thread_magic := msg_magic message,
                 thread_manager := manager\<rparr>, m2))"

definition ping_token_for :: "ping_thread \<Rightarrow> relay_info \<Rightarrow> u64 \<Rightarrow> ping_token_data" where
  "ping_token_for ping r expire =
     \<lparr>pt_ping_key = take 32 (thread_ping_key ping), pt_expire_timestamp = expire,
      pt_source_address = (if relay_internal r \<noteq> 0 then relay_htonl (thread_internal_address ping)
                           else relay_htonl (thread_public_address ping)),
      pt_dest_address = relay_htonl (relay_address r),
      pt_source_port = relay_htons (thread_port ping), pt_dest_port = relay_htons (info_port r)\<rparr>"

definition ping_packet :: "crypto \<Rightarrow> ping_thread \<Rightarrow> relay_info \<Rightarrow> u64 \<Rightarrow> u64 \<Rightarrow> bytes" where
  "ping_packet cr ping r expire s =
     (let ping_token = take 32 (sha256 cr (ping_token_bytes (ping_token_for ping r expire)));
          body = relay_write_uint64 s @ relay_write_uint64 expire @ relay_write_uint8 (relay_internal r) @
                 relay_write_bytes ping_token RELAY_PING_TOKEN_BYTES;
          packet_length = of_nat (18 + length body) :: u16;
          to_address = relay_address_data (relay_htonl (relay_address r));
          from_address = (if relay_internal r = 0 then relay_address_data (relay_htonl (thread_public_address ping))
                          else relay_address_data (relay_htonl (thread_internal_address ping)))
      in [RELAY_PING_PACKET] @ relay_generate_pittle from_address to_address packet_length @
         relay_generate_chonkle (thread_magic ping) from_address to_address packet_length @ body)"

fun send_ping_packets ::
  "crypto \<Rightarrow> ping_thread \<Rightarrow> u64 \<Rightarrow> time \<Rightarrow> relay_manager \<Rightarrow> relay_manager \<times> datagram list" where
  "send_ping_packets cr ping expire t [] = ([], [])"
| "send_ping_packets cr ping expire t (r # rs) =
     (case send_ping_packets cr ping expire t rs of (rs', ds) \<Rightarrow>
        if relay_last_ping_time r + RELAY_PING_TIME \<le> t then
          (case relay_ping_history_ping_sent (relay_ping_history r) t of (h, s) \<Rightarrow>
             (r\<lparr>relay_ping_history := h, relay_last_ping_time := t\<rparr> # rs',
              (relay_address (relay_info r), info_port (relay_info r), ping_packet cr ping (relay_info r) expire s) # ds))
        else (r # rs', ds))"

definition send_pings_due :: "crypto \<Rightarrow> time \<Rightarrow> ping_thread \<Rightarrow> ping_thread \<times> datagram list" where
  "send_pings_due cr t ping =
     (if has_ping_key ping then
        (case send_ping_packets cr ping (thread_timestamp ping + 30) t (thread_manager ping) of (rs, ds) \<Rightarrow>
           (ping\<lparr>thread_manager := rs,
              ping_bytes_sent := ping_bytes_sent ping + of_nat (length ds) * (8 + 20 + 18 + 1 + 8 + 8 + 32),
              pings_sent := pings_sent ping + of_nat (length ds)\<rparr>, ds))
      else (ping, []))"

definition post_ping_stats :: "time \<Rightarrow> ping_thread \<Rightarrow> stats_message relay_queue \<Rightarrow> stats_message relay_queue" where
  "post_ping_stats t ping q =
     fst (relay_queue_push q
       \<lparr>stats_pings_sent = pings_sent ping, stats_bytes_sent = ping_bytes_sent ping,
        stats_ping_stats = relay_manager_get_ping_stats (thread_manager ping) t\<rparr>)"

text \<open>A frame on the wire that carries a UDP datagram between two addresses, in network order.\<close>

definition carries :: "bytes \<Rightarrow> u32 \<Rightarrow> u16 \<Rightarrow> u32 \<Rightarrow> u16 \<Rightarrow> bytes \<Rightarrow> bool" where
  "carries f src sport dst dport packet \<longleftrightarrow>
     42 \<le> length f \<and> eth_proto f = ETH_P_IP \<and> ip_protocol f = 17 \<and> ip_ihl f = 5 \<and>
     ip_saddr f = src \<and> udp_source f = sport \<and> ip_daddr f = dst \<and> udp_dest f = dport \<and> packet_data f = packet"

text \<open>The documented interface of SHA-256: 32 bytes.\<close>

definition sha_ok :: "crypto \<Rightarrow> bool" where
  "sha_ok cr \<longleftrightarrow> (\<forall>x. length (sha256 cr x) = 32)"

text \<open>What a relay has to know for a ping to be answered.\<close>

definition expects_ping :: "relay_maps \<Rightarrow> relay_config \<Rightarrow> relay_state \<Rightarrow> ping_thread \<Rightarrow> relay_info \<Rightarrow> u64 \<Rightarrow> u32 \<Rightarrow> bool" where
  "expects_ping m cfg st ping r expire src \<longleftrightarrow>
     stats_map m \<noteq> None \<and> config_map m = Some cfg \<and> state_map m = Some st \<and>
     relay_htonl (relay_address r) \<in> {relay_public_address cfg, relay_internal_address cfg} \<and>
     relay_port cfg = relay_htons (info_port r) \<and>
     thread_magic ping \<in> {current_magic st, previous_magic st, next_magic st} \<and> length (thread_magic ping) = 8 \<and>
     take 32 (ping_key st) = take 32 (thread_ping_key ping) \<and>
     current_timestamp st \<le> expire \<and>
     relay_map m (push_bit 32 (ucast src) OR ucast (relay_htons (thread_port ping))) \<noteq> None \<and>
     src = (if relay_internal r \<noteq> 0 then relay_htonl (thread_internal_address ping) else relay_htonl (thread_public_address ping))"

text \<open>What a relay has to know for a pong to reach its ping thread.\<close>

definition expects_pong :: "relay_maps \<Rightarrow> bytes \<Rightarrow> u32 \<Rightarrow> u16 \<Rightarrow> u32 \<Rightarrow> u16 \<Rightarrow> bool" where
  "expects_pong m mg src sport dst dport \<longleftrightarrow>
     stats_map m \<noteq> None \<and>
     (\<exists>cfg st. config_map m = Some cfg \<and> state_map m = Some st \<and>
        dst \<in> {relay_public_address cfg, relay_internal_address cfg} \<and> relay_port cfg = dport \<and>
        mg \<in> {current_magic st, previous_magic st, next_magic st}) \<and>
     relay_map m (push_bit 32 (ucast src) OR ucast sport) \<noteq> None \<and>
     whitelist_map m \<lparr>wl_address = src, wl_port = ucast sport\<rparr> \<noteq> None"

section \<open>Lemmas\<close>

lemma stamped_passes:
  fixes "from" to :: u32
  assumes pd: "pd = [t] @ xdp_pittle from to (length pd) @ xdp_chonkle mg from to (length pd) @ body"
    and "length pd < 65536" "length mg = 8" "t \<noteq> 0" "t \<le> 0x0E"
  shows "xdp_basic_packet_filter pd" "relay_advanced_packet_filter pd mg from to (length pd)"
proof -
  let ?p = "xdp_pittle from to (length pd)" and ?c = "xdp_chonkle mg from to (length pd)"
  have l: "length ?p = 2" "length ?c = 15" by simp_all
  have n: "18 \<le> length pd" by (subst pd) (simp add: l)
  have w: "window 1 2 pd = ?p" "window 3 15 pd = ?c" "pd ! 0 = t"
    by (subst pd, simp add: window_def l)+
  have "stamp ?p ?c pd = pd"
    using n by (simp add: stamp_def w [symmetric] overwrite_window)
  then show "xdp_basic_packet_filter pd" "relay_advanced_packet_filter pd mg from to (length pd)"
    using stamp_passes [of pd mg "from" to] n assms(2-5) w(3) by simp_all
qed

lemma ping_packet_shape:
  fixes expire s
  assumes "sha_ok cr" "length (thread_magic ping) = 8"
    and src: "src = (if relay_internal r \<noteq> 0 then relay_htonl (thread_internal_address ping) else relay_htonl (thread_public_address ping))"
    and dst: "dst = relay_htonl (relay_address r)"
  defines "pd \<equiv> ping_packet cr ping r expire s"
  shows "length pd = 67"
    "pd = [RELAY_PING_PACKET] @ xdp_pittle src dst 67 @ xdp_chonkle (thread_magic ping) src dst 67 @
       le_bytes 8 s @ le_bytes 8 expire @ [relay_internal r] @
       take 32 (sha256 cr (ping_token_bytes (ping_token_for ping r expire)))"
proof -
  have t: "length (take 32 (sha256 cr x)) = 32" for x using assms(1) by (simp add: sha_ok_def)
  have g: "relay_generate_pittle (relay_address_data a) (relay_address_data b) 67 = xdp_pittle a b 67"
    "relay_generate_chonkle (thread_magic ping) (relay_address_data a) (relay_address_data b) 67 =
       xdp_chonkle (thread_magic ping) a b 67" for a b
    using assms(2)
    by (simp_all add: relay_generate_pittle_eq relay_generate_chonkle_eq relay_address_data_le xdp_pittle_eq xdp_chonkle_eq)
  show e: "pd = [RELAY_PING_PACKET] @ xdp_pittle src dst 67 @ xdp_chonkle (thread_magic ping) src dst 67 @
       le_bytes 8 s @ le_bytes 8 expire @ [relay_internal r] @
       take 32 (sha256 cr (ping_token_bytes (ping_token_for ping r expire)))"
    using t src dst by (simp add: pd_def ping_packet_def Let_def codec_simps relay_write_uint8_def g)
  show "length pd = 67" by (subst e) (simp add: t [simplified])
qed

lemma ping_accepted:
  fixes s
  assumes cr: "sha_ok cr" and e: "expects_ping m cfg st ping r expire src"
    and f: "carries f src (relay_htons (thread_port ping)) (relay_htonl (relay_address r)) (relay_htons (info_port r))
      (ping_packet cr ping r expire s)"
  defines "m' \<equiv> INCREMENT_COUNTER RELAY_COUNTER_RELAY_PING_PACKET_RECEIVED
      (ADD_COUNTER RELAY_COUNTER_BYTES_RECEIVED (of_nat (length f)) (INCREMENT_COUNTER RELAY_COUNTER_PACKETS_RECEIVED m))"
  shows "length f = 109" "window 60 8 f = le_bytes 8 s"
    "relay_xdp_filter cr f m = reply_with_pong cfg st RELAY_PONG_PACKET 26 41 RELAY_COUNTER_RELAY_PONG_PACKET_SENT f m'"
proof -
  let ?pd = "ping_packet cr ping r expire s" and ?dst = "relay_htonl (relay_address r)"
  let ?tok = "take 32 (sha256 cr (ping_token_bytes (ping_token_for ping r expire)))"
  have src: "src = (if relay_internal r \<noteq> 0 then relay_htonl (thread_internal_address ping) else relay_htonl (thread_public_address ping))"
    and mg: "length (thread_magic ping) = 8" using e by (simp_all add: expects_ping_def)
  note sh = ping_packet_shape [OF cr mg src refl, of expire s]
  have pd: "packet_data f = ?pd" "42 \<le> length f" using f by (simp_all add: carries_def)
  have "length (packet_data f) = 67" using pd(1) sh(1) by simp
  then show len: "length f = 109" using pd(2) by simp
  have ft: "xdp_basic_packet_filter ?pd" "relay_advanced_packet_filter ?pd (thread_magic ping) src ?dst 67"
    using stamped_passes [of ?pd RELAY_PING_PACKET src ?dst "thread_magic ping"] sh mg by auto
  have wd: "window (42 + o') n f = window o' n ?pd" for o' n
    unfolding pd(1) [symmetric] by (simp add: window_drop)
  have tl: "length ?tok = 32" using cr by (simp add: sha_ok_def)
  have parts: "window 18 8 ?pd = le_bytes 8 s" "window 26 8 ?pd = le_bytes 8 expire" "window 35 32 ?pd = ?tok"
    "?pd ! 0 = RELAY_PING_PACKET"
    using tl by (subst sh(2), simp add: window_def)+
  have ty: "f ! 42 = RELAY_PING_PACKET"
    using parts(4) pd(1) len nth_drop [of 42 f 0] by simp
  show "window 60 8 f = le_bytes 8 s" using wd [of 18 8] parts(1) by simp
  have ex: "load64 68 f = expire" using wd [of 26 8] parts(2) by (simp add: load64_def codec_simps)
  have tk: "window 77 32 f = ?tok" using wd [of 35 32] parts(3) by simp
  have dat: "ping_data st expire src (relay_htons (thread_port ping)) ?dst (relay_htons (info_port r)) = ping_token_for ping r expire"
    using e by (simp add: ping_data_def ping_token_for_def expects_ping_def)
  have ver: "ping_token_matches cr
      (ping_data st expire src (relay_htons (thread_port ping)) ?dst (relay_htons (info_port r))) ?tok"
    by (simp add: ping_token_matches_def dat)
  have c: "ip_saddr f = src" "udp_source f = relay_htons (thread_port ping)" "ip_daddr f = ?dst"
    "udp_dest f = relay_htons (info_port r)" "eth_proto f = ETH_P_IP" "ip_protocol f = 17" "ip_ihl f = 5"
    using f by (simp_all add: carries_def)
  have adv: "advanced_filter_any cfg st f"
    using ft(2) e c len unfolding advanced_filter_any_def expects_ping_def pd(1) by (auto simp: Let_def)
  have "relay_ping_packet cr cfg st f m1 = reply_with_pong cfg st RELAY_PONG_PACKET 26 41
      RELAY_COUNTER_RELAY_PONG_PACKET_SENT f (INCREMENT_COUNTER RELAY_COUNTER_RELAY_PING_PACKET_RECEIVED m1)"
    if "relay_map m1 = relay_map m" for m1
    using that e ver len c
    by (auto simp: relay_ping_packet_def Let_def ex tk relay_map_key_def expects_ping_def counter_maps)
  then show "relay_xdp_filter cr f m = reply_with_pong cfg st RELAY_PONG_PACKET 26 41 RELAY_COUNTER_RELAY_PONG_PACKET_SENT f m'"
    using e c len adv ft(1) ty
    by (auto simp: relay_xdp_filter_def relay_filter_packet_def relay_process_packet_def to_relay_def expects_ping_def
        counter_maps pd(1) m'_def)
qed

lemma pong_accepted:
  assumes e: "expects_pong m mg src sport dst dport" and f: "carries f src sport dst dport pd"
    and pd: "length pd = 26" "pd ! 0 = RELAY_PONG_PACKET" "xdp_basic_packet_filter pd"
      "relay_advanced_packet_filter pd mg src dst 26"
  shows "verdict (relay_xdp_filter cr f m) = XDP_PASS"
proof -
  obtain cfg st where cs: "config_map m = Some cfg" "state_map m = Some st"
    "dst \<in> {relay_public_address cfg, relay_internal_address cfg}" "relay_port cfg = dport"
    "mg \<in> {current_magic st, previous_magic st, next_magic st}"
    using e by (auto simp: expects_pong_def)
  have c: "ip_saddr f = src" "udp_source f = sport" "ip_daddr f = dst" "udp_dest f = dport"
    "eth_proto f = ETH_P_IP" "ip_protocol f = 17" "ip_ihl f = 5" "packet_data f = pd" "42 \<le> length f"
    using f by (simp_all add: carries_def)
  have len: "length f = 68" using pd(1) c(8,9) length_drop [of 42 f] by simp
  have ty: "f ! 42 = RELAY_PONG_PACKET" using pd(2) c(8) len nth_drop [of 42 f 0] by simp
  have adv: "advanced_filter_any cfg st f"
    using pd(4) cs c len unfolding advanced_filter_any_def c(8) by (auto simp: Let_def)
  show ?thesis using e cs c len ty adv pd(3)
    by (auto simp: relay_xdp_filter_def relay_filter_packet_def relay_process_packet_def to_relay_def expects_pong_def
        counter_maps relay_pong_packet_def relay_map_key_def source_key_def)
qed

lemma synthetic_carries:
  "carries (synthetic_frame ping a p pd) (relay_htonl a) (relay_htons p)
     (relay_htonl (thread_public_address ping)) (relay_htons (thread_port ping)) pd"
  by (simp add: carries_def synthetic_frame_def window_def load_defs codec_simps nth_append)

end
