(* ===== verification/Relay_Examples.thy ===== *)
theory Relay_Examples
  imports Relay_Ping
begin

text \<open>
  A small relay to try things on: its configuration, state and maps, a stand-in for the cryptographic primitives, and
  packets of a session, evaluated by the definitions of the model. The witnesses of the properties use them.
\<close>

section \<open>Definitions\<close>

definition example_crypto :: crypto where
  "example_crypto =
     \<lparr>sha256 = (\<lambda>bs. le_bytes 8 (relay_hash_string bs) @ replicate 24 0),
      xchacha20poly1305_decrypt = (\<lambda>nonce key c.
        if 16 \<le> length c \<and> drop (length c - 16) c = le_bytes 8 (relay_hash_string (nonce @ key)) @ replicate 8 0
        then Some (take (length c - 16) c) else None)\<rparr>"

definition example_magic :: bytes where "example_magic = [1, 2, 3, 4, 5, 6, 7, 8]"

definition example_config :: relay_config where
  "example_config =
     \<lparr>dedicated = 0, relay_public_address = bswap32 0x0A000001,
      relay_internal_address = bswap32 0x0A000001, relay_port = bswap16 40000, relay_secret_key = replicate 32 9,
      relay_backend_public_key = replicate 32 8, gateway_ethernet_address = replicate 6 0,
      use_gateway_ethernet_address = 0\<rparr>"

definition example_state :: relay_state where
  "example_state =
     \<lparr>current_timestamp = 100, current_magic = example_magic, previous_magic = replicate 8 0,
      next_magic = replicate 8 255, ping_key = replicate 32 7\<rparr>"

definition example_session :: session_data where
  "example_session =
     \<lparr>session_private_key = replicate 32 5, expire_timestamp = 200, session_id = 77,
      payload_client_to_server_sequence = 4, payload_server_to_client_sequence = 0,
      special_client_to_server_sequence = 0, special_server_to_client_sequence = 0,
      envelope_kbps_up = 256, envelope_kbps_down = 256,
      next_address = bswap32 0x0A000003, prev_address = bswap32 0x0A000002,
      next_port = bswap16 40000, prev_port = bswap16 30000,
      session_version = 1, next_internal = 0, prev_internal = 0, first_hop = 0\<rparr>"

definition example_whitelist :: "whitelist_key \<Rightarrow> whitelist_value option" where
  "example_whitelist k =
     (if k = \<lparr>wl_address = bswap32 0x0A000002, wl_port = ucast (bswap16 30000)\<rparr> \<or>
         k = \<lparr>wl_address = bswap32 0x0A000003, wl_port = ucast (bswap16 40000)\<rparr>
      then Some \<lparr>wl_expire_timestamp = 1000, wl_source_address = replicate 6 1, wl_dest_address = replicate 6 2\<rparr>
      else None)"

definition example_maps :: relay_maps where
  "example_maps =
     \<lparr>stats_map = Some (\<lambda>_. 0), config_map = Some example_config, state_map = Some example_state,
      relay_map = (\<lambda>k. if k = push_bit 32 (ucast (bswap32 0x0A000003)) OR ucast (bswap16 40000) then Some 1 else None),
      session_map = (\<lambda>k. if k = \<lparr>key_session_id = 77, key_session_version = 1\<rparr> then Some example_session else None),
      whitelist_map = example_whitelist\<rparr>"

text \<open>The ping thread of the relay itself, which knows no other relays yet.\<close>

definition example_thread :: ping_thread where
  "example_thread =
     \<lparr>thread_port = 40000, thread_public_address = 0x0A000001, thread_internal_address = 0x0A000001,
      thread_manager = [], thread_timestamp = 100, thread_magic = example_magic, has_ping_key = True,
      thread_ping_key = replicate 32 7, pings_sent = 0, ping_bytes_sent = 0\<rparr>"

text \<open>A frame from an address with filter bytes for the relay.\<close>

definition example_frame :: "u32 \<Rightarrow> u16 \<Rightarrow> u8 \<Rightarrow> bytes \<Rightarrow> bytes" where
  "example_frame a p t body =
     (let n = 18 + length body; src = bswap32 a; dst = bswap32 0x0A000001 in
      synthetic_frame example_thread a p ([t] @ xdp_pittle src dst n @ xdp_chonkle example_magic src dst n @ body))"

text \<open>A client to server packet of the session, with sequence number 5.\<close>

definition example_payload :: bytes where
  "example_payload =
     (let h = le_bytes 8 (5 :: u64) @ le_bytes 8 (77 :: u64) @ [1] in
      example_frame 0x0A000002 30000 RELAY_CLIENT_TO_SERVER_PACKET
        (h @ take 8 (sha256 example_crypto (header_data_bytes
           \<lparr>hd_session_private_key = replicate 32 5, hd_packet_type = RELAY_CLIENT_TO_SERVER_PACKET,
            hd_packet_sequence = 5, hd_session_id = 77, hd_session_version = 1\<rparr>)) @ [0xAB, 0xCD]))"

text \<open>A route request of a whitelisted client with a route token for a session 78, followed by the next relay's token.\<close>

definition example_token :: bytes where
  "example_token =
     replicate 24 3 @
     replicate 32 6 @ le_bytes 8 (300 :: u64) @ le_bytes 8 (78 :: u64) @ le_bytes 4 (256 :: u32) @ le_bytes 4 (256 :: u32) @
     le_bytes 4 (bswap32 0x0A000003) @ le_bytes 4 (0 :: u32) @ le_bytes 2 (bswap16 40000) @ le_bytes 2 (0 :: u16) @ [1, 0, 0] @
     le_bytes 8 (relay_hash_string (replicate 24 3 @ replicate 32 9)) @ replicate 8 0"

definition example_route_request :: bytes where
  "example_route_request =
     example_frame 0x0A000002 30000 RELAY_ROUTE_REQUEST_PACKET (example_token @ replicate 111 0)"

section \<open>Facts about the examples\<close>

lemma example_payload_sent: "verdict (relay_xdp_filter example_crypto example_payload example_maps) = XDP_TX"
  by code_simp

lemma example_payload_type: "example_payload ! 42 = RELAY_CLIENT_TO_SERVER_PACKET"
  by (simp add: example_payload_def example_frame_def synthetic_frame_def Let_def nth_append)

lemma example_payload_key: "header_session_key example_payload = \<lparr>key_session_id = 77, key_session_version = 1\<rparr>"
  by (simp add: example_payload_def example_frame_def synthetic_frame_def Let_def nth_append header_session_key_def
      load_defs window_def codec_simps)

lemma example_request_opens_session:
  "session_map (out_maps (relay_xdp_filter example_crypto example_route_request example_maps))
     \<lparr>key_session_id = 78, key_session_version = 1\<rparr> \<noteq> None"
  by code_simp

lemma example_maps_wf: "wf_maps example_maps"
  by (simp add: wf_maps_def example_maps_def example_config_def example_state_def example_magic_def
      wf_whitelist_def example_whitelist_def)

lemma example_aead: "aead_ok example_crypto"
  by (simp add: aead_ok_def example_crypto_def)

lemma example_sha: "sha_ok example_crypto"
  by (simp add: sha_ok_def example_crypto_def)

end
