(* ===== verification/Relay_Properties.thy ===== *)
theory Relay_Properties
  imports Relay_Examples
begin

text \<open>
  The properties of the relay's datapath as a whole, drawn from the lemmas of the theories before: sessions, admission,
  what is sent, the books, and two bounds. Each comes with an instance on the example relay.
\<close>

section \<open>Definitions\<close>

definition example_life :: "bytes list" where
  "example_life = [example_payload]"

text \<open>The one's complement sum of the IP header, and when a receiver accepts it.\<close>

definition header_total :: "bytes \<Rightarrow> nat" where
  "header_total f = (\<Sum>i \<leftarrow> [0..<10]. unat (load16 (14 + 2 * i) f))"

definition checksum_valid :: "bytes \<Rightarrow> bool" where
  "checksum_valid f \<longleftrightarrow> header_total f mod 65535 = 0"

text \<open>Another relay, how it sees this one, its ping, and the maps of this relay before anybody is whitelisted.\<close>

definition example_peer :: ping_thread where
  "example_peer = example_thread\<lparr>thread_public_address := 0x0A000003, thread_internal_address := 0x0A000003\<rparr>"

definition example_relay_info :: relay_info where
  "example_relay_info = \<lparr>relay_id = 1, relay_address = 0x0A000001, info_port = 40000, relay_internal = 0\<rparr>"

definition example_ping_frame :: bytes where
  "example_ping_frame = synthetic_frame example_thread 0x0A000003 40000
     (ping_packet example_crypto example_peer example_relay_info 130 0)"

definition example_pong_frame :: bytes where
  "example_pong_frame =
     (let src = bswap32 0x0A000001; dst = bswap32 0x0A000003 in
      synthetic_frame example_peer 0x0A000001 40000
        ([RELAY_PONG_PACKET] @ xdp_pittle src dst 26 @ xdp_chonkle example_magic src dst 26 @ replicate 8 0))"

definition example_peer_maps :: relay_maps where
  "example_peer_maps =
     example_maps\<lparr>config_map := Some (example_config\<lparr>relay_public_address := bswap32 0x0A000003\<rparr>),
       relay_map := \<lambda>_. Some 1,
       whitelist_map := \<lambda>_. Some \<lparr>wl_expire_timestamp = 1000, wl_source_address = replicate 6 1, wl_dest_address = replicate 6 2\<rparr>\<rparr>"

definition example_empty_maps :: relay_maps where
  "example_empty_maps = example_maps\<lparr>whitelist_map := \<lambda>_. None\<rparr>"

section \<open>Lemmas\<close>

lemma example_next_maps:
  "session_map (out_maps (relay_xdp_filter example_crypto example_payload example_maps))
     \<lparr>key_session_id = 77, key_session_version = 1\<rparr> \<noteq> None"
proof (rule filter_session_TX [of example_payload client_to_server_handler example_crypto example_maps])
  show "handler_of (example_payload ! 42) = Some client_to_server_handler"
    by (simp add: example_payload_type handler_of_def)
  show "verdict (relay_xdp_filter example_crypto example_payload example_maps) = XDP_TX"
    by (rule example_payload_sent)
qed (simp add: example_payload_key)

lemma example_session_life:
  "session_life example_crypto \<lparr>key_session_id = 77, key_session_version = 1\<rparr> example_maps
     example_life (out_maps (relay_xdp_filter example_crypto example_payload example_maps))"
proof -
  let ?k = "\<lparr>key_session_id = 77, key_session_version = 1\<rparr>"
  have "session_life example_crypto ?k example_maps [] example_maps"
    by (rule session_life.start) (simp add: example_maps_def)
  from session_life.packet [OF this refl example_next_maps] show ?thesis
    by (simp add: example_life_def forwards_def example_payload_sent example_payload_type example_payload_key kind_of_def)
qed

lemma le_word_zeros: "le_word (replicate n 0) = 0"
  by (induction n) simp_all

lemma ten: "[0..<10] = [0, 1, 2, 3, 4, 5, 6, 7, 8, 9::nat]"
  by (simp add: upt_rec)

lemma header_total_bound: "header_total f \<le> 655350"
proof -
  have b: "unat (load16 o' f) \<le> 65535" for o'
  proof -
    have "unat (load16 o' f) < 2 ^ LENGTH(16)" by (rule unsigned_less)
    then show ?thesis by simp
  qed
  show ?thesis
    unfolding header_total_def ten
    using b [of 14] b [of 16] b [of 18] b [of 20] b [of 22] b [of 24] b [of 26] b [of 28] b [of 30] b [of 32] by simp
qed

lemma unat_header_sum: "unat (ip_header_sum f) = header_total f"
proof -
  have u: "(ucast (w::u16) :: u32) = of_nat (unat w)" for w by simp
  have "ip_header_sum f = of_nat (header_total f)"
    unfolding ip_header_sum_def header_total_def ten by simp
  then show ?thesis using header_total_bound [of f] by (simp add: unsigned_of_nat take_bit_eq_mod)
qed

lemma unat_not16: "unat (NOT (y::u16)) = 65535 - unat y"
proof -
  have "NOT y = - 1 - y" by (simp add: not_eq_complement)
  moreover have "unat (- 1 - y) = unat (- 1 :: u16) - unat y" by (rule unat_sub) simp
  moreover have "unat (- 1 :: u16) = 65535" by (simp add: unsigned_minus_1_eq_mask mask_eq_exp_minus_1)
  ultimately show ?thesis by simp
qed

lemma unat_ip_checksum:
  "unat (ip_checksum f) = 65535 - (header_total f mod 65536 + header_total f div 65536) mod 65536"
proof -
  let ?s = "ip_header_sum f" and ?t = "header_total f"
  let ?x = "(?s AND 0xFFFF) + drop_bit 16 ?s"
  have m: "(0xFFFF :: u32) = mask 16" by (simp add: mask_eq_exp_minus_1)
  have a: "unat (?s AND 0xFFFF) = ?t mod 65536"
    unfolding m take_bit_eq_mask [symmetric] unsigned_take_bit_eq unat_header_sum by (simp add: take_bit_eq_mod)
  have d: "unat (drop_bit 16 ?s) = ?t div 65536"
    unfolding unsigned_drop_bit_eq unsigned_take_bit_eq unat_header_sum
    using header_total_bound [of f] by (simp add: drop_bit_eq_div take_bit_eq_mod)
  have "unat ?x = ?t mod 65536 + ?t div 65536"
    using header_total_bound [of f] by (subst unat_word_ariths) (simp add: a d)
  then have "unat (ucast ?x :: u16) = (?t mod 65536 + ?t div 65536) mod 65536"
    by (simp add: unsigned_ucast_eq take_bit_eq_mod)
  moreover have "ip_checksum f = NOT (ucast ?x :: u16)"
    unfolding ip_checksum_def Let_def by (rule bit_word_eqI) (simp add: bit_simps)
  ultimately show ?thesis by (simp add: unat_not16)
qed

lemma folded_once:
  assumes "(t::nat) \<le> 655350"
  shows "(t + (65535 - (t mod 65536 + t div 65536) mod 65536)) mod 65535 = 0 \<longleftrightarrow> t mod 65536 + t div 65536 < 65536"
proof -
  define l h where "l = t mod 65536" and "h = t div 65536"
  have t: "t = h * 65536 + l" and l: "l < 65536" and h: "h < 10" using assms by (auto simp: l_def h_def)
  show ?thesis
  proof (cases "l + h < 65536")
    case True
    then have "t + (65535 - (l + h) mod 65536) = (h + 1) * 65535" using t by simp
    then show ?thesis using True unfolding l_def [symmetric] h_def [symmetric] by (metis mod_mult_self2_is_0)
  next
    case False
    then have "(l + h) mod 65536 = l + h - 65536" using l h by (simp add: mod_if)
    then have "t + (65535 - (l + h) mod 65536) = 1 + (h + 2) * 65535" using t l h False by simp
    then have "(t + (65535 - (l + h) mod 65536)) mod 65535 = 1"
      by (simp only: mod_mult_self1) simp
    then show ?thesis using False unfolding l_def [symmetric] h_def [symmetric] by simp
  qed
qed

lemma header_total_written:
  assumes "34 \<le> length f" "load16 24 f = 0"
  shows "header_total (write_checksum f) = header_total f + unat (ip_checksum f)"
proof -
  have "load16 o' (write_checksum f) = load16 o' f" if "o' + 2 \<le> 24 \<or> 26 \<le> o'" "o' + 2 \<le> length f" for o'
    using that assms(1) by (auto simp: write_checksum_def store16_def load16_def buffer_simps)
  moreover have "load16 24 (write_checksum f) = ip_checksum f"
    using assms(1) by (simp add: write_checksum_def store16_def load16_def buffer_simps codec_simps)
  ultimately show ?thesis using assms unfolding header_total_def ten by simp
qed

lemma example_expects_ping:
  "expects_ping example_empty_maps example_config example_state example_peer example_relay_info 130 (bswap32 0x0A000003)"
  "expects_ping example_maps example_config example_state example_peer example_relay_info 130 (bswap32 0x0A000003)"
  by (simp_all add: expects_ping_def example_empty_maps_def example_maps_def example_peer_def example_relay_info_def
      example_config_def example_state_def example_magic_def example_thread_def)

lemma example_ping_carried:
  "carries example_ping_frame (bswap32 0x0A000003) (relay_htons (thread_port example_peer))
    (relay_htonl (relay_address example_relay_info)) (relay_htons (info_port example_relay_info))
    (ping_packet example_crypto example_peer example_relay_info 130 0)"
  using synthetic_carries [of example_thread "0x0A000003" 40000]
  by (simp add: example_ping_frame_def example_peer_def example_relay_info_def example_thread_def)

lemma example_expects_pong:
  "expects_pong example_peer_maps (current_magic example_state) (relay_htonl (relay_address example_relay_info))
     (relay_htons (info_port example_relay_info)) (bswap32 0x0A000003) (relay_htons (thread_port example_peer))"
  by (simp add: expects_pong_def example_peer_maps_def example_relay_info_def example_maps_def example_config_def
      example_peer_def example_thread_def)

section \<open>Sessions\<close>

text \<open>
  C1. While a session lives, none of its packets is forwarded twice: whatever packets arrive in whatever order, and
  whatever the control plane does to other entries, the packets the relay forwards for the session carry strictly
  increasing sequence numbers in each of the four sequences.
\<close>

theorem session_packets_forwarded_at_most_once:
  assumes "session_life cr k m fs m'"
  shows "sorted_wrt (<) (map header_sequence (of_kind q fs)) \<and> distinct (map header_sequence (of_kind q fs))"
  using session_life_ordered(1) [OF assms] strict_sorted_iff by blast

theorem session_packets_forwarded_at_most_once_witness:
  "distinct (map header_sequence (of_kind Payload_Client_To_Server example_life)) \<and>
   of_kind Payload_Client_To_Server example_life = [example_payload]"
  using session_packets_forwarded_at_most_once [OF example_session_life, of Payload_Client_To_Server]
  by (simp add: example_life_def example_payload_type kind_of_def)

text \<open>
  C2. A session packet is forwarded only if it belongs: its session exists and has not expired, its sequence number is
  newer than the last one of its kind, its header verifies under the session's private key, and both the
  sender and the next hop are whitelisted. It then leaves for the hop the session prescribes with its payload unchanged.
\<close>

theorem forwarded_session_packets_are_authentic:
  assumes "handler_of (f ! 42) = Some h" "verdict (relay_xdp_filter cr f m) = XDP_TX" "wf_maps m"
  shows "\<exists>cfg st s. config_map m = Some cfg \<and> state_map m = Some st \<and>
    session_map m (header_session_key f) = Some s \<and> current_timestamp st \<le> expire_timestamp s \<and>
    get_sequence h s < header_sequence f \<and> header_verifies cr s f \<and>
    whitelist_map m (source_key f) \<noteq> None \<and> whitelist_map m (hop_key h s) \<noteq> None \<and>
    ip_saddr (out_frame (relay_xdp_filter cr f m)) = relay_internal_address cfg \<and>
    ip_daddr (out_frame (relay_xdp_filter cr f m)) = hop_address h s \<and>
    udp_dest (out_frame (relay_xdp_filter cr f m)) = hop_port h s \<and>
    drop 60 (out_frame (relay_xdp_filter cr f m)) = drop 60 f"
  using assms(1,2)
proof (rule filter_session_TX)
  fix cfg st s g
  assume a: "config_map m = Some cfg" "state_map m = Some st" "85 \<le> length f"
    "can_forward cr st h f m s" "whitelist_map m (source_key f) \<noteq> None" "whitelist_map m (hop_key h s) \<noteq> None"
    "relay_redirect_packet (whitelist_map m) (forward_args cfg st (length f - 42) (hop_address h s) (hop_port h s)) f = (XDP_TX, g)"
    "out_frame (relay_xdp_filter cr f m) = g"
  have w: "wf_whitelist (whitelist_map m)" "wf_gateway (gateway_of cfg)"
    using assms(3) a(1) wf_gateway_of by (auto simp: wf_maps_def)
  show ?thesis using redirect_frame [OF a(7)] a w by (auto simp: can_forward_def forward_args_def)
qed

theorem forwarded_session_packets_are_authentic_witness:
  "ip_daddr (out_frame (relay_xdp_filter example_crypto example_payload example_maps)) = bswap32 0x0A000003"
  using forwarded_session_packets_are_authentic
    [of example_payload client_to_server_handler example_crypto example_maps]
  by (simp add: example_payload_type handler_of_def example_payload_sent example_maps_wf example_payload_key)
     (auto simp: example_maps_def example_session_def hop_address_def client_to_server_handler_def)


text \<open>
  C22. A session appears only through a route request from a whitelisted sender that passes both packet filters and whose
  first token decrypts under the relay's secret key and has not expired; the session is the one the token describes.
\<close>

theorem sessions_come_from_route_tokens:
  assumes "session_map m k = None" "session_map (out_maps (relay_xdp_filter cr f m)) k = Some s"
  shows "\<exists>cfg st. config_map m = Some cfg \<and> state_map m = Some st \<and> opens_session cr cfg st f k s \<and>
    whitelist_map m (source_key f) \<noteq> None \<and> xdp_basic_packet_filter (packet_data f) \<and> advanced_filter_any cfg st f"
  using assms by (rule filter_creates_session)

theorem sessions_come_from_route_tokens_witness:
  "\<exists>s. opens_session example_crypto example_config example_state example_route_request
     \<lparr>key_session_id = 78, key_session_version = 1\<rparr> s"
  using sessions_come_from_route_tokens [of example_maps "\<lparr>key_session_id = 78, key_session_version = 1\<rparr>" example_crypto
      example_route_request] example_request_opens_session
  by (force simp: example_maps_def)

section \<open>Admission\<close>

text \<open>
  C25. An address enters the whitelist only by a ping that passes both filters, is unexpired and carries a ping token made
  with the relay's ping key for exactly this sender and this relay; a relay ping must also come from a known relay.
\<close>

theorem whitelist_grows_by_verified_pings:
  assumes "whitelist_map m k = None" "whitelist_map (out_maps (relay_xdp_filter cr f m)) k \<noteq> None"
  shows "\<exists>cfg st. config_map m = Some cfg \<and> state_map m = Some st \<and> k = source_key f \<and> verified_ping cr cfg st f m \<and>
    xdp_basic_packet_filter (packet_data f) \<and> advanced_filter_any cfg st f"
  using assms by (rule filter_whitelist)

theorem whitelist_grows_by_verified_pings_witness:
  "\<exists>cfg st. verified_ping example_crypto cfg st example_ping_frame example_empty_maps"
proof -
  let ?k = "\<lparr>wl_address = bswap32 0x0A000003, wl_port = ucast (bswap16 40000)\<rparr>"
  have "whitelist_map (out_maps (relay_xdp_filter example_crypto example_ping_frame example_empty_maps)) ?k \<noteq> None"
    using example_ping_carried unfolding ping_accepted(3) [OF example_sha example_expects_ping(1) example_ping_carried]
    by (simp add: relay_simps whitelist_insert_def map_update_def source_key_def carries_def example_empty_maps_def
        example_peer_def example_thread_def)
  then show ?thesis
    using whitelist_grows_by_verified_pings [of example_empty_maps ?k example_crypto example_ping_frame]
    by (auto simp: example_empty_maps_def)
qed



section \<open>What the relay sends\<close>

text \<open>
  C18. Every frame the datapath sends is ready to leave: its length fields, IP checksum and filter bytes agree with its
  contents, it carries a known packet type, and it is not longer than the frame that caused it, so the relay
  never amplifies traffic.
\<close>

theorem sent_frames_are_sealed_and_never_longer:
  assumes "wf_maps m" "aead_ok cr" "state_map m = Some st" "relay_xdp_filter cr f m = (XDP_TX, g, m')"
  shows "sealed (current_magic st) g \<and> length g \<le> length f \<and> g ! 42 \<noteq> 0 \<and> g ! 42 \<le> 0x0E"
  using filter_sendable [OF assms] by (simp add: sendable_def)

theorem sent_frames_are_sealed_and_never_longer_witness:
  "sealed example_magic (out_frame (relay_xdp_filter example_crypto example_payload example_maps))"
  using sent_frames_are_sealed_and_never_longer [OF example_maps_wf example_aead, of example_state example_payload
      "out_frame (relay_xdp_filter example_crypto example_payload example_maps)"
      "out_maps (relay_xdp_filter example_crypto example_payload example_maps)"] example_payload_sent
  by (simp add: example_maps_def example_state_def prod_eq_iff)

text \<open>
  C19. The next hop accepts what a relay sends: a frame that leaves a relay passes the basic and the advanced packet
  filter of any relay, and of any SDK instance, that knows the sending relay's current magic value.
\<close>

theorem next_hop_accepts_sent_frames:
  assumes "wf_maps m" "aead_ok cr" "state_map m = Some st" "relay_xdp_filter cr f m = (XDP_TX, g, m')"
    and "length f < 65536"
  shows "xdp_basic_packet_filter (packet_data g) \<and>
    relay_advanced_packet_filter (packet_data g) (current_magic st) (ip_saddr g) (ip_daddr g) (length g - 42) \<and>
    next_advanced_packet_filter (packet_data g) (current_magic st) (le_bytes 4 (ip_saddr g)) (le_bytes 4 (ip_daddr g))
      (of_nat (length g - 42))"
proof -
  have s: "sealed (current_magic st) g" "length g \<le> length f" "g ! 42 \<noteq> 0" "g ! 42 \<le> 0x0E"
    using filter_sendable [OF assms(1-4)] by (simp_all add: sendable_def)
  have l: "60 \<le> length g" using s(1) by (simp add: sealed_def)
  note p = sealed_passes_filters [OF s(1,3,4)]
  have "length (current_magic st) = 8" using assms(1,3) by (simp add: wf_maps_def)
  then show ?thesis
    using p relay_advanced_eq_next [of "packet_data g" "length g - 42" "current_magic st" "ip_saddr g" "ip_daddr g"]
      l s(2,3) assms(5) by simp
qed

theorem next_hop_accepts_sent_frames_witness:
  "xdp_basic_packet_filter (packet_data (out_frame (relay_xdp_filter example_crypto example_payload example_maps)))"
proof -
  have "length example_payload < 65536"
    by (simp add: example_payload_def example_frame_def synthetic_frame_def Let_def)
  then show ?thesis
    using next_hop_accepts_sent_frames [OF example_maps_wf example_aead, of example_state example_payload
        "out_frame (relay_xdp_filter example_crypto example_payload example_maps)"
        "out_maps (relay_xdp_filter example_crypto example_payload example_maps)"] example_payload_sent
    by (simp add: example_maps_def prod_eq_iff)
qed

text \<open>
  C27. A relay ping is answered and its pong recorded. When a relay knows the pinging relay, shares its ping key and one of
  its magic values, and the ping has not expired, its datapath replies with a pong that goes to the sender and
  carries the ping's sequence number; and the pinging relay, if it knows and has whitelisted the other, passes that
  pong to its ping thread, which records it under that sequence number.
\<close>

theorem relay_pings_are_answered:
  assumes "sha_ok cr" "expects_ping m cfg st ping r expire src" "wf_gateway (gateway_of cfg)"
    and f: "carries f src (relay_htons (thread_port ping)) (relay_htonl (relay_address r)) (relay_htons (info_port r))
      (ping_packet cr ping r expire s)"
    and a: "expects_pong mA (current_magic st) (relay_htonl (relay_address r)) (relay_htons (info_port r))
      src (relay_htons (thread_port ping))"
  shows "\<exists>g m'. relay_xdp_filter cr f m = (XDP_TX, g, m') \<and>
    ip_daddr g = src \<and> udp_dest g = relay_htons (thread_port ping) \<and>
    (\<forall>fA. carries fA (relay_htonl (relay_address r)) (relay_htons (info_port r)) src (relay_htons (thread_port ping))
        (packet_data g) \<longrightarrow> verdict (relay_xdp_filter cr fA mA) = XDP_PASS) \<and>
    receive_pong (relay_address r) (info_port r) (packet_data g) t manager =
      fst (relay_manager_process_pong manager (relay_address r) (info_port r) s t)"
proof -
  note p = ping_accepted [OF assms(1,2) f]
  let ?r = "relay_xdp_filter cr f m"
  have n: "length f = 42 + 26 + 41" using p(1) by simp
  have g: "sendable st f (out_frame ?r)" "length (out_frame ?r) = 68" "out_frame ?r ! 42 = RELAY_PONG_PACKET"
    "ip_saddr (out_frame ?r) = ip_daddr f" "ip_daddr (out_frame ?r) = ip_saddr f"
    "udp_source (out_frame ?r) = udp_dest f" "udp_dest (out_frame ?r) = udp_source f"
    "window 60 8 (out_frame ?r) = window 60 8 f"
    using reply_frame [OF assms(3) n, of RELAY_PONG_PACKET st] unfolding p(3) by simp_all
  have c: "ip_saddr f = src" "ip_daddr f = relay_htonl (relay_address r)" "udp_source f = relay_htons (thread_port ping)"
    using f by (simp_all add: carries_def)
  have v: "verdict ?r = XDP_TX" unfolding p(3) by (simp add: relay_simps)
  have q: "xdp_basic_packet_filter (packet_data (out_frame ?r))"
    "relay_advanced_packet_filter (packet_data (out_frame ?r)) (current_magic st) (relay_htonl (relay_address r)) src 26"
    using sealed_passes_filters [of "current_magic st" "out_frame ?r"] g c by (simp_all add: sendable_def)
  have d: "length (packet_data (out_frame ?r)) = 26" "packet_data (out_frame ?r) ! 0 = RELAY_PONG_PACKET"
    "load64 18 (packet_data (out_frame ?r)) = s"
    using g p(2) by (simp_all add: load64_def window_drop codec_simps)
  have "verdict (relay_xdp_filter cr fA mA) = XDP_PASS"
    if "carries fA (relay_htonl (relay_address r)) (relay_htons (info_port r)) src (relay_htons (thread_port ping))
        (packet_data (out_frame ?r))" for fA
    using pong_accepted [OF a that d(1,2) q] .
  moreover have "receive_pong (relay_address r) (info_port r) (packet_data (out_frame ?r)) t manager =
      fst (relay_manager_process_pong manager (relay_address r) (info_port r) s t)"
    using d by (simp add: receive_pong_def)
  ultimately show ?thesis using v g c
    by (intro exI [of _ "out_frame ?r"] exI [of _ "out_maps ?r"]) (simp add: prod_eq_iff)
qed

theorem relay_pings_are_answered_witness:
  "\<exists>g m'. relay_xdp_filter example_crypto example_ping_frame example_maps = (XDP_TX, g, m') \<and>
     ip_daddr g = bswap32 0x0A000003"
proof -
  have g: "wf_gateway (gateway_of example_config)"
    by (simp add: wf_gateway_def gateway_of_def example_config_def)
  show ?thesis
    using relay_pings_are_answered [OF example_sha example_expects_ping(2) g example_ping_carried example_expects_pong] by blast
qed

section \<open>Books and invariants\<close>



text \<open>
  C24. The datapath never changes its configuration, the state the control plane gave it, or the set of known relays, and
  it keeps the maps well formed (magic values, keys and Ethernet addresses keep their sizes).
\<close>

theorem datapath_keeps_invariants:
  "config_map (out_maps (relay_xdp_filter cr f m)) = config_map m \<and>
   state_map (out_maps (relay_xdp_filter cr f m)) = state_map m \<and>
   relay_map (out_maps (relay_xdp_filter cr f m)) = relay_map m \<and>
   (wf_maps m \<longrightarrow> wf_maps (out_maps (relay_xdp_filter cr f m)))"
  using filter_keeps_static [of m cr f] filter_keeps_wf [of m cr f] by (simp add: keeps_static_def)

theorem datapath_keeps_invariants_witness:
  "wf_maps (out_maps (relay_xdp_filter example_crypto example_payload example_maps))"
  using datapath_keeps_invariants [of example_crypto example_payload example_maps] example_maps_wf by blast

text \<open>
  C29. What is not for the relay: frames that are neither IPv4 nor IPv6 and IPv4 frames that are not UDP pass untouched,
  even in dedicated mode; IPv6 frames and UDP packets for another address or port are dropped in dedicated mode
  and pass otherwise. None of them changes a session, the whitelist or the frame.
\<close>

theorem foreign_traffic:
  assumes "stats_map m \<noteq> None" "config_map m = Some cfg" "42 \<le> length f"
    and "eth_proto f \<noteq> ETH_P_IP \<or> ip_protocol f \<noteq> 17 \<or> ip_ihl f = 5 \<and> \<not> to_relay cfg f"
  shows "untouched f m (relay_xdp_filter cr f m) \<and>
    verdict (relay_xdp_filter cr f m) =
      (if dedicated cfg \<noteq> 0 \<and>
          (eth_proto f = ETH_P_IPV6 \<or> eth_proto f = ETH_P_IP \<and> ip_protocol f = 17) then XDP_DROP else XDP_PASS)"
proof -
  have "ETH_P_IP \<noteq> ETH_P_IPV6" by code_simp
  then show ?thesis using assms
    by (auto simp: relay_xdp_filter_def Let_def relay_simps)
qed

theorem foreign_traffic_witness:
  "verdict (relay_xdp_filter example_crypto (store8 23 6 example_ping_frame)
     (example_maps\<lparr>config_map := Some (example_config\<lparr>dedicated := 1\<rparr>)\<rparr>)) = XDP_PASS"
proof -
  have l: "42 \<le> length example_ping_frame" using example_ping_carried by (simp add: carries_def)
  have "ip_protocol (store8 23 6 example_ping_frame) = 6" "42 \<le> length (store8 23 6 example_ping_frame)"
    using l by (simp_all add: store8_def buffer_simps nth_overwrite)
  moreover have "eth_proto (store8 23 6 example_ping_frame) = eth_proto example_ping_frame"
    using l by (simp add: store8_def load16_def buffer_simps)
  moreover have "eth_proto example_ping_frame = ETH_P_IP" using example_ping_carried by (simp add: carries_def)
  moreover have "ETH_P_IP \<noteq> ETH_P_IPV6" by code_simp
  ultimately show ?thesis
    using foreign_traffic [of "example_maps\<lparr>config_map := Some (example_config\<lparr>dedicated := 1\<rparr>)\<rparr>"
        "example_config\<lparr>dedicated := 1\<rparr>" "store8 23 6 example_ping_frame" example_crypto]
    by (simp add: example_maps_def)
qed

section \<open>Two bounds\<close>

text \<open>
  C39. The IP checksum of a rewritten frame is accepted by a receiver exactly when folding the header's sum once leaves
  no carry; when a second carry arises, which \<open>ip_checksum\<close> does not fold, the checksum is wrong.
\<close>

theorem checksum_valid_iff_no_second_carry:
  assumes "34 \<le> length f" "load16 24 f = 0"
  shows "checksum_valid (write_checksum f) \<longleftrightarrow> header_total f mod 65536 + header_total f div 65536 < 65536"
  unfolding checksum_valid_def header_total_written [OF assms] unat_ip_checksum
  by (rule folded_once [OF header_total_bound])

theorem checksum_valid_iff_no_second_carry_witness:
  "\<not> checksum_valid (write_checksum (replicate 14 0 @ [0xFF, 0xFF, 1, 0, 0xFF, 0xFF] @ replicate 14 0)) \<and>
   checksum_valid (write_checksum (replicate 14 0 @ [0x45, 0, 1, 0] @ replicate 16 0))"
proof -
  let ?f = "replicate 14 0 @ [0xFF, 0xFF, 1, 0, 0xFF, 0xFF] @ replicate 14 0 :: bytes"
  let ?g = "replicate 14 0 @ [0x45, 0, 1, 0] @ replicate 16 0 :: bytes"
  have "header_total ?f = 131071" "header_total ?g = 70" "load16 24 ?f = 0" "load16 24 ?g = 0"
    by (simp_all add: header_total_def ten load16_def window_def le_word_zeros)
  then show ?thesis
    using checksum_valid_iff_no_second_carry [of ?f] checksum_valid_iff_no_second_carry [of ?g] by simp
qed



end
