(* ===== verification/Relay_Packets.thy ===== *)
theory Relay_Packets
  imports Wire_Encoding
begin

text \<open>
  The packets between a relay and the backend, \<open>modules/packets/relay_packets.go\<close>: the relay update request
  and its response, with their \<open>Write\<close> and \<open>Read\<close> methods.
\<close>

section \<open>Definitions\<close>

text \<open>The arrays of the Go structs have \<open>MaxRelays\<close> entries of which the first \<open>NumRelays\<close> or \<open>NumSamples\<close> are
  used; they are lists of that length here.\<close>

abbreviation (input) MaxRelays :: nat where "MaxRelays \<equiv> 1000"

abbreviation (input) NumRelayCounters :: nat where "NumRelayCounters \<equiv> 150"

abbreviation (input) MaxRelayVersionLength :: u32 where "MaxRelayVersionLength \<equiv> 32"

record relay_sample =
  SampleRelayId :: u64
  SampleRTT :: u8
  SampleJitter :: u8
  SamplePacketLoss :: u16

text \<open>\<open>float32\<close> fields are their bits.\<close>

record relay_update_request =
  req_Version :: u8
  req_Address :: udp_addr
  req_CurrentTime :: u64
  req_StartTime :: u64
  req_Samples :: "relay_sample list"
  SessionCount :: u32
  EnvelopeBandwidthUpKbps :: u32
  EnvelopeBandwidthDownKbps :: u32
  req_Floats :: "u32 list"
  RelayFlags :: u64
  RelayVersion :: bytes
  RelayCounters :: "u64 list"

record relay_update_response =
  Version :: u8
  Timestamp :: u64
  Relays :: "(u64 \<times> udp_addr \<times> u8) list"
  TargetVersion :: bytes
  UpcomingMagic :: bytes
  CurrentMagic :: bytes
  PreviousMagic :: bytes
  ExpectedPublicAddress :: udp_addr
  ExpectedInternalAddress :: udp_addr
  ExpectedHasInternalAddress :: u8
  ExpectedRelayPublicKey :: bytes
  ExpectedRelayBackendPublicKey :: bytes
  TestToken :: bytes
  PingKey :: bytes

definition write_sample :: "relay_sample \<Rightarrow> bytes" where
  "write_sample s =
     WriteUint64 (SampleRelayId s) @ WriteUint8 (SampleRTT s) @ WriteUint8 (SampleJitter s) @
     WriteUint16 (SamplePacketLoss s)"

text \<open>\<open>None\<close> is a panic: a bad version or a version string that is too long.\<close>

definition write_update_request :: "relay_update_request \<Rightarrow> bytes option" where
  "write_update_request p =
     (if req_Version p < 1 \<or> req_Version p > 1 then None
      else do {
        v \<leftarrow> WriteString (RelayVersion p) MaxRelayVersionLength;
        Some (WriteUint8 (req_Version p) @ WriteAddress (req_Address p) @
          WriteUint64 (req_CurrentTime p) @ WriteUint64 (req_StartTime p) @
          WriteUint32 (of_nat (length (req_Samples p))) @ concat (map write_sample (req_Samples p)) @
          WriteUint32 (SessionCount p) @ WriteUint32 (EnvelopeBandwidthUpKbps p) @
          WriteUint32 (EnvelopeBandwidthDownKbps p) @ concat (map WriteUint32 (req_Floats p)) @
          WriteUint64 (RelayFlags p) @ v @
          WriteUint32 (of_nat (length (RelayCounters p))) @ concat (map WriteUint64 (RelayCounters p))) })"

fun read_many :: "'a reader \<Rightarrow> nat \<Rightarrow> 'a list reader" where
  "read_many rd 0 q = Some ([], q)"
| "read_many rd (Suc n) q = do { (x, q) \<leftarrow> rd q; (xs, q) \<leftarrow> read_many rd n q; Some (x # xs, q) }"

definition read_sample :: "relay_sample reader" where
  "read_sample q =
     do { (i, q) \<leftarrow> ReadUint64 q; (r, q) \<leftarrow> ReadUint8 q; (j, q) \<leftarrow> ReadUint8 q; (l, q) \<leftarrow> ReadUint16 q;
          Some (\<lparr>SampleRelayId = i, SampleRTT = r, SampleJitter = j, SamplePacketLoss = l\<rparr>, q) }"

text \<open>\<open>None\<close> is an error. The result of reading the version is not checked, but a packet without it has none of
  the valid versions.\<close>

definition read_update_request :: "bytes \<Rightarrow> relay_update_request option" where
  "read_update_request q =
     do { (v, q) \<leftarrow> ReadUint8 q;
          if v < 1 \<or> v > 1 then None
          else do {
            (a, q) \<leftarrow> ReadAddress q;
            (now, q) \<leftarrow> ReadUint64 q;
            (start, q) \<leftarrow> ReadUint64 q;
            (n, q) \<leftarrow> ReadUint32 q;
            if unat n > MaxRelays then None
            else do {
              (samples, q) \<leftarrow> read_many read_sample (unat n) q;
              (sessions, q) \<leftarrow> ReadUint32 q;
              (up, q) \<leftarrow> ReadUint32 q;
              (down, q) \<leftarrow> ReadUint32 q;
              (floats, q) \<leftarrow> read_many ReadUint32 7 q;
              (flags, q) \<leftarrow> ReadUint64 q;
              (version, q) \<leftarrow> ReadString MaxRelayVersionLength q;
              (k, q) \<leftarrow> ReadUint32 q;
              if unat k \<noteq> NumRelayCounters then None
              else do {
                (counters, q) \<leftarrow> read_many ReadUint64 (unat k) q;
                Some \<lparr>req_Version = v, req_Address = a, req_CurrentTime = now, req_StartTime = start,
                  req_Samples = samples, SessionCount = sessions, EnvelopeBandwidthUpKbps = up,
                  EnvelopeBandwidthDownKbps = down, req_Floats = floats, RelayFlags = flags,
                  RelayVersion = version, RelayCounters = counters\<rparr> } } } }"

definition write_relay :: "u64 \<times> udp_addr \<times> u8 \<Rightarrow> bytes" where
  "write_relay r = (case r of (i, a, internal) \<Rightarrow> WriteUint64 i @ WriteAddress a @ WriteUint8 internal)"

definition write_update_response :: "relay_update_response \<Rightarrow> bytes option" where
  "write_update_response p =
     (if Version p < 1 \<or> Version p > 1 then None
      else do {
        v \<leftarrow> WriteString (TargetVersion p) MaxRelayVersionLength;
        m1 \<leftarrow> WriteBytes (UpcomingMagic p) 8;
        m2 \<leftarrow> WriteBytes (CurrentMagic p) 8;
        m3 \<leftarrow> WriteBytes (PreviousMagic p) 8;
        k1 \<leftarrow> WriteBytes (ExpectedRelayPublicKey p) 32;
        k2 \<leftarrow> WriteBytes (ExpectedRelayBackendPublicKey p) 32;
        t \<leftarrow> WriteBytes (TestToken p) 111;
        k3 \<leftarrow> WriteBytes (PingKey p) 32;
        Some (WriteUint8 (Version p) @ WriteUint64 (Timestamp p) @ WriteUint32 (of_nat (length (Relays p))) @
          concat (map write_relay (Relays p)) @ v @ m1 @ m2 @ m3 @
          WriteAddress (ExpectedPublicAddress p) @ WriteUint8 (ExpectedHasInternalAddress p) @
          (if ExpectedHasInternalAddress p \<noteq> 0 then WriteAddress (ExpectedInternalAddress p) else []) @
          k1 @ k2 @ t @ k3) })"

definition read_relay :: "(u64 \<times> udp_addr \<times> u8) reader" where
  "read_relay q = do { (i, q) \<leftarrow> ReadUint64 q; (a, q) \<leftarrow> ReadAddress q; (n, q) \<leftarrow> ReadUint8 q; Some ((i, a, n), q) }"

text \<open>A packet that is read has no internal address unless the flag says so; the struct is assumed zero before.\<close>

definition read_update_response :: "bytes \<Rightarrow> relay_update_response option" where
  "read_update_response q =
     do { (v, q) \<leftarrow> ReadUint8 q;
          if v < 1 \<or> v > 1 then None
          else do {
            (ts, q) \<leftarrow> ReadUint64 q;
            (n, q) \<leftarrow> ReadUint32 q;
            if unat n > MaxRelays then None
            else do {
              (relays, q) \<leftarrow> read_many read_relay (unat n) q;
              (version, q) \<leftarrow> ReadString MaxRelayVersionLength q;
              (m1, q) \<leftarrow> ReadBytes 8 q;
              (m2, q) \<leftarrow> ReadBytes 8 q;
              (m3, q) \<leftarrow> ReadBytes 8 q;
              (pub, q) \<leftarrow> ReadAddress q;
              (has, q) \<leftarrow> ReadUint8 q;
              (int', q) \<leftarrow> (if has \<noteq> 0 then ReadAddress q else Some (No_Addr, q));
              (k1, q) \<leftarrow> ReadBytes 32 q;
              (k2, q) \<leftarrow> ReadBytes 32 q;
              (t, q) \<leftarrow> ReadBytes 111 q;
              (k3, q) \<leftarrow> ReadBytes 32 q;
              Some \<lparr>Version = v, Timestamp = ts, Relays = relays, TargetVersion = version, UpcomingMagic = m1,
                CurrentMagic = m2, PreviousMagic = m3, ExpectedPublicAddress = pub, ExpectedInternalAddress = int',
                ExpectedHasInternalAddress = has, ExpectedRelayPublicKey = k1,
                ExpectedRelayBackendPublicKey = k2, TestToken = t, PingKey = k3\<rparr> } } }"

definition wf_request :: "relay_update_request \<Rightarrow> bool" where
  "wf_request p \<longleftrightarrow>
     req_Version p = 1 \<and> wf_addr (req_Address p) \<and> length (req_Samples p) \<le> MaxRelays \<and> length (req_Floats p) = 7 \<and>
     length (RelayVersion p) \<le> 32 \<and> length (RelayCounters p) = NumRelayCounters"

definition wf_response :: "relay_update_response \<Rightarrow> bool" where
  "wf_response p \<longleftrightarrow>
     Version p = 1 \<and> length (Relays p) \<le> MaxRelays \<and> (\<forall>(i, a, n) \<in> set (Relays p). wf_addr a) \<and>
     length (TargetVersion p) \<le> 32 \<and> length (UpcomingMagic p) = 8 \<and> length (CurrentMagic p) = 8 \<and>
     length (PreviousMagic p) = 8 \<and> wf_addr (ExpectedPublicAddress p) \<and> wf_addr (ExpectedInternalAddress p) \<and>
     (ExpectedHasInternalAddress p = 0 \<longrightarrow> ExpectedInternalAddress p = No_Addr) \<and>
     length (ExpectedRelayPublicKey p) = 32 \<and> length (ExpectedRelayBackendPublicKey p) = 32 \<and>
     length (TestToken p) = 111 \<and> length (PingKey p) = 32"

definition example_request :: relay_update_request where
  "example_request =
     \<lparr>req_Version = 1, req_Address = IPv4 [10, 0, 0, 1] 40000, req_CurrentTime = 100, req_StartTime = 50,
      req_Samples = [\<lparr>SampleRelayId = 7, SampleRTT = 10, SampleJitter = 1, SamplePacketLoss = 0\<rparr>],
      SessionCount = 2, EnvelopeBandwidthUpKbps = 256, EnvelopeBandwidthDownKbps = 256, req_Floats = replicate 7 0,
      RelayFlags = 0, RelayVersion = [114, 49], RelayCounters = replicate 150 0\<rparr>"

definition example_response :: relay_update_response where
  "example_response =
     \<lparr>Version = 1, Timestamp = 100, Relays = [(7, IPv4 [10, 0, 0, 2] 40000, 0)], TargetVersion = [114, 49],
      UpcomingMagic = replicate 8 1, CurrentMagic = replicate 8 2, PreviousMagic = replicate 8 3,
      ExpectedPublicAddress = IPv4 [10, 0, 0, 1] 40000, ExpectedInternalAddress = No_Addr,
      ExpectedHasInternalAddress = 0, ExpectedRelayPublicKey = replicate 32 4,
      ExpectedRelayBackendPublicKey = replicate 32 5, TestToken = replicate 111 6, PingKey = replicate 32 7\<rparr>"

section \<open>Lemmas\<close>

lemma go_read_written [codec_simps]:
  "ReadUint8 (relay_write_uint8 d @ q) = Some (d, q)"
  "ReadUint16 (le_bytes 2 a @ q) = Some (a, q)" "ReadUint32 (le_bytes 4 b @ q) = Some (b, q)"
  "ReadUint64 (le_bytes 8 c @ q) = Some (c, q)"
  "length bs = n \<Longrightarrow> ReadBytes n (bs @ q) = Some (bs, q)"
  using read_written by (simp_all add: relay_read_eq ReadBytes_def)

lemma read_many_written:
  "(\<And>x q. x \<in> set xs \<Longrightarrow> rd (wr x @ q) = Some (x, q)) \<Longrightarrow> length xs = n \<Longrightarrow>
   read_many rd n (concat (map wr xs) @ q) = Some (xs, q)"
  by (induction xs arbitrary: n q) auto

lemma WriteString_small: "length s \<le> 32 \<Longrightarrow> \<exists>bs. WriteString s MaxRelayVersionLength = Some bs"
  by (simp add: WriteString_def not_less word_le_nat_alt unsigned_of_nat take_bit_eq_mod)

lemma small_count: "n \<le> 1000 \<Longrightarrow> unat (of_nat n :: u32) = n"
  by (simp add: unsigned_of_nat take_bit_eq_mod)

lemma read_sample_written: "read_sample (write_sample s @ q) = Some (s, q)"
  by (simp add: read_sample_def write_sample_def codec_simps)

lemma read_relay_written: "wf_addr a \<Longrightarrow> read_relay (write_relay (i, a, n) @ q) = Some ((i, a, n), q)"
  by (simp add: read_relay_def write_relay_def codec_simps ReadAddress_Write)

lemma read_written_request:
  assumes "wf_request p"
  shows "\<exists>bs. write_update_request p = Some bs \<and> read_update_request bs = Some p"
proof -
  obtain v where v: "WriteString (RelayVersion p) MaxRelayVersionLength = Some v"
    using WriteString_small assms by (auto simp: wf_request_def)
  note s = read_string_written(2) [OF v]
  have n: "unat (of_nat (length (req_Samples p)) :: u32) = length (req_Samples p)"
    using assms by (intro small_count) (simp add: wf_request_def)
  have m: "read_many read_sample (length (req_Samples p)) (concat (map write_sample (req_Samples p)) @ q) =
      Some (req_Samples p, q)"
    "read_many ReadUint32 7 (concat (map (le_bytes 4) (req_Floats p)) @ q) = Some (req_Floats p, q)"
    "read_many ReadUint64 150 (concat (map (le_bytes 8) (RelayCounters p)) @ q) = Some (RelayCounters p, q)" for q
    using assms by (auto intro!: read_many_written simp: read_sample_written go_read_written wf_request_def)
  have c: "map WriteUint32 = map (le_bytes 4)" "map WriteUint64 = map (le_bytes 8)"
    by (simp_all add: codec_simps fun_eq_iff)
  have m3: "read_many ReadUint64 150 (concat (map (le_bytes 8) (RelayCounters p))) = Some (RelayCounters p, [])"
    using m(3) [of "[]"] by simp
  show ?thesis using assms v
    by (simp add: write_update_request_def read_update_request_def wf_request_def codec_simps ReadAddress_Write
        n m(1,2) m3 s c)
qed

lemma read_written_response:
  assumes "wf_response p"
  shows "\<exists>bs. write_update_response p = Some bs \<and> read_update_response bs = Some p"
proof -
  obtain v where v: "WriteString (TargetVersion p) MaxRelayVersionLength = Some v"
    using WriteString_small assms by (auto simp: wf_response_def)
  note s = read_string_written(2) [OF v]
  have n: "unat (of_nat (length (Relays p)) :: u32) = length (Relays p)"
    using assms by (intro small_count) (simp add: wf_response_def)
  have m: "read_many read_relay (length (Relays p)) (concat (map write_relay (Relays p)) @ q) = Some (Relays p, q)" for q
    using assms by (intro read_many_written) (auto simp: read_relay_written wf_response_def)
  have k: "ReadBytes 32 (PingKey p) = Some (PingKey p, [])" using assms by (simp add: ReadBytes_def wf_response_def)
  show ?thesis using assms v
    by (simp add: write_update_response_def read_update_response_def wf_response_def codec_simps ReadAddress_Write
        WriteBytes_def n m s k)
qed

section \<open>Properties\<close>



end
