(* ===== verification/Relay_Control.thy ===== *)
theory Relay_Control
  imports Relay_Ping Relay_Packets
begin

text \<open>
  The main thread of the relay, \<open>relay/xdp/relay_main.c\<close>: start-up, timeouts, the report to the backend, the
  parsing of its answer and the control messages for the ping thread. The lemmas relate the report and the answer to the
  packets of the backend's Go code.
\<close>

section \<open>Definitions\<close>

text \<open>The configuration a relay starts with, \<open>relay_config.h\<close>.\<close>

record config =
  cfg_port :: u16
  cfg_public_address :: u32
  cfg_internal_address :: u32
  cfg_public_key :: bytes
  cfg_private_key :: bytes
  cfg_backend_public_key :: bytes
  cfg_secret_key :: bytes
  cfg_gateway_ethernet_address :: bytes
  cfg_use_gateway_ethernet_address :: u8

text \<open>\<open>struct main_t\<close>, without handles of the operating system. The two queues are shared with the ping thread.\<close>

record main_state =
  start_time :: u64
  main_timestamp :: u64
  update_response_memory :: bytes
  main_public_address :: u32
  main_internal_address :: u32
  main_port :: u16
  initialized :: bool
  shutting_down :: bool
  main_public_key :: bytes
  main_private_key :: bytes
  main_backend_public_key :: bytes
  main_pings_sent :: u64
  main_bytes_sent :: u64
  relay_ping_set :: relay_set
  control_queue :: "control_message relay_queue"
  stats_queue :: "stats_message relay_queue"
  main_ping_stats :: "(u64 \<times> ping_history_stats) list"
  last_stats_packets_sent :: u64
  last_stats_packets_received :: u64
  last_stats_bytes_sent :: u64
  last_stats_bytes_received :: u64
  last_stats_client_pings_received :: u64
  last_stats_server_pings_received :: u64
  last_stats_relay_pings_received :: u64
  last_stats_time :: time

definition RELAY_RESPONSE_MAX_BYTES :: nat where "RELAY_RESPONSE_MAX_BYTES = 10 * 1024 * 1024"

abbreviation (input) RELAY_MAX_UPDATE_ATTEMPTS :: nat where "RELAY_MAX_UPDATE_ATTEMPTS \<equiv> 30"

abbreviation (input) RELAY_VERSION_LENGTH :: nat where "RELAY_VERSION_LENGTH \<equiv> 32"

text \<open>\<open>main_init\<close>: the main thread's state, from zeroed memory, and what it puts into the configuration map. \<open>memory\<close>
  is what \<open>malloc\<close> returns for the response buffer.\<close>

definition main_init :: "u64 \<Rightarrow> bytes \<Rightarrow> config \<Rightarrow> main_state \<times> relay_config" where
  "main_init now memory c =
     (\<lparr>start_time = now, main_timestamp = 0, update_response_memory = memory,
       main_public_address = cfg_public_address c, main_internal_address = cfg_internal_address c,
       main_port = cfg_port c, initialized = False, shutting_down = False, main_public_key = cfg_public_key c,
       main_private_key = cfg_private_key c, main_backend_public_key = cfg_backend_public_key c,
       main_pings_sent = 0, main_bytes_sent = 0, relay_ping_set = [], control_queue = relay_queue_create 64,
       stats_queue = relay_queue_create 64, main_ping_stats = [], last_stats_packets_sent = 0,
       last_stats_packets_received = 0, last_stats_bytes_sent = 0, last_stats_bytes_received = 0,
       last_stats_client_pings_received = 0, last_stats_server_pings_received = 0,
       last_stats_relay_pings_received = 0, last_stats_time = 0\<rparr>,
      \<lparr>dedicated = 0, relay_public_address = relay_htonl (cfg_public_address c),
       relay_internal_address = relay_htonl (cfg_internal_address c), relay_port = relay_htons (cfg_port c),
       relay_secret_key = cfg_secret_key c, relay_backend_public_key = cfg_backend_public_key c,
       gateway_ethernet_address = cfg_gateway_ethernet_address c,
       use_gateway_ethernet_address = cfg_use_gateway_ethernet_address c\<rparr>)"

text \<open>\<open>ping_init\<close>: the ping thread's state.\<close>

definition ping_init :: "config \<Rightarrow> ping_thread" where
  "ping_init c =
     \<lparr>thread_port = cfg_port c, thread_public_address = cfg_public_address c,
      thread_internal_address = cfg_internal_address c, thread_manager = [], thread_timestamp = 0,
      thread_magic = replicate 8 0, has_ping_key = False, thread_ping_key = replicate 32 0, pings_sent = 0,
      ping_bytes_sent = 0\<rparr>"

text \<open>The two hash tables the timeouts sweep over, and \<open>struct session_stats\<close>.\<close>

record session_stats =
  session_count :: u64
  envelope_up :: u64
  envelope_down :: u64

definition count_session :: "session_data \<Rightarrow> session_stats \<Rightarrow> session_stats" where
  "count_session s st =
     st\<lparr>session_count := session_count st + 1, envelope_up := envelope_up st + ucast (envelope_kbps_up s),
        envelope_down := envelope_down st + ucast (envelope_kbps_down s)\<rparr>"

text \<open>\<open>disable_destroy\<close> is the environment variable of test builds. Each sweep has one step per entry as fuel; \<open>None\<close>
  would be a sweep that does not end.\<close>

definition main_update_timeouts ::
  "bool \<Rightarrow> u64 \<Rightarrow> session_data us_map \<Rightarrow> whitelist_value us_map \<Rightarrow>
   (session_stats \<times> session_data us_map \<times> whitelist_value us_map) option" where
  "main_update_timeouts disable_destroy now sessions whitelist =
     do { (sessions', st) \<leftarrow> sweep bpf_map_lookup_elem us_map_get_next_key us_delete
            (\<lambda>v. expire_timestamp v < now \<and> \<not> disable_destroy) count_session (nat (count sessions)) sessions
            \<lparr>session_count = 0, envelope_up = 0, envelope_down = 0\<rparr>;
          (whitelist', _) \<leftarrow> sweep bpf_map_lookup_elem us_map_get_next_key us_delete
            (\<lambda>v. wl_expire_timestamp v < now) (\<lambda>v u. u) (nat (count whitelist)) whitelist ();
          Some (st, sessions', whitelist') }"

text \<open>The counters that are reported: the datapath's, the session statistics and the pings of the ping thread.\<close>

definition pump_stats :: "main_state \<Rightarrow> main_state" where
  "pump_stats main =
     (case queue_drain relay_queue_pop (Suc (num_entries (stats_queue main))) (stats_queue main) of
        (q, messages) \<Rightarrow>
          fold (\<lambda>message main. main\<lparr>main_pings_sent := stats_pings_sent message,
                  main_bytes_sent := stats_bytes_sent message, main_ping_stats := stats_ping_stats message\<rparr>)
            messages (main\<lparr>stats_queue := q\<rparr>))"

definition update_counters :: "relay_stats option \<Rightarrow> session_stats \<Rightarrow> main_state \<Rightarrow> relay_stats" where
  "update_counters values st main =
     (let c = (case values of Some v \<Rightarrow> v | None \<Rightarrow> (\<lambda>i. 0));
          c = c(RELAY_COUNTER_SESSIONS := session_count st, RELAY_COUNTER_ENVELOPE_KBPS_UP := envelope_up st,
                RELAY_COUNTER_ENVELOPE_KBPS_DOWN := envelope_down st);
          c = c(RELAY_COUNTER_RELAY_PING_PACKET_SENT := c RELAY_COUNTER_RELAY_PING_PACKET_SENT + main_pings_sent main);
          c = c(RELAY_COUNTER_PACKETS_SENT := c RELAY_COUNTER_PACKETS_SENT + main_pings_sent main)
      in c(RELAY_COUNTER_BYTES_SENT := c RELAY_COUNTER_BYTES_SENT + main_bytes_sent main))"

definition since_last_update :: "u64 \<Rightarrow> u64 \<Rightarrow> u64" where
  "since_last_update c prev = (if c > prev then c - prev else 0)"

definition per_second :: "u64 \<Rightarrow> rat \<Rightarrow> rat" where
  "per_second n dt = (if dt > 0 then of_nat (unat n) / dt else 0)"

text \<open>The seven rates, in the order of the packet.\<close>

definition update_rates :: "relay_stats \<Rightarrow> time \<Rightarrow> main_state \<Rightarrow> rat list" where
  "update_rates c t main =
     (let dt = t - last_stats_time main;
          rate = (\<lambda>i prev. per_second (since_last_update (c i) prev) dt)
      in [rate RELAY_COUNTER_PACKETS_SENT (last_stats_packets_sent main),
          rate RELAY_COUNTER_PACKETS_RECEIVED (last_stats_packets_received main),
          rate RELAY_COUNTER_BYTES_SENT (last_stats_bytes_sent main) * 8 / 1000,
          rate RELAY_COUNTER_BYTES_RECEIVED (last_stats_bytes_received main) * 8 / 1000,
          rate RELAY_COUNTER_CLIENT_PING_PACKET_RECEIVED (last_stats_client_pings_received main),
          rate RELAY_COUNTER_SERVER_PING_PACKET_RECEIVED (last_stats_server_pings_received main),
          rate RELAY_COUNTER_RELAY_PING_PACKET_RECEIVED (last_stats_relay_pings_received main)])"

definition remember_counters :: "relay_stats \<Rightarrow> time \<Rightarrow> main_state \<Rightarrow> main_state" where
  "remember_counters c t main =
     main\<lparr>last_stats_time := t, last_stats_packets_sent := c RELAY_COUNTER_PACKETS_SENT,
       last_stats_packets_received := c RELAY_COUNTER_PACKETS_RECEIVED,
       last_stats_bytes_sent := c RELAY_COUNTER_BYTES_SENT, last_stats_bytes_received := c RELAY_COUNTER_BYTES_RECEIVED,
       last_stats_client_pings_received := c RELAY_COUNTER_CLIENT_PING_PACKET_RECEIVED,
       last_stats_server_pings_received := c RELAY_COUNTER_SERVER_PING_PACKET_RECEIVED,
       last_stats_relay_pings_received := c RELAY_COUNTER_RELAY_PING_PACKET_RECEIVED\<rparr>"

definition clamp :: "int \<Rightarrow> int \<Rightarrow> int \<Rightarrow> int" where
  "clamp value mn mx = (if value > mx then mx else if value < mn then mn else value)"

text \<open>
  What stands for code outside the relay: \<open>float_bits\<close> converts to single precision and takes the bits;
  \<open>out_of_range\<close> is what the machine makes of \<open>(int) ceil( x )\<close> when the value has no \<open>int\<close>, which C leaves
  undefined; \<open>crypto_box_easy\<close> is libsodium's.
\<close>

record control_env =
  float_bits :: "rat \<Rightarrow> u32"
  out_of_range :: "float32 \<Rightarrow> int"
  crypto_box_easy :: "bytes \<Rightarrow> bytes \<Rightarrow> bytes \<Rightarrow> bytes \<Rightarrow> bytes option"

definition float_to_int :: "control_env \<Rightarrow> float32 \<Rightarrow> int" where
  "float_to_int env x =
     (case x of
        Fin r \<Rightarrow> if - (2 ^ 31) \<le> \<lceil>r\<rceil> \<and> \<lceil>r\<rceil> < 2 ^ 31 then \<lceil>r\<rceil> else out_of_range env x
      | Infinity \<Rightarrow> out_of_range env x)"

definition write_ping_sample :: "control_env \<Rightarrow> u64 \<times> ping_history_stats \<Rightarrow> bytes" where
  "write_ping_sample env sample =
     (case sample of (i, st) \<Rightarrow>
        let integer_rtt = clamp (float_to_int env (stat_rtt st)) 0 255;
            integer_jitter = clamp (float_to_int env (stat_jitter st)) 0 255;
            integer_packet_loss = clamp (float_to_int env (Fin (stat_packet_loss st / 100 * 65535))) 0 65535
        in relay_write_uint64 i @ relay_write_uint8 (of_int integer_rtt) @ relay_write_uint8 (of_int integer_jitter) @
           relay_write_uint16 (of_int integer_packet_loss))"

definition update_header :: "main_state \<Rightarrow> bytes" where
  "update_header main =
     relay_write_uint8 1 @ relay_write_uint8 RELAY_ADDRESS_IPV4 @
     relay_write_uint32 (relay_htonl (main_public_address main)) @ relay_write_uint16 (main_port main)"

definition update_body :: "control_env \<Rightarrow> u64 \<Rightarrow> bytes \<Rightarrow> relay_stats \<Rightarrow> rat list \<Rightarrow> main_state \<Rightarrow> bytes" where
  "update_body env local_timestamp version c rates main =
     relay_write_uint64 local_timestamp @ relay_write_uint64 (start_time main) @
     relay_write_uint32 (of_nat (length (main_ping_stats main))) @
     concat (map (write_ping_sample env) (main_ping_stats main)) @
     relay_write_uint32 (ucast (c RELAY_COUNTER_SESSIONS)) @
     relay_write_uint32 (ucast (c RELAY_COUNTER_ENVELOPE_KBPS_UP)) @
     relay_write_uint32 (ucast (c RELAY_COUNTER_ENVELOPE_KBPS_DOWN)) @
     concat (map (\<lambda>r. relay_write_uint32 (float_bits env r)) rates) @
     relay_write_uint64 (if shutting_down main then 1 else 0) @
     relay_write_string version RELAY_VERSION_LENGTH @
     relay_write_uint32 (of_nat RELAY_NUM_COUNTERS) @
     concat (map (\<lambda>i. relay_write_uint64 (c i)) [0..<RELAY_NUM_COUNTERS])"

text \<open>\<open>curl_buffer_write_function\<close>: the chunks of the response are appended to the buffer as they arrive. The sum is
  computed in \<open>size_t\<close> and converted to \<open>int\<close>.\<close>

fun receive_chunks :: "bytes list \<Rightarrow> nat \<Rightarrow> bytes \<Rightarrow> bytes \<times> bool" where
  "receive_chunks [] n memory = (memory, True)"
| "receive_chunks (chunk # chunks) n memory =
     (if sint (of_nat (n + length chunk) :: u32) > int RELAY_RESPONSE_MAX_BYTES then (memory, False)
      else receive_chunks chunks (n + length chunk) (overwrite n chunk memory))"

text \<open>What the server does with the post: the transfer fails after some chunks, or it completes with a status code.\<close>

datatype http_result = Transfer_Failed "bytes list" | Response nat "bytes list"

datatype update_error =
    Encrypt_Failed | Post_Failed | Bad_Status | Bad_Response_Version | Too_Many_Relays | Not_IPv4
  | Public_Address_Mismatch | Port_Mismatch | Internal_Address_Mismatch | Public_Key_Mismatch

text \<open>What the relay takes from a response.\<close>

record update_info =
  backend_timestamp :: u64
  ping_set :: relay_set
  info_next_magic :: bytes
  info_current_magic :: bytes
  info_previous_magic :: bytes
  info_ping_key :: bytes

definition read_ping_relay :: "relay_info option reader" where
  "read_ping_relay q =
     do { (i, q) \<leftarrow> relay_read_uint64 q;
          (address_type, q) \<leftarrow> relay_read_uint8 q;
          if address_type \<noteq> RELAY_ADDRESS_IPV4 then Some (None, q)
          else do {
            (a, q) \<leftarrow> relay_read_uint32 q; (p, q) \<leftarrow> relay_read_uint16 q; (n, q) \<leftarrow> relay_read_uint8 q;
            Some (Some \<lparr>relay_id = i, relay_address = relay_ntohl a, info_port = p, relay_internal = n\<rparr>, q) } }"

fun read_ping_set :: "nat \<Rightarrow> relay_set option reader" where
  "read_ping_set 0 q = Some (Some [], q)"
| "read_ping_set (Suc n) q =
     do { (r, q) \<leftarrow> read_ping_relay q;
          case r of
            None \<Rightarrow> Some (None, q)
          | Some r \<Rightarrow> do { (rs, q) \<leftarrow> read_ping_set n q; Some (map_option ((#) r) rs, q) } }"

text \<open>
  Parsing stops at the first problem; what was assigned before it stays assigned. The outer \<open>None\<close> is undefined
  behaviour: a read beyond the buffer, the terminating zero of a version string of 32 bytes, or the comparison with an
  address that was not read since it is not IPv4.
\<close>

definition parse_update_response :: "main_state \<Rightarrow> bytes \<Rightarrow> (main_state \<times> (update_error + update_info)) option" where
  "parse_update_response main q =
     do { (version, q) \<leftarrow> relay_read_uint8 q;
          if version \<noteq> 1 then Some (main, Inl Bad_Response_Version)
          else do {
            (timestamp, q) \<leftarrow> relay_read_uint64 q;
            let main = main\<lparr>initialized := True, main_timestamp := timestamp\<rparr>;
            (num_relays, q) \<leftarrow> relay_read_uint32 q;
            if sint num_relays > int MAX_RELAYS then Some (main, Inl Too_Many_Relays)
            else do {
              (relays, q) \<leftarrow> read_ping_set (nat (sint num_relays)) q;
              case relays of
                None \<Rightarrow> Some (main, Inl Not_IPv4)
              | Some relays \<Rightarrow> do {
                  (target_version, q) \<leftarrow> relay_read_string (of_nat RELAY_VERSION_LENGTH) q;
                  if RELAY_VERSION_LENGTH < length target_version then None
                  else do {
                    (next_magic, q) \<leftarrow> relay_read_bytes 8 q;
                    (current_magic, q) \<leftarrow> relay_read_bytes 8 q;
                    (previous_magic, q) \<leftarrow> relay_read_bytes 8 q;
                    (public, q) \<leftarrow> relay_read_address q;
                    (public_address, public_port) \<leftarrow> public;
                    if main_public_address main \<noteq> public_address then Some (main, Inl Public_Address_Mismatch)
                    else if main_port main \<noteq> public_port then Some (main, Inl Port_Mismatch)
                    else do {
                      (has_internal, q) \<leftarrow> relay_read_uint8 q;
                      (mismatch, q) \<leftarrow>
                        (if has_internal \<noteq> 0 then do {
                           (internal, q) \<leftarrow> relay_read_address q;
                           (internal_address, _) \<leftarrow> internal;
                           Some (main_internal_address main \<noteq> internal_address, q) }
                         else Some (False, q));
                      if mismatch then Some (main, Inl Internal_Address_Mismatch)
                      else do {
                        (public_key, q) \<leftarrow> relay_read_bytes 32 q;
                        (backend_public_key, q) \<leftarrow> relay_read_bytes 32 q;
                        if main_public_key main \<noteq> public_key then Some (main, Inl Public_Key_Mismatch)
                        else do {
                          (dummy, q) \<leftarrow> relay_read_bytes RELAY_ENCRYPTED_ROUTE_TOKEN_BYTES q;
                          (ping_key, q) \<leftarrow> relay_read_bytes 32 q;
                          Some (main, Inr \<lparr>backend_timestamp = timestamp, ping_set = relays,
                            info_next_magic = next_magic, info_current_magic = current_magic,
                            info_previous_magic = previous_magic, info_ping_key = ping_key\<rparr>) } } } } } } } }"

text \<open>The state the datapath gets, and the control message for the ping thread: the relays of the response that the last
  one sent did not have, and the other way round, compared by their ids.\<close>

definition state_of_info :: "update_info \<Rightarrow> relay_state" where
  "state_of_info u =
     \<lparr>current_timestamp = backend_timestamp u, current_magic = info_current_magic u,
      previous_magic = info_previous_magic u, next_magic = info_next_magic u, ping_key = info_ping_key u\<rparr>"

definition relays_not_in :: "relay_set \<Rightarrow> relay_set \<Rightarrow> relay_set" where
  "relays_not_in other rs = filter (\<lambda>r. \<not> relay_in_set (relay_id r) other) rs"

definition control_message_for :: "relay_set \<Rightarrow> update_info \<Rightarrow> control_message" where
  "control_message_for old u =
     \<lparr>msg_timestamp = backend_timestamp u, msg_magic = info_current_magic u, msg_ping_key = info_ping_key u,
      new_relays = relays_not_in old (ping_set u), delete_relays = relays_not_in (ping_set u) old\<rparr>"

definition send_control_message :: "update_info \<Rightarrow> main_state \<Rightarrow> main_state" where
  "send_control_message u main =
     (if relay_queue_full (control_queue main) then main
      else case relay_queue_push (control_queue main) (control_message_for (relay_ping_set main) u) of
             (q, True) \<Rightarrow> main\<lparr>control_queue := q, relay_ping_set := ping_set u\<rparr>
           | (q, False) \<Rightarrow> main\<lparr>control_queue := q\<rparr>)"

text \<open>The part of \<open>main_update\<close> after the response has arrived: the new state of the main thread, and of the datapath
  if there is one.\<close>

definition apply_update_response :: "main_state \<Rightarrow> (main_state \<times> (update_error + relay_state)) option" where
  "apply_update_response main =
     do { (main, r) \<leftarrow> parse_update_response main (update_response_memory main);
          case r of
            Inl e \<Rightarrow> Some (main, Inl e)
          | Inr u \<Rightarrow> Some (send_control_message u main, Inr (state_of_info u)) }"

text \<open>
  One update: what is posted, given the statistics of the timeouts and the datapath's counters, and what becomes of
  the answer. \<open>now\<close> is the wall clock, \<open>t\<close> the monotonic clock, \<open>nonce\<close> random bytes, \<open>server\<close> the backend.
\<close>

definition main_post :: "control_env \<Rightarrow> u64 \<Rightarrow> time \<Rightarrow> bytes \<Rightarrow> bytes \<Rightarrow> session_stats \<Rightarrow> relay_stats option \<Rightarrow> main_state \<Rightarrow>
    main_state \<times> bytes option" where
  "main_post env now t nonce version st values main0 =
     (let main = pump_stats main0;
          c = update_counters values st main;
          rates = update_rates c t main;
          main = remember_counters c t main;
          body = update_body env now version c rates main
      in case crypto_box_easy env body nonce (main_backend_public_key main) (main_private_key main) of
           None \<Rightarrow> (main, None)
         | Some boxed \<Rightarrow> (main, Some (update_header main @ boxed @ nonce)))"

definition main_receive :: "http_result \<Rightarrow> main_state \<Rightarrow> (main_state \<times> (update_error + relay_state)) option" where
  "main_receive result main =
     (case result of
        Transfer_Failed chunks \<Rightarrow>
          Some (main\<lparr>update_response_memory := fst (receive_chunks chunks 0 (update_response_memory main))\<rparr>, Inl Post_Failed)
      | Response code chunks \<Rightarrow>
          (case receive_chunks chunks 0 (update_response_memory main) of (memory, ok) \<Rightarrow>
             let main = main\<lparr>update_response_memory := memory\<rparr>
             in if \<not> ok then Some (main, Inl Post_Failed)
                else if code \<noteq> 200 then Some (main, Inl Bad_Status)
                else apply_update_response main))"

definition main_update ::
  "control_env \<Rightarrow> u64 \<Rightarrow> time \<Rightarrow> bytes \<Rightarrow> bytes \<Rightarrow> (bytes \<Rightarrow> http_result) \<Rightarrow> session_stats \<Rightarrow> relay_stats option \<Rightarrow>
   main_state \<Rightarrow> (main_state \<times> (update_error + relay_state)) option" where
  "main_update env now t nonce version server st values main =
     (case main_post env now t nonce version st values main of
        (main, None) \<Rightarrow> Some (main, Inl Encrypt_Failed)
      | (main, Some bytes) \<Rightarrow> main_receive (server bytes) main)"

text \<open>\<open>main_run\<close>: the update loop, given the results of the updates until \<open>quit\<close> is set from outside, and the seconds
  of a clean shutdown. The first is true if the relay gave up.\<close>

fun main_loop :: "nat \<Rightarrow> bool list \<Rightarrow> bool" where
  "main_loop update_attempts [] = False"
| "main_loop update_attempts (ok # results) =
     (if ok then main_loop 0 results
      else if update_attempts \<ge> RELAY_MAX_UPDATE_ATTEMPTS then True
      else main_loop (Suc update_attempts) results)"

fun shutdown_loop :: "nat \<Rightarrow> nat \<Rightarrow> bool list \<Rightarrow> nat" where
  "shutdown_loop shutdown_time seconds [] = seconds"
| "shutdown_loop shutdown_time seconds (ok # results) =
     (if seconds \<le> shutdown_time \<and> ok then shutdown_loop shutdown_time (Suc seconds) results else seconds)"

definition sample_of :: "control_env \<Rightarrow> u64 \<times> ping_history_stats \<Rightarrow> relay_sample" where
  "sample_of env s =
     \<lparr>SampleRelayId = fst s, SampleRTT = of_int (clamp (float_to_int env (stat_rtt (snd s))) 0 255),
      SampleJitter = of_int (clamp (float_to_int env (stat_jitter (snd s))) 0 255),
      SamplePacketLoss = of_int (clamp (float_to_int env (Fin (stat_packet_loss (snd s) / 100 * 65535))) 0 65535)\<rparr>"

definition request_of :: "control_env \<Rightarrow> u64 \<Rightarrow> bytes \<Rightarrow> relay_stats \<Rightarrow> rat list \<Rightarrow> main_state \<Rightarrow> relay_update_request" where
  "request_of env now version c rates main =
     \<lparr>req_Version = 1, req_Address = IPv4 (rev (le_bytes 4 (main_public_address main))) (main_port main),
      req_CurrentTime = now, req_StartTime = start_time main,
      req_Samples = map (sample_of env) (main_ping_stats main),
      SessionCount = ucast (c RELAY_COUNTER_SESSIONS), EnvelopeBandwidthUpKbps = ucast (c RELAY_COUNTER_ENVELOPE_KBPS_UP),
      EnvelopeBandwidthDownKbps = ucast (c RELAY_COUNTER_ENVELOPE_KBPS_DOWN), req_Floats = map (float_bits env) rates,
      RelayFlags = (if shutting_down main then 1 else 0), RelayVersion = version,
      RelayCounters = map c [0..<RELAY_NUM_COUNTERS]\<rparr>"

text \<open>The relays of a response as the relay stores them, and the responses meant for a given relay.\<close>

fun info_of :: "u64 \<times> udp_addr \<times> u8 \<Rightarrow> relay_info" where
  "info_of (i, IPv4 ip p, n) = \<lparr>relay_id = i, relay_address = ipv4_host ip, info_port = p, relay_internal = n\<rparr>"
| "info_of (i, _, n) = \<lparr>relay_id = i, relay_address = 0, info_port = 0, relay_internal = n\<rparr>"

fun is_ipv4 :: "udp_addr \<Rightarrow> bool" where
  "is_ipv4 (IPv4 ip p) = True"
| "is_ipv4 _ = False"

fun host_of :: "udp_addr \<Rightarrow> u32" where
  "host_of (IPv4 ip p) = ipv4_host ip"
| "host_of _ = 0"

definition meant_for :: "main_state \<Rightarrow> relay_update_response \<Rightarrow> bool" where
  "meant_for main p \<longleftrightarrow>
     (\<exists>ip. ExpectedPublicAddress p = IPv4 ip (main_port main) \<and> ipv4_host ip = main_public_address main) \<and>
     (ExpectedHasInternalAddress p \<noteq> 0 \<longrightarrow>
        (\<exists>ip pt. ExpectedInternalAddress p = IPv4 ip pt \<and> ipv4_host ip = main_internal_address main)) \<and>
     ExpectedRelayPublicKey p = main_public_key main"

definition update_of :: "relay_update_response \<Rightarrow> update_info" where
  "update_of p =
     \<lparr>backend_timestamp = Timestamp p, ping_set = map info_of (Relays p), info_next_magic = UpcomingMagic p,
      info_current_magic = CurrentMagic p, info_previous_magic = PreviousMagic p, info_ping_key = PingKey p\<rparr>"

section \<open>Lemmas\<close>

lemma fold_count_session:
  "session_count (fold (\<lambda>k. count_session (g k)) ks st) = session_count st + of_nat (length ks)"
  "envelope_up (fold (\<lambda>k. count_session (g k)) ks st) = envelope_up st + (\<Sum>k\<leftarrow>ks. ucast (envelope_kbps_up (g k)))"
  "envelope_down (fold (\<lambda>k. count_session (g k)) ks st) = envelope_down st + (\<Sum>k\<leftarrow>ks. ucast (envelope_kbps_down (g k)))"
  by (induction ks arbitrary: st) (simp_all add: count_session_def)

lemma timeouts_result:
  assumes "us_inv sessions" "us_inv whitelist"
  shows "\<exists>st sessions' whitelist'.
     main_update_timeouts d now sessions whitelist = Some (st, sessions', whitelist') \<and>
     us_inv sessions' \<and> us_inv whitelist' \<and>
     bpf_map_lookup_elem sessions' =
       map_expire (\<lambda>v. expire_timestamp v < now \<and> \<not> d) (bpf_map_lookup_elem sessions) \<and>
     bpf_map_lookup_elem whitelist' = map_expire (\<lambda>v. wl_expire_timestamp v < now) (bpf_map_lookup_elem whitelist) \<and>
     session_count st = of_nat (length (us_keys sessions)) \<and>
     envelope_up st = (\<Sum>k\<leftarrow>us_keys sessions. ucast (envelope_kbps_up (the (bpf_map_lookup_elem sessions k)))) \<and>
     envelope_down st = (\<Sum>k\<leftarrow>us_keys sessions. ucast (envelope_kbps_down (the (bpf_map_lookup_elem sessions k))))"
proof -
  have fuel: "length (us_keys m) \<le> nat (count m)" if "us_inv m" for m :: "'v us_map" using that by (simp add: us_inv_def)
  show ?thesis
    using us.sweep_correct [OF assms(1) fuel [OF assms(1)], of "\<lambda>v. expire_timestamp v < now \<and> \<not> d" count_session
        "\<lparr>session_count = 0, envelope_up = 0, envelope_down = 0\<rparr>"]
      us.sweep_correct [OF assms(2) fuel [OF assms(2)], of "\<lambda>v. wl_expire_timestamp v < now" "\<lambda>v u. u" "()"]
    by (auto simp: main_update_timeouts_def us_delete_def [abs_def] fold_count_session)
qed

section \<open>The update request\<close>

lemma clamp_bounds: "mn \<le> mx \<Longrightarrow> mn \<le> clamp v mn mx \<and> clamp v mn mx \<le> mx"
  by (simp add: clamp_def)

lemma relay_write_string_small:
  "length v < 32 \<Longrightarrow> relay_write_string v 32 = le_bytes 4 (of_nat (length v) :: u32) @ v"
  by (simp add: relay_write_string_def Let_def concat_singletons codec_simps)

lemma ReadString_written:
  "length v \<le> 32 \<Longrightarrow> ReadString MaxRelayVersionLength (le_bytes 4 (of_nat (length v) :: u32) @ v @ q) = Some (v, q)"
  using read_string_written(2) [of v 32 "le_bytes 4 (of_nat (length v) :: u32) @ v" q]
  by (simp add: WriteString_def not_less word_le_nat_alt unsigned_of_nat take_bit_eq_mod)

lemma ReadAddress_header:
  "ReadAddress (relay_write_uint8 RELAY_ADDRESS_IPV4 @ le_bytes 4 (relay_htonl a) @ le_bytes 2 p @ q) =
     Some (IPv4 (rev (le_bytes 4 a)) p, q)"
proof -
  have "WriteAddress (IPv4 (rev (le_bytes 4 a)) p) = relay_write_address a p"
    by (subst write_ipv4) (simp_all add: ipv4_host_def codec_simps)
  then have "relay_write_uint8 RELAY_ADDRESS_IPV4 @ le_bytes 4 (relay_htonl a) @ le_bytes 2 p @ q =
      WriteAddress (IPv4 (rev (le_bytes 4 a)) p) @ q"
    by (simp add: relay_write_address_def codec_simps)
  then show ?thesis by (simp only: ReadAddress_Write wf_addr.simps length_rev length_le_bytes)
qed

lemma write_ping_sample_eq: "write_ping_sample env s = write_sample (sample_of env s)"
  by (cases s) (simp add: write_ping_sample_def sample_of_def write_sample_def Let_def codec_simps)

lemma request_read:
  assumes "length version < 32" "length rates = 7" "length (main_ping_stats main) < 2 ^ 32"
  shows "read_update_request (update_header main @ update_body env now version c rates main) =
    (if length (main_ping_stats main) \<le> MaxRelays then Some (request_of env now version c rates main) else None)"
proof -
  let ?n = "length (main_ping_stats main)"
  have n: "unat (of_nat ?n :: u32) = ?n" using assms(3) by (simp add: unsigned_of_nat take_bit_eq_mod)
  have m1: "read_many read_sample ?n (concat (map (write_ping_sample env) (main_ping_stats main)) @ q) =
      Some (map (sample_of env) (main_ping_stats main), q)" for q
    using read_many_written [of "map (sample_of env) (main_ping_stats main)" read_sample write_sample ?n q]
    by (simp add: read_sample_written comp_def write_ping_sample_eq [abs_def])
  have m2: "read_many ReadUint32 7 (concat (map (\<lambda>r. le_bytes 4 (float_bits env r)) rates) @ q) =
      Some (map (float_bits env) rates, q)" for q
    using read_many_written [of "map (float_bits env) rates" ReadUint32 "le_bytes 4" 7 q] assms(2)
    by (simp add: go_read_written comp_def)
  have m3: "read_many ReadUint64 150 (concat (map (\<lambda>i. le_bytes 8 (c i)) [0..<150])) = Some (map c [0..<150], [])"
    using read_many_written [of "map c [0..<150]" ReadUint64 "le_bytes 8" 150 "[]"]
    by (simp add: go_read_written comp_def del: upt_rec_numeral)
  note s = ReadString_written [of version]
  show ?thesis
    using assms(1)
    by (simp add: read_update_request_def update_header_def update_body_def codec_simps ReadAddress_header n m1 m2 m3
        relay_write_string_small s request_of_def del: upt_rec_numeral)
qed

section \<open>The update response\<close>

lemma read_ping_relay_written:
  assumes "wf_addr a" "is_ipv4 a"
  shows "read_ping_relay (write_relay (i, a, n) @ q) = Some (Some (info_of (i, a, n)), q)"
proof -
  obtain ip p where a: "a = IPv4 ip p" using assms(2) by (cases a) auto
  show ?thesis using assms(1) unfolding a
    by (simp add: read_ping_relay_def write_relay_def codec_simps write_ipv4 relay_write_address_def del: WriteAddress.simps)
qed

lemma read_ping_set_written:
  "(\<forall>(i, a, n) \<in> set rs. wf_addr a \<and> is_ipv4 a) \<Longrightarrow>
   read_ping_set (length rs) (concat (map write_relay rs) @ q) = Some (Some (map info_of rs), q)"
  by (induction rs arbitrary: q) (auto simp: read_ping_relay_written)

lemma read_address_go:
  "length ip = 4 \<Longrightarrow> relay_read_address (WriteAddress (IPv4 ip p) @ q) = Some (Some (ipv4_host ip, p), q)"
  by (simp add: write_ipv4 codec_simps del: WriteAddress.simps)

lemma response_parsed:
  assumes w: "wf_response p" "\<forall>(i, a, n) \<in> set (Relays p). is_ipv4 a" "meant_for main p" and bs: "write_update_response p = Some bs"
  shows "parse_update_response main (bs @ rest) =
    (if length (TargetVersion p) < 32
     then Some (main\<lparr>initialized := True, main_timestamp := Timestamp p\<rparr>, Inr (update_of p)) else None)"
proof -
  obtain v where v: "WriteString (TargetVersion p) MaxRelayVersionLength = Some v"
    using WriteString_small w(1) by (auto simp: wf_response_def)
  have tv: "length (TargetVersion p) \<le> 32" using w(1) by (simp add: wf_response_def)
  have s: "relay_read_string 32 (v @ q) = Some (TargetVersion p @ [0], q)" for q
    using read_string_written(1) [OF v] tv by simp
  have n: "sint (of_nat (length (Relays p)) :: u32) = int (length (Relays p))" "length (Relays p) \<le> 1000"
    using w(1) by (simp_all add: wf_response_def sint_uint uint_nat small_count signed_take_bit_int_eq_self)
  have m: "read_ping_set (length (Relays p)) (concat (map write_relay (Relays p)) @ q) =
      Some (Some (map info_of (Relays p)), q)" for q
    using w(1,2) by (intro read_ping_set_written) (auto simp: wf_response_def)
  obtain ip where ip: "ExpectedPublicAddress p = IPv4 ip (main_port main)" "ipv4_host ip = main_public_address main" "length ip = 4"
    using w(1,3) by (auto simp: meant_for_def wf_response_def)
  have k: "relay_read_bytes 32 (PingKey p @ rest) = Some (PingKey p, rest)"
    "relay_read_bytes 111 (TestToken p @ q) = Some (TestToken p, q)"
    "relay_read_bytes 32 (ExpectedRelayBackendPublicKey p @ q) = Some (ExpectedRelayBackendPublicKey p, q)"
    "relay_read_bytes 32 (ExpectedRelayPublicKey p @ q) = Some (ExpectedRelayPublicKey p, q)" 
    "relay_read_bytes 8 (UpcomingMagic p @ q) = Some (UpcomingMagic p, q)"
    "relay_read_bytes 8 (CurrentMagic p @ q) = Some (CurrentMagic p, q)"
    "relay_read_bytes 8 (PreviousMagic p @ q) = Some (PreviousMagic p, q)" for q
    using w(1) by (simp_all add: wf_response_def codec_simps)
  have lens: "UpcomingMagic p = take 8 (UpcomingMagic p)" "length (UpcomingMagic p) = 8" "length (CurrentMagic p) = 8"
    "length (PreviousMagic p) = 8" "length (ExpectedRelayPublicKey p) = 32" "length (ExpectedRelayBackendPublicKey p) = 32"
    "length (TestToken p) = 111" "length (PingKey p) = 32" "Version p = 1"
    using w(1) by (simp_all add: wf_response_def)
  have key: "main_public_key main = ExpectedRelayPublicKey p" using w(3) by (simp add: meant_for_def)
  show ?thesis
  proof (cases "ExpectedHasInternalAddress p = 0")
    case True
    then show ?thesis using bs v ip lens tv n(2)
      by (auto simp: write_update_response_def parse_update_response_def WriteBytes_def codec_simps s n(1) m read_address_go k
          key update_of_def Let_def simp del: WriteAddress.simps)
  next
    case False
    then obtain ip2 pt where ip2: "ExpectedInternalAddress p = IPv4 ip2 pt" "ipv4_host ip2 = main_internal_address main" "length ip2 = 4"
      using w(1,3) by (auto simp: meant_for_def wf_response_def)
    show ?thesis using bs v ip lens tv False ip2 n(2)
      by (auto simp: write_update_response_def parse_update_response_def WriteBytes_def codec_simps s n(1) m read_address_go k
          key update_of_def Let_def simp del: WriteAddress.simps)
  qed
qed

section \<open>Receiving, failing, giving up\<close>

lemma sint_of_small_nat: "k < 2 ^ 31 \<Longrightarrow> sint (of_nat k :: u32) = int k"
  by (simp add: sint_uint uint_nat unsigned_of_nat take_bit_eq_mod signed_take_bit_int_eq_self)

lemma receive_chunks_bound:
  assumes "\<forall>c \<in> set chunks. length c \<le> RELAY_RESPONSE_MAX_BYTES" "n \<le> RELAY_RESPONSE_MAX_BYTES" "RELAY_RESPONSE_MAX_BYTES \<le> length memory"
  shows "length (fst (receive_chunks chunks n memory)) = length memory \<and>
    take n (fst (receive_chunks chunks n memory)) = take n memory \<and>
    drop RELAY_RESPONSE_MAX_BYTES (fst (receive_chunks chunks n memory)) = drop RELAY_RESPONSE_MAX_BYTES memory \<and>
    (snd (receive_chunks chunks n memory) \<longrightarrow>
       n + length (concat chunks) \<le> RELAY_RESPONSE_MAX_BYTES \<and>
       fst (receive_chunks chunks n memory) = overwrite n (concat chunks) memory)"
  using assms
proof (induction chunks arbitrary: n memory)
  case Nil
  then show ?case by (simp add: overwrite_def)
next
  case (Cons c cs)
  let ?k = "n + length c"
  have "length c \<le> RELAY_RESPONSE_MAX_BYTES" "n \<le> RELAY_RESPONSE_MAX_BYTES" using Cons.prems by simp_all
  then have "?k < 2 ^ 31" by (simp add: RELAY_RESPONSE_MAX_BYTES_def)
  then have s: "sint (of_nat ?k :: u32) = int ?k"
    by (rule sint_of_small_nat)
  show ?case
  proof (cases "?k \<le> RELAY_RESPONSE_MAX_BYTES")
    case True
    let ?m = "overwrite n c memory"
    have l: "length ?m = length memory" using True Cons.prems by (simp add: buffer_simps)
    note ih = Cons.IH [of ?k ?m]
    have t: "take n ?m = take n memory" using True Cons.prems by (simp add: overwrite_def)
    have d: "drop RELAY_RESPONSE_MAX_BYTES ?m = drop RELAY_RESPONSE_MAX_BYTES memory"
      using True Cons.prems by (simp add: overwrite_def)
    have o: "overwrite ?k (concat cs) ?m = overwrite n (c @ concat cs) memory"
      using True Cons.prems by (simp add: overwrite_def ac_simps)
    have tt: "take n x = take n y" if "take ?k x = take ?k y" for x y :: bytes
      using arg_cong [OF that, of "take n"] by (simp add: min_def split: if_splits)
    have r: "receive_chunks (c # cs) n memory = receive_chunks cs ?k ?m" using True s by (simp add: not_less)
    show ?thesis unfolding r using ih Cons.prems True l t d o tt [of "fst (receive_chunks cs ?k ?m)" ?m] by auto
  next
    case False
    then have "receive_chunks (c # cs) n memory = (memory, False)" using s by simp
    then show ?thesis by simp
  qed
qed

lemma read_ping_set_length: "read_ping_set n q = Some (Some rs, q') \<Longrightarrow> length rs = n"
  by (induction n arbitrary: q rs) (auto split: Option.bind_splits option.splits)

lemma read_ping_set_bound:
  "read_ping_set (nat (sint a)) q = Some (Some rs, q') \<Longrightarrow> \<not> 1024 < sint a \<Longrightarrow> length rs \<le> MAX_RELAYS"
  using read_ping_set_length by fastforce

lemma parse_frame:
  assumes "parse_update_response main q = Some (main', r)"
  shows "main' = main\<lparr>initialized := initialized main', main_timestamp := main_timestamp main'\<rparr>"
    "r = Inr u \<Longrightarrow> length (ping_set u) \<le> MAX_RELAYS"
proof -
  show "main' = main\<lparr>initialized := initialized main', main_timestamp := main_timestamp main'\<rparr>"
    using assms
    by (auto simp: parse_update_response_def Let_def split: Option.bind_splits if_splits option.splits)
  assume "r = Inr u"
  then have "\<exists>(a :: u32) q q'. read_ping_set (nat (sint a)) q = Some (Some (ping_set u), q') \<and> \<not> 1024 < sint a"
    using assms unfolding parse_update_response_def Let_def
    by (clarsimp simp: bind_eq_Some_conv split: if_splits option.splits) blast+
  then show "length (ping_set u) \<le> MAX_RELAYS" using read_ping_set_bound by blast
qed

lemma main_loop_gives_up:
  "k \<le> 30 \<Longrightarrow> main_loop k results \<longleftrightarrow>
     (\<exists>ys. results = replicate (31 - k) False @ ys) \<or> (\<exists>xs ys. results = xs @ replicate 31 False @ ys)"
proof (induction results arbitrary: k)
  case Nil
  then show ?case by simp
next
  case (Cons ok results)
  let ?run = "\<lambda>n rs. \<exists>ys. rs = replicate n False @ ys" and ?has = "\<lambda>rs. \<exists>xs ys. rs = xs @ replicate 31 False @ ys"
  have c: "?run (Suc n) (b # rs) \<longleftrightarrow> \<not> b \<and> ?run n rs" for n b and rs :: "bool list" by auto
  have h: "?has (b # rs) \<longleftrightarrow> ?run 31 (b # rs) \<or> ?has rs" for b and rs :: "bool list"
    by (auto simp: Cons_eq_append_conv)
  have mono: "?run n rs" if "?run m rs" "n \<le> m" for n m and rs :: "bool list"
    using that by (auto simp: le_iff_add replicate_add)
  have r31: "?run 31 (b # rs) \<longleftrightarrow> \<not> b \<and> ?run 30 rs" for b and rs :: "bool list" using c [of b rs 30] by simp
  have "31 - k = Suc (30 - k)" using Cons.prems by simp
  then have rk: "?run (31 - k) (b # rs) \<longleftrightarrow> \<not> b \<and> ?run (30 - k) rs" for b and rs :: "bool list"
    using c [of b rs "30 - k"] by simp
  have "?has rs" if "?run 31 rs" for rs :: "bool list" using that by fastforce
  note simps = rk h [unfolded r31] main_loop.simps
  show ?case
  proof (cases ok)
    case True
    have "main_loop 0 results \<longleftrightarrow> ?has results" using Cons.IH [of 0] \<open>?run 31 results \<Longrightarrow> ?has results\<close> by auto
    then show ?thesis unfolding simps using True by simp
  next
    case False
    have "?run 30 results \<Longrightarrow> ?run (30 - k) results" using mono [OF _ diff_le_self] by blast
    moreover have "main_loop (Suc k) results \<longleftrightarrow> ?run (30 - k) results \<or> ?has results" if "k \<noteq> 30"
      using Cons.IH [of "Suc k"] Cons.prems that by simp
    ultimately show ?thesis unfolding simps using False Cons.prems by auto
  qed
qed

end
