(* ===== verification/Relay_System.thy ===== *)
theory Relay_System
  imports Relay_Control Relay_Examples
begin

text \<open>
  The two threads of the relay and the maps they share, as one transition system, and the properties of the control
  plane.
\<close>

section \<open>Definitions\<close>

text \<open>
  The relay as a whole: the two threads and the maps they share with the datapath. A step is an update of the main
  thread, one control message taken by the ping thread, a packet from the network, the pings that are due, or a report
  of the ping thread. \<open>R\<close> is the registry of relays the backend keeps: a response lists relays of the
  registry, each at most once.
\<close>

record relay_system =
  sys_main :: main_state
  sys_ping :: ping_thread
  sys_maps :: relay_maps

definition pending :: "relay_system \<Rightarrow> control_message list" where
  "pending s = queue_list (control_queue (sys_main s))"

definition expire_maps :: "u64 \<Rightarrow> relay_maps \<Rightarrow> relay_maps" where
  "expire_maps now m =
     m\<lparr>session_map := map_expire (\<lambda>v. expire_timestamp v < now) (session_map m),
       whitelist_map := map_expire (\<lambda>v. wl_expire_timestamp v < now) (whitelist_map m)\<rparr>"

inductive relay_step :: "crypto \<Rightarrow> control_env \<Rightarrow> relay_info set \<Rightarrow> relay_system \<Rightarrow> relay_system \<Rightarrow> bool"
  for cr env R where
  update:
    "main_update env now t nonce version server st (stats_map (sys_maps s)) (sys_main s) = Some (main', r) \<Longrightarrow>
     distinct (map relay_id (relay_ping_set main')) \<Longrightarrow> set (relay_ping_set main') \<subseteq> R \<Longrightarrow>
     m = expire_maps (main_timestamp (sys_main s)) (sys_maps s) \<Longrightarrow>
     relay_step cr env R s (s\<lparr>sys_main := main',
       sys_maps := (case r of Inl e \<Rightarrow> m | Inr state \<Rightarrow> m\<lparr>state_map := Some state\<rparr>)\<rparr>)"
| control:
    "relay_queue_pop (control_queue (sys_main s)) = (q, Some message) \<Longrightarrow>
     process_control_message fresh t message (sys_ping s, sys_maps s) = Some (ping', m') \<Longrightarrow>
     relay_step cr env R s (s\<lparr>sys_main := (sys_main s)\<lparr>control_queue := q\<rparr>, sys_ping := ping', sys_maps := m'\<rparr>)"
| packet:
    "userspace_datapath_packet cr (sys_ping s) a p pd (sys_maps s) = (n, d, m') \<Longrightarrow>
     relay_step cr env R s (s\<lparr>sys_maps := m',
       sys_ping := (sys_ping s)\<lparr>thread_manager := receive_pong a p (take n pd) t (thread_manager (sys_ping s))\<rparr>\<rparr>)"
| pings:
    "send_pings_due cr t (sys_ping s) = (ping', ds) \<Longrightarrow> relay_step cr env R s (s\<lparr>sys_ping := ping'\<rparr>)"
| stats:
    "relay_step cr env R s (s\<lparr>sys_main := (sys_main s)\<lparr>stats_queue :=
       post_ping_stats t (sys_ping s) (stats_queue (sys_main s))\<rparr>\<rparr>)"

inductive relay_run :: "crypto \<Rightarrow> control_env \<Rightarrow> relay_info set \<Rightarrow> relay_system \<Rightarrow> bool" for cr env R where
  start: "main_init now memory c = (main, cfg) \<Longrightarrow>
     relay_map m = (\<lambda>k. None) \<Longrightarrow> config_map m = Some cfg \<Longrightarrow>
     relay_run cr env R \<lparr>sys_main = main, sys_ping = ping_init c, sys_maps = m\<rparr>"
| step: "relay_run cr env R s \<Longrightarrow> relay_step cr env R s s' \<Longrightarrow> relay_run cr env R s'"

text \<open>What the pending messages make of a list of relays.\<close>

definition apply_delta :: "control_message \<Rightarrow> relay_set \<Rightarrow> relay_set" where
  "apply_delta message rs = relays_not_in (delete_relays message) rs @ new_relays message"

definition good_set :: "relay_info set \<Rightarrow> relay_set \<Rightarrow> bool" where
  "good_set R rs \<longleftrightarrow>
     distinct (map relay_id rs) \<and> length rs \<le> MAX_RELAYS \<and> set rs \<subseteq> R"

text \<open>Every pending message meets a good set, adds relays it does not have and leaves a good set; the last one leaves
  the set the main thread remembers.\<close>

fun messages_fit :: "relay_info set \<Rightarrow> control_message list \<Rightarrow> relay_set \<Rightarrow> relay_set \<Rightarrow> bool" where
  "messages_fit R [] rs final \<longleftrightarrow> good_set R rs \<and> set rs = set final"
| "messages_fit R (m # ms) rs final \<longleftrightarrow>
     good_set R rs \<and> set (delete_relays m) \<subseteq> set rs \<and> set (new_relays m) \<inter> set rs = {} \<and>
     messages_fit R ms (apply_delta m rs) final"

abbreviation managed :: "relay_system \<Rightarrow> relay_set" where
  "managed s \<equiv> map relay_info (thread_manager (sys_ping s))"

definition system_inv :: "relay_info set \<Rightarrow> relay_system \<Rightarrow> bool" where
  "system_inv R s \<longleftrightarrow>
     queue_inv (control_queue (sys_main s)) \<and>
     messages_fit R (pending s) (managed s) (relay_ping_set (sys_main s)) \<and>
     good_set R (relay_ping_set (sys_main s)) \<and>
     dom (relay_map (sys_maps s)) = relay_key ` set (managed s)"

definition registry :: "relay_info set \<Rightarrow> bool" where
  "registry R \<longleftrightarrow> inj_on relay_id R \<and> inj_on (\<lambda>r. (relay_address r, info_port r)) R"

text \<open>An example: the relay of \<open>example_response\<close>, on its first update.\<close>

definition example_env :: control_env where
  "example_env = \<lparr>float_bits = (\<lambda>r. 0), out_of_range = (\<lambda>x. - (2 ^ 31)), crypto_box_easy = (\<lambda>m nonce pk sk. Some m)\<rparr>"

definition example_start :: config where
  "example_start =
     \<lparr>cfg_port = 40000, cfg_public_address = 0x0A000001, cfg_internal_address = 0x0A000001,
      cfg_public_key = replicate 32 4, cfg_private_key = replicate 32 5, cfg_backend_public_key = replicate 32 5,
      cfg_secret_key = replicate 32 8, cfg_gateway_ethernet_address = replicate 6 0, cfg_use_gateway_ethernet_address = 0\<rparr>"

definition example_main :: main_state where
  "example_main = fst (main_init 50 (replicate RELAY_RESPONSE_MAX_BYTES 0) example_start)"

definition example_no_stats :: session_stats where
  "example_no_stats = \<lparr>session_count = 0, envelope_up = 0, envelope_down = 0\<rparr>"

definition example_server :: "bytes \<Rightarrow> http_result" where
  "example_server posted = Response 200 [the (write_update_response example_response)]"

definition example_relay_2 :: relay_info where
  "example_relay_2 = \<lparr>relay_id = 7, relay_address = 0x0A000002, info_port = 40000, relay_internal = 0\<rparr>"

definition example_posted :: main_state where
  "example_posted = fst (main_post example_env 60 1 [] [1] example_no_stats None example_main)"

definition example_updated :: main_state where
  "example_updated = fst (the (main_update example_env 60 1 [] [1] example_server example_no_stats None example_main))"

definition example_no_relays :: relay_maps where
  "example_no_relays =
     \<lparr>stats_map = None, config_map = Some (snd (main_init 50 (replicate RELAY_RESPONSE_MAX_BYTES 0) example_start)),
      state_map = None, relay_map = (\<lambda>k. None), session_map = (\<lambda>k. None), whitelist_map = (\<lambda>k. None)\<rparr>"

section \<open>The two threads together\<close>

lemma in_set_iff: "relay_in_set i rs \<longleftrightarrow> i \<in> relay_id ` set rs"
  by (auto simp: relay_in_set_def list_ex_iff)

lemma set_delta:
  fixes u
  assumes R: "inj_on relay_id R" and "good_set R rs" "good_set R new" "set rs = set old"
  defines "msg \<equiv> control_message_for old u"
  assumes "ping_set u = new"
  shows "set (apply_delta msg rs) = set new" "good_set R (apply_delta msg rs)"
    "set (delete_relays msg) \<subseteq> set rs" "set (new_relays msg) \<inter> set rs = {}"
proof -
  have e: "relay_in_set (relay_id r) xs \<longleftrightarrow> r \<in> set xs" if "r \<in> set rs \<union> set new" "set xs \<subseteq> set rs \<union> set new" for r xs
  proof -
    have "set rs \<union> set new \<subseteq> R" using assms(2,3) by (simp add: good_set_def)
    then show ?thesis using that inj_on_image_mem_iff [OF R, of r "set xs"] by (auto simp: in_set_iff)
  qed
  have n: "set (new_relays msg) = set new - set rs"
    using assms(4,6) e by (auto simp: msg_def control_message_for_def relays_not_in_def)
  have d: "set (delete_relays msg) = set rs - set new"
    using assms(4,6) e by (auto simp: msg_def control_message_for_def relays_not_in_def)
  have k: "set (relays_not_in (delete_relays msg) rs) = set rs \<inter> set new"
    using d e by (auto simp: relays_not_in_def)
  show s: "set (apply_delta msg rs) = set new" using n k by (auto simp: apply_delta_def)
  show "set (delete_relays msg) \<subseteq> set rs" "set (new_relays msg) \<inter> set rs = {}" using n d by auto
  have dist: "distinct rs" "distinct new" using assms(2,3) by (auto simp: good_set_def distinct_map)
  have "distinct (apply_delta msg rs)"
    using dist n k assms(6) by (auto simp: apply_delta_def relays_not_in_def msg_def control_message_for_def)
  moreover have "inj_on relay_id (set new)" using assms(3) by (simp add: good_set_def distinct_map)
  ultimately have "length (apply_delta msg rs) = length new" "distinct (map relay_id (apply_delta msg rs))"
    using s dist(2) by (simp_all add: distinct_card [symmetric] distinct_map)
  then show "good_set R (apply_delta msg rs)" using assms(3) s by (simp add: good_set_def)
qed

lemma messages_fit_snoc:
  assumes "inj_on relay_id R" "messages_fit R ms rs old" "good_set R (ping_set u)" 
  shows "messages_fit R (ms @ [control_message_for old u]) rs (ping_set u)"
  using assms
proof (induction R ms rs old rule: messages_fit.induct)
  case (1 R rs final)
  then show ?case using set_delta [of R rs "ping_set u" final u] by auto
qed simp

lemma relay_key_inj:
  assumes "relay_key a = relay_key b"
  shows "relay_address a = relay_address b \<and> info_port a = info_port b"
proof -
  have split: "x = y \<and> p = q"
    if "push_bit 32 (ucast x :: u64) OR ucast p = push_bit 32 (ucast y) OR ucast q" for x y :: u32 and p q :: u16
  proof
    have b: "bit (push_bit 32 (ucast x :: u64) OR ucast p) n = bit (push_bit 32 (ucast y :: u64) OR ucast q) n" for n
      using that by simp
    show "p = q"
    proof (rule bit_word_eqI)
      fix n assume "n < LENGTH(16)"
      then show "bit p n = bit q n" using b [of n] by (simp add: bit_simps)
    qed
    show "x = y"
    proof (rule bit_word_eqI)
      fix n assume "n < LENGTH(32)"
      moreover have "\<not> bit p (n + 32)" "\<not> bit q (n + 32)" by (auto dest: bit_imp_le_length)
      ultimately show "bit x n = bit y n" using b [of "n + 32"] by (simp add: bit_simps)
    qed
  qed
  have "bswap32 (relay_address a) = bswap32 (relay_address b)" "bswap16 (info_port a) = bswap16 (info_port b)"
    using split [of "bswap32 (relay_address a)" "bswap16 (info_port a)"] assms by (auto simp: relay_key_def)
  then show ?thesis by (metis bswap16_bswap16 bswap32_bswap32)
qed

lemma registry_keys:
  assumes "registry R"
  shows "inj_on relay_key R"
proof (rule inj_onI)
  fix a b assume "a \<in> R" "b \<in> R" "relay_key a = relay_key b"
  then show "a = b" using assms relay_key_inj [of a b] unfolding registry_def by (auto dest: inj_onD)
qed

lemma fold_add_relay: "relay_map (fold add_relay rs m) k = (case relay_map m k of Some v \<Rightarrow> Some v | None \<Rightarrow> if k \<in> relay_key ` set rs then Some 1 else None)"
  by (induction rs arbitrary: m) (auto simp: add_relay_def map_update_def split: option.splits)

lemma dom_add_relays: "dom (relay_map (fold add_relay rs m)) = dom (relay_map m) \<union> relay_key ` set rs"
  by (auto simp: fold_add_relay dom_def split: option.splits)

lemma dom_remove_relays: "dom (relay_map (fold remove_relay rs m)) = dom (relay_map m) - relay_key ` set rs"
  by (induction rs arbitrary: m) (auto simp: remove_relay_def map_delete_def split: option.splits)

lemma relays_keep_maps:
  "state_map (fold add_relay rs m) = state_map m \<and> config_map (fold add_relay rs m) = config_map m"
  "state_map (fold remove_relay rs m) = state_map m \<and> config_map (fold remove_relay rs m) = config_map m"
  by (induction rs arbitrary: m) (simp_all add: add_relay_def remove_relay_def)

lemma delta_keys:
  assumes R: "inj_on relay_id R" "inj_on relay_key R" and "good_set R rs" "set (delete_relays msg) \<subseteq> set rs"
    "set (new_relays msg) \<inter> set rs = {}" "good_set R (apply_delta msg rs)"
  shows "relay_key ` set (apply_delta msg rs) = (relay_key ` set rs \<union> relay_key ` set (new_relays msg)) - relay_key ` set (delete_relays msg)"
proof -
  have sub: "set rs \<union> set (new_relays msg) \<subseteq> R" using assms(3,6) by (auto simp: good_set_def apply_delta_def)
  have "relay_in_set (relay_id r) (delete_relays msg) \<longleftrightarrow> r \<in> set (delete_relays msg)" if "r \<in> set rs" for r
    using that sub assms(4) inj_on_image_mem_iff [OF R(1), of r "set (delete_relays msg)"] by (auto simp: in_set_iff)
  then have "set (apply_delta msg rs) = set rs - set (delete_relays msg) \<union> set (new_relays msg)"
    by (auto simp: apply_delta_def relays_not_in_def)
  also have "\<dots> = (set rs \<union> set (new_relays msg)) - set (delete_relays msg)" using assms(4,5) by auto
  finally have e: "set (apply_delta msg rs) = (set rs \<union> set (new_relays msg)) - set (delete_relays msg)" .
  have "(set rs \<union> set (new_relays msg)) - set (delete_relays msg) \<subseteq> R" "set (delete_relays msg) \<subseteq> R"
    using sub assms(4) by auto
  then show ?thesis unfolding e by (simp only: inj_on_image_set_diff [OF R(2)] image_Un)
qed

lemma process_control:
  assumes R: "registry R" and inv: "messages_fit R (msg # ms) (map relay_info (thread_manager ping)) final"
    and keys: "dom (relay_map m) = relay_key ` relay_info ` set (thread_manager ping)"
  shows "\<exists>ping' m'. process_control_message fresh t msg (ping, m) = Some (ping', m') \<and>
    messages_fit R ms (map relay_info (thread_manager ping')) final \<and>
    dom (relay_map m') = relay_key ` relay_info ` set (thread_manager ping')"
proof -
  let ?rs = "map relay_info (thread_manager ping)"
  have g: "good_set R ?rs" "set (delete_relays msg) \<subseteq> set ?rs" "set (new_relays msg) \<inter> set ?rs = {}"
    "messages_fit R ms (apply_delta msg ?rs) final" using inv by simp_all
  then have g': "good_set R (apply_delta msg ?rs)" by (cases ms) auto
  have ne: "relay_manager_update fresh t (thread_manager ping) (new_relays msg) (delete_relays msg) \<noteq> None"
    using g' by (auto simp: relay_manager_update_def Let_def good_set_def apply_delta_def relays_not_in_def filter_map comp_def
        length_enumerate)
  then obtain manager where mg: "relay_manager_update fresh t (thread_manager ping) (new_relays msg) (delete_relays msg) = Some manager"
    by auto
  have i: "map relay_info manager = apply_delta msg ?rs"
    using manager_update_infos [OF mg] by (simp add: apply_delta_def relays_not_in_def)
  have "dom (relay_map (fold remove_relay (delete_relays msg) (fold add_relay (new_relays msg) m))) = relay_key ` set (map relay_info manager)"
    unfolding i dom_remove_relays dom_add_relays keys
    using delta_keys [OF _ _ g(1-3) g'] R registry_keys [OF R] by (simp add: registry_def)
  then show ?thesis using mg g(4) unfolding i [symmetric] by (simp add: process_control_message_def Let_def)
qed

lemma receive_pong_infos: "map relay_info (receive_pong a p pd t mg) = map relay_info mg"
proof -
  have "map relay_info (fst (relay_manager_process_pong mg a p s t)) = map relay_info mg" for s
    by (induction mg) (auto split: prod.splits)
  then show ?thesis by (simp add: receive_pong_def)
qed

lemma send_pings_infos: "send_pings_due cr t ping = (ping', ds) \<Longrightarrow> map relay_info (thread_manager ping') = map relay_info (thread_manager ping)"
proof -
  have "map relay_info (fst (send_ping_packets cr ping e t mg)) = map relay_info mg" for e mg
    by (induction mg) (auto split: prod.splits)
  then show "send_pings_due cr t ping = (ping', ds) \<Longrightarrow> map relay_info (thread_manager ping') = map relay_info (thread_manager ping)"
    by (auto simp: send_pings_due_def split: prod.splits if_splits) (metis fst_conv)
qed

lemma datapath_relay_map: "userspace_datapath_packet cr ping a p pd m = (n, d, m') \<Longrightarrow> relay_map m' = relay_map m"
  using filter_keeps_static [of m cr "synthetic_frame ping a p pd"]
  by (auto simp: userspace_datapath_packet_def keeps_static_def split: if_splits prod.splits)

lemma main_post_frame:
  assumes "main_post env now t nonce version st values main = (main', r)"
  shows "control_queue main' = control_queue main" "relay_ping_set main' = relay_ping_set main"
proof -
  have f: "control_queue (fold (\<lambda>message main. main\<lparr>main_pings_sent := stats_pings_sent message,
      main_bytes_sent := stats_bytes_sent message, main_ping_stats := stats_ping_stats message\<rparr>) ms x) = control_queue x"
    "relay_ping_set (fold (\<lambda>message main. main\<lparr>main_pings_sent := stats_pings_sent message,
      main_bytes_sent := stats_bytes_sent message, main_ping_stats := stats_ping_stats message\<rparr>) ms x) = relay_ping_set x"
    for ms x by (induction ms arbitrary: x) simp_all
  show "control_queue main' = control_queue main" "relay_ping_set main' = relay_ping_set main"
    using assms by (auto simp: main_post_def pump_stats_def remember_counters_def Let_def f split: prod.splits option.splits)
qed

lemma main_receive_cases:
  assumes "main_receive result main = Some (main', r)"
  obtains (failed) e where "r = Inl e" "control_queue main' = control_queue main" "relay_ping_set main' = relay_ping_set main"
  | (applied) u x where "r = Inr (state_of_info u)" "main' = send_control_message u x" "length (ping_set u) \<le> MAX_RELAYS"
      "control_queue x = control_queue main" "relay_ping_set x = relay_ping_set main"
proof -
  have a: thesis if ap: "apply_update_response x = Some (main', r)"
    and x: "control_queue x = control_queue main" "relay_ping_set x = relay_ping_set main" for x
  proof -
    obtain y w where p: "parse_update_response x (update_response_memory x) = Some (y, w)"
      using ap by (auto simp: apply_update_response_def bind_eq_Some_conv)
    have y: "control_queue y = control_queue x" "relay_ping_set y = relay_ping_set x"
      by (subst parse_frame(1) [OF p], simp)+
    show thesis
    proof (cases w)
      case (Inl e)
      then show thesis using ap p x y by (intro failed) (auto simp: apply_update_response_def)
    next
      case (Inr u)
      then show thesis using ap p x y parse_frame(2) [OF p Inr]
        by (intro applied [of u y]) (auto simp: apply_update_response_def)
    qed
  qed
  show thesis using assms failed a [of "main\<lparr>update_response_memory := _\<rparr>"]
    by (auto simp: main_receive_def Let_def split: http_result.splits prod.splits if_splits)
qed

lemma main_update_cases:
  assumes "main_update env now t nonce version server st values main = Some (main', r)"
  obtains (failed) e where "r = Inl e" "control_queue main' = control_queue main" "relay_ping_set main' = relay_ping_set main"
  | (applied) u x where "r = Inr (state_of_info u)" "main' = send_control_message u x" "length (ping_set u) \<le> MAX_RELAYS"
      "control_queue x = control_queue main" "relay_ping_set x = relay_ping_set main"
proof -
  obtain main1 o' where p: "main_post env now t nonce version st values main = (main1, o')" by fastforce
  note fr = main_post_frame [OF p]
  show thesis
  proof (cases o')
    case None
    then show thesis using assms p fr failed by (auto simp: main_update_def)
  next
    case (Some bs)
    then have "main_receive (server bs) main1 = Some (main', r)" using assms p by (simp add: main_update_def)
    then show thesis by (cases rule: main_receive_cases) (use fr failed applied in auto)
  qed
qed

lemma update_keeps_inv:
  assumes R: "registry R" and inv: "system_inv R s"
    and up: "main_update env now t nonce version server st values (sys_main s) = Some (main', r)"
    and resp: "distinct (map relay_id (relay_ping_set main'))" "set (relay_ping_set main') \<subseteq> R"
    and m: "relay_map m' = relay_map (sys_maps s)"
  shows "system_inv R (s\<lparr>sys_main := main', sys_maps := m'\<rparr>)"
  using up
proof (cases rule: main_update_cases)
  case (failed e)
  then show ?thesis using inv m by (simp add: system_inv_def pending_def)
next
  case (applied u x)
  let ?q = "control_queue (sys_main s)" and ?msg = "control_message_for (relay_ping_set (sys_main s)) u"
  have q: "queue_inv ?q" using inv by (simp add: system_inv_def)
  show ?thesis
  proof (cases "relay_queue_full ?q")
    case True
    then show ?thesis using inv applied m by (simp add: system_inv_def pending_def send_control_message_def)
  next
    case False
    have le: "length (queue_list ?q) < queue_size ?q"
      using False q by (simp add: full_iff queue_inv_def queue_list_eq_iff)
    note pf = relay_push_facts [OF q, of ?msg]
    have main': "relay_ping_set main' = ping_set u" "control_queue main' = fst (relay_queue_push ?q ?msg)"
      using applied False pf(3) le by (auto simp: send_control_message_def split: prod.splits bool.splits)
    have g: "good_set R (ping_set u)" using resp main'(1) applied(3) by (simp add: good_set_def)
    have "messages_fit R (queue_list ?q @ [?msg]) (managed s) (ping_set u)"
      using inv g R by (intro messages_fit_snoc) (auto simp: system_inv_def pending_def registry_def)
    then show ?thesis using inv m main' pf le g by (simp add: system_inv_def pending_def)
  qed
qed

lemma step_keeps_inv:
  assumes "relay_step cr env R s s'" "registry R" "system_inv R s"
  shows "system_inv R s'"
  using assms(1)
proof cases
  case (update now t nonce version server st main' r m)
  have "relay_map (case r of Inl e \<Rightarrow> m | Inr state \<Rightarrow> m\<lparr>state_map := Some state\<rparr>) = relay_map (sys_maps s)"
    using update(5) by (cases r) (simp_all add: expire_maps_def)
  then show ?thesis using update_keeps_inv [OF assms(2,3) update(2,3,4)] update(1) by simp
next
  case (control q msg fresh t ping' m')
  let ?q = "control_queue (sys_main s)"
  have q: "queue_inv ?q" using assms(3) by (simp add: system_inv_def)
  note pf = relay_pop_facts [OF q]
  have ms: "queue_list ?q = msg # queue_list q" "queue_inv q" using control(2) pf by (auto split: list.splits)
  have "messages_fit R (msg # queue_list q) (managed s) (relay_ping_set (sys_main s))"
    "dom (relay_map (sys_maps s)) = relay_key ` relay_info ` set (thread_manager (sys_ping s))"
    using assms(3) ms by (simp_all add: system_inv_def pending_def)
  from process_control [OF assms(2) this, of fresh t]
  show ?thesis using control(1,3) assms(3) ms(2) by (auto simp: system_inv_def pending_def)
next
  case (packet a p pd n d m' t)
  have i: "relay_info ` set (receive_pong a p (take n pd) t mg) = relay_info ` set mg" for mg
    using arg_cong [OF receive_pong_infos, of set] by simp
  show ?thesis using packet(1) assms(3) datapath_relay_map [OF packet(2)]
    by (simp add: system_inv_def pending_def receive_pong_infos i)
next
  case (pings t ping' ds)
  have i: "relay_info ` set (thread_manager ping') = relay_info ` set (thread_manager (sys_ping s))"
    using arg_cong [OF send_pings_infos [OF pings(2)], of set] by simp
  show ?thesis using pings(1) assms(3) by (simp add: system_inv_def pending_def send_pings_infos [OF pings(2)] i)
next
  case (stats t)
  then show ?thesis using assms(3) by (simp add: system_inv_def pending_def)
qed

lemma run_inv: "relay_run cr env R s \<Longrightarrow> registry R \<Longrightarrow> system_inv R s"
proof (induction rule: relay_run.induct)
  case (start now memory c main cfg m)
  have "control_queue main = relay_queue_create 64" "relay_ping_set main = []" using start(1) by (auto simp: main_init_def)
  then show ?case using start
    by (simp add: system_inv_def pending_def ping_init_def good_set_def create_inv)
next
  case (step s s')
  then show ?case using step_keeps_inv by blast
qed

lemma update_rates_length: "length (update_rates c t main) = 7"
  by (simp add: update_rates_def Let_def)

lemma chunk_received:
  assumes "length bs \<le> RELAY_RESPONSE_MAX_BYTES"
  shows "receive_chunks [bs] 0 memory = (bs @ drop (length bs) memory, True)"
proof -
  have "length bs < 2 ^ 31" using assms by (simp add: RELAY_RESPONSE_MAX_BYTES_def)
  then show ?thesis using assms sint_of_small_nat [of "length bs"] by (simp add: overwrite_def)
qed

lemma response_applied:
  fixes p bs
  assumes "main_post env now t nonce version st values main = (main1, Some out)" "server out = Response 200 [bs]"
    and "write_update_response p = Some bs" "length bs \<le> RELAY_RESPONSE_MAX_BYTES"
    and "wf_response p" "\<forall>(i, a, n) \<in> set (Relays p). is_ipv4 a" "meant_for main1 p"
  defines "main2 \<equiv> main1\<lparr>update_response_memory := bs @ drop (length bs) (update_response_memory main1)\<rparr>"
  shows "main_update env now t nonce version server st values main =
    (if length (TargetVersion p) < 32
     then Some (send_control_message (update_of p) (main2\<lparr>initialized := True, main_timestamp := Timestamp p\<rparr>),
                Inr (state_of_info (update_of p)))
     else None)"
proof -
  have "meant_for main2 p" using assms(7) by (simp add: meant_for_def main2_def)
  from response_parsed [OF assms(5,6) this assms(3)]
  have "parse_update_response main2 (update_response_memory main2) =
    (if length (TargetVersion p) < 32
     then Some (main2\<lparr>initialized := True, main_timestamp := Timestamp p\<rparr>, Inr (update_of p)) else None)"
    by (simp add: main2_def)
  then show ?thesis
    using assms(1,2) chunk_received [OF assms(4)]
    by (simp add: main_update_def main_receive_def apply_update_response_def main2_def [symmetric] Let_def)
qed

lemma example_written:
  "\<exists>bs. write_update_response example_response = Some bs \<and> length bs \<le> RELAY_RESPONSE_MAX_BYTES"
  by (simp add: write_update_response_def example_response_def WriteString_def WriteBytes_def write_relay_def codec_simps
      RELAY_RESPONSE_MAX_BYTES_def relay_write_uint8_def)

lemma example_valid: "wf_response example_response" "\<forall>(i, a, n) \<in> set (Relays example_response). is_ipv4 a"
  by (simp_all add: wf_response_def example_response_def)

lemma example_posts:
  "\<exists>out. main_post example_env 60 1 [] [1] example_no_stats None example_main = (example_posted, Some out)"
  "control_queue example_posted = relay_queue_create 64" "relay_ping_set example_posted = []"
  "meant_for example_posted example_response"
proof -
  show e: "\<exists>out. main_post example_env 60 1 [] [1] example_no_stats None example_main = (example_posted, Some out)"
    unfolding example_posted_def by (simp add: main_post_def Let_def example_env_def)
  then obtain out where o: "main_post example_env 60 1 [] [1] example_no_stats None example_main = (example_posted, Some out)" by blast
  show "control_queue example_posted = relay_queue_create 64" "relay_ping_set example_posted = []"
    using main_post_frame [OF o] by (simp_all add: example_main_def main_init_def)
  have "pump_stats example_main = example_main"
    by (simp add: pump_stats_def example_main_def main_init_def relay_queue_create_def relay_queue_pop_def)
  then have "main_port example_posted = 40000 \<and> main_public_address example_posted = 0x0A000001 \<and> main_public_key example_posted = replicate 32 4"
    by (simp add: example_posted_def main_post_def Let_def example_env_def remember_counters_def)
       (simp add: example_main_def main_init_def example_start_def)
  then show "meant_for example_posted example_response"
    by (simp add: meant_for_def example_response_def ipv4_host_def)
qed

lemma example_update:
  "main_update example_env 60 1 [] [1] example_server example_no_stats None example_main =
     Some (example_updated, Inr (state_of_info (update_of example_response)))"
  "relay_ping_set example_updated = [example_relay_2]"
  "queue_list (control_queue example_updated) = [control_message_for [] (update_of example_response)]"
  "queue_inv (control_queue example_updated)"
proof -
  obtain out where o: "main_post example_env 60 1 [] [1] example_no_stats None example_main = (example_posted, Some out)"
    using example_posts(1) by blast
  obtain bs where bs: "write_update_response example_response = Some bs" "length bs \<le> RELAY_RESPONSE_MAX_BYTES"
    using example_written by blast
  have sv: "example_server out = Response 200 [bs]" by (simp add: example_server_def bs)
  have tv: "length (TargetVersion example_response) < 32" by (simp add: example_response_def)
  note ra = response_applied [where server = example_server, OF o sv bs example_valid example_posts(4), unfolded if_P [OF tv]]
  show "main_update example_env 60 1 [] [1] example_server example_no_stats None example_main =
     Some (example_updated, Inr (state_of_info (update_of example_response)))"
    using ra by (simp add: example_updated_def)
  have ps: "ping_set (update_of example_response) = [example_relay_2]"
    by (simp add: update_of_def example_response_def example_relay_2_def ipv4_host_def)
  have nf: "\<not> relay_queue_full (control_queue example_posted)"
    by (simp add: example_posts relay_queue_full_def relay_queue_create_def)
  have q: "queue_inv (relay_queue_create 64 :: control_message relay_queue)"
    "queue_list (relay_queue_create 64 :: control_message relay_queue) = []" by (simp_all add: create_inv)
  have qs: "queue_size (relay_queue_create 64 :: control_message relay_queue) = 64" by (simp add: relay_queue_create_def)
  note pf = relay_push_facts [OF q(1), of "control_message_for [] (update_of example_response)"]
  have u: "relay_ping_set example_updated = ping_set (update_of example_response) \<and>
    control_queue example_updated = fst (relay_queue_push (relay_queue_create 64) (control_message_for [] (update_of example_response)))"
    using ra nf pf(3) by (simp add: example_updated_def send_control_message_def example_posts q qs split: prod.splits bool.splits)
  show "relay_ping_set example_updated = [example_relay_2]" using u ps by simp
  show "queue_list (control_queue example_updated) = [control_message_for [] (update_of example_response)]"
    "queue_inv (control_queue example_updated)" using u pf q qs by simp_all
qed

section \<open>Properties\<close>


lemma example_run:
  "\<exists>s. relay_run example_crypto example_env {example_relay_2} s \<and> pending s = [] \<and> relay_ping_set (sys_main s) = [example_relay_2]"
proof -
  let ?run = "relay_run example_crypto example_env {example_relay_2}" and ?u = "update_of example_response"
  let ?s0 = "\<lparr>sys_main = example_main, sys_ping = ping_init example_start, sys_maps = example_no_relays\<rparr>"
  have m0: "main_init 50 (replicate RELAY_RESPONSE_MAX_BYTES 0) example_start =
      (example_main, snd (main_init 50 (replicate RELAY_RESPONSE_MAX_BYTES 0) example_start))"
    by (simp add: example_main_def)
  have r0: "?run ?s0" by (rule relay_run.start [OF m0]) (simp_all add: example_no_relays_def)
  obtain m1 where s1: "relay_step example_crypto example_env {example_relay_2} ?s0 (?s0\<lparr>sys_main := example_updated, sys_maps := m1\<rparr>)"
    using relay_step.update [of example_env 60 1 "[]" "[1]" example_server example_no_stats ?s0 example_updated
        "Inr (state_of_info ?u)" "{example_relay_2}"] example_update(1,2)
    by (auto simp: example_no_relays_def)
  let ?s1 = "?s0\<lparr>sys_main := example_updated, sys_maps := m1\<rparr>"
  have r1: "?run ?s1" by (rule relay_run.step [OF r0 s1])
  have reg: "registry {example_relay_2}" by (simp add: registry_def)
  obtain q where q: "relay_queue_pop (control_queue example_updated) = (q, Some (control_message_for [] ?u))" "queue_list q = []"
    using relay_pop_facts [OF example_update(4)] example_update(3) by (cases "relay_queue_pop (control_queue example_updated)") auto
  have inv: "system_inv {example_relay_2} ?s1" by (rule run_inv [OF r1 reg])
  have fit: "messages_fit {example_relay_2} [control_message_for [] ?u] (map relay_info (thread_manager (sys_ping ?s1))) (relay_ping_set example_updated)"
    and keys: "dom (relay_map (sys_maps ?s1)) = relay_key ` relay_info ` set (thread_manager (sys_ping ?s1))"
    using inv example_update(3) by (simp_all add: system_inv_def pending_def)
  obtain ping2 m2 where p: "process_control_message (\<lambda>i. example_history) 1 (control_message_for [] ?u) (sys_ping ?s1, sys_maps ?s1) = Some (ping2, m2)"
    using process_control [OF reg fit keys] by blast
  let ?s2 = "?s1\<lparr>sys_main := (sys_main ?s1)\<lparr>control_queue := q\<rparr>, sys_ping := ping2, sys_maps := m2\<rparr>"
  have "?run (?s1\<lparr>sys_main := (sys_main ?s1)\<lparr>control_queue := q\<rparr>, sys_ping := ping2, sys_maps := m2\<rparr>)"
    by (rule relay_run.step [OF r1 relay_step.control [OF _ p]]) (use q in simp)
  moreover have "pending ?s2 = []" "relay_ping_set (sys_main ?s2) = [example_relay_2]"
    using q(2) example_update(2) by (simp_all add: pending_def)
  ultimately show ?thesis by blast
qed


text \<open>
  C4. A response the backend's Go code writes is taken over completely by the relay it is meant for: whatever the response
  buffer held before, the datapath gets the new time, the magic values and the ping key, and the
  control message with the difference of the relay sets is queued for the ping thread. This needs a target version of
  less than 32 bytes: with the 32 bytes that Go permits, the relay writes beyond its buffer.
\<close>

theorem backend_response_is_applied:
  assumes "main_post env now t nonce version st values main = (main1, Some posted)" "server posted = Response 200 [bs]"
    and "write_update_response p = Some bs" "length bs \<le> RELAY_RESPONSE_MAX_BYTES"
    and "wf_response p" "\<forall>(i, a, n) \<in> set (Relays p). is_ipv4 a" "meant_for main1 p"
  shows "main_update env now t nonce version server st values main =
    (if length (TargetVersion p) < 32
     then Some (send_control_message (update_of p)
                  (main1\<lparr>update_response_memory := bs @ drop (length bs) (update_response_memory main1),
                     initialized := True, main_timestamp := Timestamp p\<rparr>),
                Inr (state_of_info (update_of p)))
     else None)"
  using response_applied [where server = server, OF assms] by simp

theorem backend_response_is_applied_witness:
  "\<exists>main'. main_update example_env 60 1 [] [1] example_server example_no_stats None example_main =
     Some (main', Inr (state_of_info (update_of example_response)))"
proof -
  obtain out where o: "main_post example_env 60 1 [] [1] example_no_stats None example_main = (example_posted, Some out)"
    using example_posts(1) by blast
  obtain bs where bs: "write_update_response example_response = Some bs" "length bs \<le> RELAY_RESPONSE_MAX_BYTES"
    using example_written by blast
  have sv: "example_server out = Response 200 [bs]" by (simp add: example_server_def bs)
  have "length (TargetVersion example_response) < 32" by (simp add: example_response_def)
  then show ?thesis
    using backend_response_is_applied [where server = example_server, OF o sv bs example_valid example_posts(4)] by simp
qed



text \<open>
  C35. The timeouts of the main thread always end. They count every session of the table, add up the bandwidth of their envelopes,
  and remove exactly the sessions and whitelist entries whose time has passed; in a test build that disables
  it no session is removed.
\<close>

theorem timeouts_remove_exactly_the_expired:
  assumes "us_inv sessions" "us_inv whitelist"
  shows "\<exists>st sessions' whitelist'.
     main_update_timeouts disable_destroy now sessions whitelist = Some (st, sessions', whitelist') \<and>
     us_inv sessions' \<and> us_inv whitelist' \<and>
     bpf_map_lookup_elem sessions' =
       map_expire (\<lambda>v. expire_timestamp v < now \<and> \<not> disable_destroy) (bpf_map_lookup_elem sessions) \<and>
     bpf_map_lookup_elem whitelist' = map_expire (\<lambda>v. wl_expire_timestamp v < now) (bpf_map_lookup_elem whitelist) \<and>
     session_count st = of_nat (length (us_keys sessions)) \<and>
     envelope_up st = (\<Sum>k\<leftarrow>us_keys sessions. ucast (envelope_kbps_up (the (bpf_map_lookup_elem sessions k)))) \<and>
     envelope_down st = (\<Sum>k\<leftarrow>us_keys sessions. ucast (envelope_kbps_down (the (bpf_map_lookup_elem sessions k))))"
  by (rule timeouts_result [OF assms])

theorem timeouts_remove_exactly_the_expired_witness:
  "\<exists>st sessions' whitelist'. main_update_timeouts False 5
     (fst (bpf_map_update_elem (hash_map_init 1 4 4) [9] (example_session\<lparr>expire_timestamp := 4\<rparr>) BPF_ANY)) (hash_map_init 1 4 4) =
     Some (st, sessions', whitelist') \<and> bpf_map_lookup_elem sessions' [9] = None"
proof -
  let ?m = "fst (bpf_map_update_elem (hash_map_init 1 4 4) [9] (example_session\<lparr>expire_timestamp := 4\<rparr>) BPF_ANY)"
  have "us_inv ?m" by (rule us_inv_update) simp_all
  moreover have "us_inv (hash_map_init 1 4 4 :: whitelist_value us_map)" by simp
  moreover have "bpf_map_lookup_elem ?m [9] = Some (example_session\<lparr>expire_timestamp := 4\<rparr>)"
    by (simp add: us.look_after_any)
  ultimately show ?thesis
    using timeouts_remove_exactly_the_expired [of ?m "hash_map_init 1 4 4" False 5]
    by (auto simp: map_expire_def)
qed

text \<open>
  C36. The response never overruns its buffer: whatever chunks of at most the buffer's size arrive, the write function only changes
  the buffer itself, and a transfer that it accepts to the end has left exactly the concatenated chunks at the front.
\<close>

theorem response_stays_in_buffer:
  assumes "\<forall>c \<in> set chunks. length c \<le> RELAY_RESPONSE_MAX_BYTES" "RELAY_RESPONSE_MAX_BYTES \<le> length memory"
  shows "length (fst (receive_chunks chunks 0 memory)) = length memory \<and>
    drop RELAY_RESPONSE_MAX_BYTES (fst (receive_chunks chunks 0 memory)) = drop RELAY_RESPONSE_MAX_BYTES memory \<and>
    (snd (receive_chunks chunks 0 memory) \<longrightarrow>
       take (length (concat chunks)) (fst (receive_chunks chunks 0 memory)) = concat chunks)"
  using receive_chunks_bound [OF assms(1) _ assms(2), of 0] by (auto simp: overwrite_def)

theorem response_stays_in_buffer_witness:
  "take 3 (fst (receive_chunks [[1], [2, 3]] 0 (replicate RELAY_RESPONSE_MAX_BYTES 0))) = [1, 2, 3]"
proof -
  have b: "\<forall>c \<in> set [[1 :: u8], [2, 3]]. length c \<le> RELAY_RESPONSE_MAX_BYTES"
    "RELAY_RESPONSE_MAX_BYTES \<le> length (replicate RELAY_RESPONSE_MAX_BYTES (0 :: u8))"
    by (simp_all add: RELAY_RESPONSE_MAX_BYTES_def)
  have "snd (receive_chunks [[1], [2, 3]] 0 (replicate RELAY_RESPONSE_MAX_BYTES 0))"
    by (simp add: RELAY_RESPONSE_MAX_BYTES_def)
  moreover have "length (concat [[1 :: u8], [2, 3]]) = 3" "concat [[1 :: u8], [2, 3]] = [1, 2, 3]" by simp_all
  ultimately show ?thesis using response_stays_in_buffer [OF b] by metis
qed

text \<open>
  C37. Failed updates: an update that fails leaves the relays the main thread remembers and the messages to
  the ping thread as they were, so that the next one starts from the same difference. The main loop gives up
  exactly when 31 updates in a row have failed, one more than the message it prints says.
\<close>

theorem failed_updates:
  "(main_update env now t nonce version server st values main = Some (main', Inl e) \<longrightarrow>
     control_queue main' = control_queue main \<and> relay_ping_set main' = relay_ping_set main) \<and>
   (main_loop 0 results \<longleftrightarrow> (\<exists>xs ys. results = xs @ replicate (RELAY_MAX_UPDATE_ATTEMPTS + 1) False @ ys))"
proof
  show "main_update env now t nonce version server st values main = Some (main', Inl e) \<longrightarrow>
     control_queue main' = control_queue main \<and> relay_ping_set main' = relay_ping_set main"
    by (auto elim!: main_update_cases)
  show "main_loop 0 results \<longleftrightarrow> (\<exists>xs ys. results = xs @ replicate (RELAY_MAX_UPDATE_ATTEMPTS + 1) False @ ys)"
    using main_loop_gives_up [of 0 results] by (auto simp: numeral_eq_Suc)
qed

theorem failed_updates_witness:
  "\<exists>main'. main_update example_env 60 1 [] [1] (\<lambda>b. Response 500 []) example_no_stats None example_main = Some (main', Inl Bad_Status) \<and>
     relay_ping_set main' = relay_ping_set example_main"
proof -
  obtain out where o: "main_post example_env 60 1 [] [1] example_no_stats None example_main = (example_posted, Some out)"
    using example_posts(1) by blast
  then have "main_update example_env 60 1 [] [1] (\<lambda>b. Response 500 []) example_no_stats None example_main = Some (example_posted, Inl Bad_Status)"
    by (simp add: main_update_def main_receive_def)
  then show ?thesis using failed_updates by blast
qed

text \<open>
  C38. New relays enter the map of known relays before deleted ones leave it. When a relay comes back under a new id with
  the address of one that is deleted by the same message, its entry is not inserted since it exists and
  then removed: the ping thread pings it, and the datapath does not know it.
\<close>

theorem reused_address_is_forgotten:
  assumes "relay_key r = relay_key r'" "new_relays message = [r']" "delete_relays message = [r]"
    and "process_control_message fresh t message (ping, m) = Some (ping', m')"
  shows "r' \<in> set (map relay_info (thread_manager ping')) \<and> relay_map m' (relay_key r') = None"
proof -
  have "m' = fold remove_relay [r] (fold add_relay [r'] m)" and
    "relay_manager_update fresh t (thread_manager ping) [r'] [r] = Some (thread_manager ping')"
    using assms by (auto simp: process_control_message_def Let_def split: option.splits)
  then show ?thesis using manager_update_infos [of fresh t "thread_manager ping" "[r']" "[r]" "thread_manager ping'"] assms(1)
    by (auto simp: remove_relay_def map_delete_def split: option.splits)
qed

theorem reused_address_is_forgotten_witness:
  "\<exists>ping' m'. process_control_message (\<lambda>i. example_history) 1
      \<lparr>msg_timestamp = 1, msg_magic = [], msg_ping_key = [], new_relays = [example_relay_2\<lparr>relay_id := 8\<rparr>],
       delete_relays = [example_relay_2]\<rparr> (ping_init example_start, example_no_relays) = Some (ping', m') \<and>
     relay_map m' (relay_key example_relay_2) = None"
proof -
  let ?msg = "\<lparr>msg_timestamp = 1, msg_magic = [], msg_ping_key = [], new_relays = [example_relay_2\<lparr>relay_id := 8\<rparr>],
       delete_relays = [example_relay_2]\<rparr>"
  obtain ping' m' where p: "process_control_message (\<lambda>i. example_history) 1 ?msg (ping_init example_start, example_no_relays) = Some (ping', m')"
    by (simp add: process_control_message_def relay_manager_update_def ping_init_def Let_def)
  have "relay_key example_relay_2 = relay_key (example_relay_2\<lparr>relay_id := 8\<rparr>)" by (simp add: relay_key_def)
  from reused_address_is_forgotten [OF this _ _ p] p this show ?thesis by auto
qed

end
