(* ===== verification/Core_Tokens.thy ===== *)
theory Core_Tokens
  imports Relay_Output Wire_Encoding
begin

text \<open>
  The backend's side of a route, \<open>modules/core/core.go\<close>: the packet filter in Go, ping tokens, and the route and continue
  tokens it writes for the nodes of a route, with the readers. The AEAD of the Go library is a parameter. The lemmas
  show that the Go filter computes what the SDK's computes, that tokens are read back by Go and by the relay as they were written,
  and what the relay's route request handler does with a token of the backend.
\<close>

section \<open>Definitions\<close>

text \<open>\<open>modules/core/core.go\<close>: the packet filter of the backend. The lengths of the arguments are those of the slices.\<close>

definition GeneratePittle :: "bytes \<Rightarrow> bytes \<Rightarrow> int \<Rightarrow> bytes" where
  "GeneratePittle fromAddress toAddress packetLength =
     (let packetLengthData = le_bytes 2 (of_int packetLength :: u16);
          sm = foldl (\<lambda>s b. s + ucast b) (0 :: u16) fromAddress;
          sm = foldl (\<lambda>s b. s + ucast b) sm toAddress;
          sm = sm + ucast (packetLengthData ! 0);
          sm = sm + ucast (packetLengthData ! 1);
          sumData = le_bytes 2 sm;
          out0 = 1 OR (sumData ! 0 XOR sumData ! 1 XOR 193)
      in [out0, 1 OR ((255 - out0) XOR 113)])"

text \<open>\<open>hash/fnv\<close> of the Go library: \<open>New64a\<close> and \<open>Write\<close>.\<close>

definition fnv64a_write :: "u64 \<Rightarrow> bytes \<Rightarrow> u64" where
  "fnv64a_write h bs = foldl (\<lambda>h b. (h XOR ucast b) * 1099511628211) h bs"

definition GenerateChonkle :: "bytes \<Rightarrow> bytes \<Rightarrow> bytes \<Rightarrow> int \<Rightarrow> bytes" where
  "GenerateChonkle mg fromAddressData toAddressData packetLength =
     (let packetLengthData = le_bytes 2 (of_int packetLength :: u16);
          hash = fnv64a_write 14695981039346656037 mg;
          hash = fnv64a_write hash fromAddressData;
          hash = fnv64a_write hash toAddressData;
          hash = fnv64a_write hash packetLengthData;
          data = le_bytes 8 hash
      in [drop_bit 6 (data ! 6 AND 0xC0) + 42,
          (data ! 3 AND 0x1F) + 200,
          drop_bit 2 (data ! 2 AND 0xFC) + 5,
          data ! 0,
          (data ! 2 AND 0x03) + 78,
          (data ! 4 AND 0x7F) + 96,
          drop_bit 2 (data ! 1 AND 0xFC) + 100,
          (if data ! 7 AND 1 = 0 then 79 else 7),
          (if data ! 4 AND 0x80 = 0 then 37 else 83),
          (data ! 5 AND 0x07) + 124,
          drop_bit 5 (data ! 1 AND 0xE0) + 175,
          (data ! 6 AND 0x3F) + 33,
          (let value = data ! 1 AND 0x03 in if value = 0 then 97 else if value = 1 then 5 else if value = 2 then 43 else 13),
          drop_bit 3 (data ! 5 AND 0xF8) + 210,
          drop_bit 1 (data ! 7 AND 0xFE) + 17])"

definition BasicPacketFilter :: "bytes \<Rightarrow> int \<Rightarrow> bool" where
  "BasicPacketFilter data packetLength \<longleftrightarrow>
     (if packetLength < 18 then False
      else if data ! 0 < 0x32 \<or> data ! 0 > 0x3C then False
      else if data ! 2 \<noteq> 1 OR ((255 - data ! 1) XOR 113) then False
      else if data ! 3 < 0x2A \<or> data ! 3 > 0x2D then False
      else if data ! 4 < 0xC8 \<or> data ! 4 > 0xE7 then False
      else if data ! 5 < 0x05 \<or> data ! 5 > 0x44 then False
      else if data ! 7 < 0x4E \<or> data ! 7 > 0x51 then False
      else if data ! 8 < 0x60 \<or> data ! 8 > 0xDF then False
      else if data ! 9 < 0x64 \<or> data ! 9 > 0xE3 then False
      else if data ! 10 \<noteq> 0x07 \<and> data ! 10 \<noteq> 0x4F then False
      else if data ! 11 \<noteq> 0x25 \<and> data ! 11 \<noteq> 0x53 then False
      else if data ! 12 < 0x7C \<or> data ! 12 > 0x83 then False
      else if data ! 13 < 0xAF \<or> data ! 13 > 0xB6 then False
      else if data ! 14 < 0x21 \<or> data ! 14 > 0x60 then False
      else if data ! 15 \<noteq> 0x61 \<and> data ! 15 \<noteq> 0x05 \<and> data ! 15 \<noteq> 0x2B \<and> data ! 15 \<noteq> 0x0D then False
      else if data ! 16 < 0xD2 \<or> data ! 16 > 0xF1 then False
      else if data ! 17 < 0x11 \<or> data ! 17 > 0x90 then False
      else True)"

definition AdvancedPacketFilter :: "bytes \<Rightarrow> bytes \<Rightarrow> bytes \<Rightarrow> bytes \<Rightarrow> int \<Rightarrow> bool" where
  "AdvancedPacketFilter data mg fromAddress toAddress packetLength \<longleftrightarrow>
     (if packetLength < 18 then False
      else if GeneratePittle fromAddress toAddress packetLength \<noteq> window 1 2 data then False
      else if GenerateChonkle mg fromAddress toAddress packetLength \<noteq> window 3 15 data then False
      else True)"

text \<open>\<open>GetAddressData\<close> is \<open>nil\<close> for an address that is not IPv4; \<open>copy\<close> then leaves the zeroed destination alone.\<close>

fun GetAddressData :: "udp_addr \<Rightarrow> bytes" where
  "GetAddressData (IPv4 ip p) = ip"
| "GetAddressData _ = []"

fun addr_port :: "udp_addr \<Rightarrow> u16" where
  "addr_port No_Addr = 0"
| "addr_port (IPv4 ip p) = p"
| "addr_port (IPv6 ip p) = p"

definition copy_into :: "nat \<Rightarrow> bytes \<Rightarrow> bytes" where
  "copy_into n bs = take n bs @ replicate (n - length bs) 0"

definition PutUint16_BE :: "u16 \<Rightarrow> bytes" where
  "PutUint16_BE v = [ucast (drop_bit 8 v), ucast v]"

definition GeneratePingToken :: "crypto \<Rightarrow> u64 \<Rightarrow> udp_addr \<Rightarrow> udp_addr \<Rightarrow> bytes \<Rightarrow> bytes" where
  "GeneratePingToken cr expireTimestamp from_addr to_addr key =
     take 32 (sha256 cr
       (copy_into 32 key @ le_bytes 8 expireTimestamp @ copy_into 4 (GetAddressData from_addr) @
        copy_into 4 (GetAddressData to_addr) @ PutUint16_BE (addr_port from_addr) @ PutUint16_BE (addr_port to_addr)))"

text \<open>Route tokens and continue tokens.\<close>

record RouteToken =
  ExpireTimestamp :: u64
  SessionId :: u64
  SessionVersion :: u8
  EnvelopeKbpsUp :: u32
  EnvelopeKbpsDown :: u32
  NextAddress :: udp_addr
  PrevAddress :: udp_addr
  NextInternal :: u8
  PrevInternal :: u8
  SessionPrivateKey :: bytes

definition WriteRouteToken :: "RouteToken \<Rightarrow> bytes" where
  "WriteRouteToken data =
     copy_into 32 (SessionPrivateKey data) @ le_bytes 8 (ExpireTimestamp data) @ le_bytes 8 (SessionId data) @
     le_bytes 4 (EnvelopeKbpsUp data) @ le_bytes 4 (EnvelopeKbpsDown data) @
     copy_into 4 (GetAddressData (NextAddress data)) @ copy_into 4 (GetAddressData (PrevAddress data)) @
     PutUint16_BE (addr_port (NextAddress data)) @ PutUint16_BE (addr_port (PrevAddress data)) @
     [SessionVersion data, NextInternal data, PrevInternal data]"

definition Uint16_BE :: "bytes \<Rightarrow> u16" where
  "Uint16_BE bs = ucast (bs ! 1) OR push_bit 8 (ucast (bs ! 0))"

definition ip_of_word :: "u32 \<Rightarrow> bytes" where
  "ip_of_word a = [ucast (a AND 0xFF), ucast (drop_bit 8 a AND 0xFF), ucast (drop_bit 16 a AND 0xFF), ucast (drop_bit 24 a AND 0xFF)]"

definition ReadRouteToken :: "bytes \<Rightarrow> RouteToken" where
  "ReadRouteToken buffer =
     \<lparr>ExpireTimestamp = load64 32 buffer, SessionId = load64 40 buffer, SessionVersion = buffer ! 68,
      EnvelopeKbpsUp = load32 48 buffer, EnvelopeKbpsDown = load32 52 buffer,
      NextAddress = IPv4 (ip_of_word (load32 56 buffer)) (Uint16_BE (window 64 2 buffer)),
      PrevAddress = IPv4 (ip_of_word (load32 60 buffer)) (Uint16_BE (window 66 2 buffer)),
      NextInternal = buffer ! 69, PrevInternal = buffer ! 70, SessionPrivateKey = window 0 32 buffer\<rparr>"

record ContinueToken =
  ContinueExpireTimestamp :: u64
  ContinueSessionId :: u64
  ContinueSessionVersion :: u8

definition WriteContinueToken :: "ContinueToken \<Rightarrow> bytes" where
  "WriteContinueToken token =
     le_bytes 8 (ContinueExpireTimestamp token) @ le_bytes 8 (ContinueSessionId token) @ [ContinueSessionVersion token]"

definition ReadContinueToken :: "bytes \<Rightarrow> ContinueToken" where
  "ReadContinueToken buffer =
     \<lparr>ContinueExpireTimestamp = load64 0 buffer, ContinueSessionId = load64 8 buffer, ContinueSessionVersion = buffer ! 16\<rparr>"

text \<open>\<open>chacha20poly1305.NewX\<close> of the Go library, which fails unless the key has 32 bytes: \<open>Seal\<close> takes key, nonce and
  plaintext, \<open>Open\<close> key, nonce and ciphertext.\<close>

record go_aead =
  Seal :: "bytes \<Rightarrow> bytes \<Rightarrow> bytes \<Rightarrow> bytes"
  Open :: "bytes \<Rightarrow> bytes \<Rightarrow> bytes \<Rightarrow> bytes option"

definition WriteEncrypted :: "go_aead \<Rightarrow> bytes \<Rightarrow> bytes \<Rightarrow> bytes \<Rightarrow> bytes option" where
  "WriteEncrypted aead nonce data secretKey =
     (if length secretKey \<noteq> 32 then None else Some (nonce @ Seal aead secretKey nonce data))"

definition WriteEncryptedRouteToken :: "go_aead \<Rightarrow> bytes \<Rightarrow> RouteToken \<Rightarrow> bytes \<Rightarrow> bytes option" where
  "WriteEncryptedRouteToken aead nonce token secretKey = WriteEncrypted aead nonce (WriteRouteToken token) secretKey"

definition ReadEncryptedRouteToken :: "go_aead \<Rightarrow> bytes \<Rightarrow> bytes \<Rightarrow> RouteToken option" where
  "ReadEncryptedRouteToken aead tokenData secretKey =
     (if length secretKey \<noteq> 32 then None
      else map_option ReadRouteToken (Open aead secretKey (take 24 (take 111 tokenData)) (drop 24 (take 111 tokenData))))"

definition WriteEncryptedContinueToken :: "go_aead \<Rightarrow> bytes \<Rightarrow> ContinueToken \<Rightarrow> bytes \<Rightarrow> bytes option" where
  "WriteEncryptedContinueToken aead nonce token secretKey = WriteEncrypted aead nonce (WriteContinueToken token) secretKey"

definition ReadEncryptedContinueToken :: "go_aead \<Rightarrow> bytes \<Rightarrow> bytes \<Rightarrow> ContinueToken option" where
  "ReadEncryptedContinueToken aead tokenData secretKey =
     (if length secretKey \<noteq> 32 then None
      else map_option ReadContinueToken (Open aead secretKey (take 24 (take 57 tokenData)) (drop 24 (take 57 tokenData))))"

text \<open>The nodes of a route: the client, the relays and the server, as the parallel slices describe them.\<close>

record route_node =
  publicAddress :: udp_addr
  hasInternalAddress :: bool
  internalAddress :: udp_addr
  internalGroup :: u64
  seller :: int
  secretKey :: bytes

definition use_internal :: "route_node \<Rightarrow> route_node \<Rightarrow> bool" where
  "use_internal a b \<longleftrightarrow>
     hasInternalAddress a \<and> hasInternalAddress b \<and> seller a = seller b \<and> internalGroup a = internalGroup b"

definition route_token_for :: "u64 \<Rightarrow> u64 \<Rightarrow> u8 \<Rightarrow> u32 \<Rightarrow> u32 \<Rightarrow> route_node list \<Rightarrow> bytes \<Rightarrow> nat \<Rightarrow> RouteToken" where
  "route_token_for expire sid version up down nodes privateKey i =
     (let prev = (i \<noteq> 0 \<and> use_internal (nodes ! i) (nodes ! (i - 1)));
          nxt = (i \<noteq> length nodes - 1 \<and> use_internal (nodes ! i) (nodes ! (i + 1)))
      in \<lparr>ExpireTimestamp = expire, SessionId = sid, SessionVersion = version, EnvelopeKbpsUp = up, EnvelopeKbpsDown = down,
          NextAddress = (if i \<noteq> length nodes - 1
                         then if nxt then internalAddress (nodes ! (i + 1)) else publicAddress (nodes ! (i + 1))
                         else IPv4 [0, 0, 0, 0] 0),
          PrevAddress = (if i \<noteq> 0 then if prev then internalAddress (nodes ! (i - 1)) else publicAddress (nodes ! (i - 1))
                         else IPv4 [0, 0, 0, 0] 0),
          NextInternal = (if nxt then 1 else 0), PrevInternal = (if prev then 1 else 0), SessionPrivateKey = privateKey\<rparr>)"

text \<open>The loop over the nodes writes each token to its slice of the buffer; a token that could not be encrypted leaves it as it
  was.\<close>

fun write_tokens :: "(nat \<Rightarrow> bytes option) \<Rightarrow> nat \<Rightarrow> nat \<Rightarrow> bytes \<Rightarrow> bytes" where
  "write_tokens enc n 0 tokenData = tokenData"
| "write_tokens enc n (Suc i) tokenData =
     (let tokenData = write_tokens enc n i tokenData
      in case enc i of None \<Rightarrow> tokenData | Some token \<Rightarrow> overwrite (i * n) token tokenData)"

definition WriteRouteTokens ::
  "go_aead \<Rightarrow> (nat \<Rightarrow> bytes) \<Rightarrow> bytes \<Rightarrow> u64 \<Rightarrow> u64 \<Rightarrow> u8 \<Rightarrow> u32 \<Rightarrow> u32 \<Rightarrow> route_node list \<Rightarrow> bytes \<Rightarrow> bytes" where
  "WriteRouteTokens aead nonces privateKey expire sid version up down nodes tokenData =
     write_tokens (\<lambda>i. WriteEncryptedRouteToken aead (nonces i)
         (route_token_for expire sid version up down nodes privateKey i) (secretKey (nodes ! i)))
       111 (length nodes) tokenData"

definition WriteContinueTokens :: "go_aead \<Rightarrow> (nat \<Rightarrow> bytes) \<Rightarrow> u64 \<Rightarrow> u64 \<Rightarrow> u8 \<Rightarrow> bytes list \<Rightarrow> bytes \<Rightarrow> bytes" where
  "WriteContinueTokens aead nonces expire sid version secretKeys tokenData =
     write_tokens (\<lambda>i. WriteEncryptedContinueToken aead (nonces i)
         \<lparr>ContinueExpireTimestamp = expire, ContinueSessionId = sid, ContinueSessionVersion = version\<rparr> (secretKeys ! i))
       57 (length secretKeys) tokenData"

text \<open>Addresses and ports as the relay's structs hold them, in network order.\<close>

definition net_address :: "udp_addr \<Rightarrow> u32" where
  "net_address a = le_word (copy_into 4 (GetAddressData a))"

definition net_port :: "udp_addr \<Rightarrow> u16" where
  "net_port a = bswap16 (addr_port a)"

text \<open>The documented interface of XChaCha20-Poly1305: what the backend seals is opened by libsodium and by the kernel, and is 16 bytes
  longer.\<close>

definition same_aead :: "crypto \<Rightarrow> go_aead \<Rightarrow> bool" where
  "same_aead cr aead \<longleftrightarrow>
     (\<forall>key nonce m. length key = 32 \<longrightarrow> length nonce = 24 \<longrightarrow>
        xchacha20poly1305_decrypt cr nonce key (Seal aead key nonce m) = Some m \<and>
        Open aead key nonce (Seal aead key nonce m) = Some m \<and> length (Seal aead key nonce m) = length m + 16)"

definition relay_token :: "RouteToken \<Rightarrow> route_token" where
  "relay_token t =
     \<lparr>rt_session_private_key = SessionPrivateKey t, rt_expire_timestamp = ExpireTimestamp t, rt_session_id = SessionId t,
      rt_envelope_kbps_up = EnvelopeKbpsUp t, rt_envelope_kbps_down = EnvelopeKbpsDown t,
      rt_next_address = net_address (NextAddress t), rt_prev_address = net_address (PrevAddress t),
      rt_next_port = net_port (NextAddress t), rt_prev_port = net_port (PrevAddress t),
      rt_session_version = SessionVersion t, rt_next_internal = NextInternal t, rt_prev_internal = PrevInternal t\<rparr>"

section \<open>One filter in three languages\<close>

lemma foldl_sum_append: "foldl (\<lambda>s b. s + ucast b) a (xs @ ys) = foldl (\<lambda>s b. s + ucast b) (foldl (\<lambda>s b. s + ucast b) (a :: u16) xs) ys"
  by simp

lemma GeneratePittle_eq:
  assumes "length f = 4" "length t = 4"
  shows "GeneratePittle f t n = next_generate_pittle f t (of_int n)"
proof -
  have l: "le_bytes 2 (w :: u16) = [le_bytes 2 w ! 0, le_bytes 2 w ! 1]" for w by (simp add: le_bytes_explicit)
  have "foldl (\<lambda>s b. s + ucast b) (0 :: u16) (f @ t @ le_bytes 2 (of_int n :: u16)) =
    foldl (\<lambda>s b. s + ucast b) (foldl (\<lambda>s b. s + ucast b) 0 f) t + ucast (le_bytes 2 (of_int n :: u16) ! 0) + ucast (le_bytes 2 (of_int n :: u16) ! 1)"
    by (subst l) simp
  then show ?thesis using assms
    by (simp add: GeneratePittle_def next_generate_pittle_def pittle_of_sum_def Let_def le_bytes_explicit)
qed

lemma fnv64a_write_eq: "fnv64a_write h bs = next_fnv_write h bs"
  by (induction bs arbitrary: h) (simp_all add: fnv64a_write_def fnv_step_def)

lemma GenerateChonkle_eq:
  assumes "length f = 4" "length t = 4" "length mg = 8"
  shows "GenerateChonkle mg f t n = next_generate_chonkle mg f t (of_int n)"
  using assms
  by (simp add: GenerateChonkle_def next_generate_chonkle_def chonkle_of_hash_def Let_def fnv64a_write_eq next_fnv_init_def
      next_fnv_finalize_def)

lemma BasicPacketFilter_eq:
  assumes "18 \<le> k" "k < 65536"
  shows "BasicPacketFilter data (int k) \<longleftrightarrow> 0x32 \<le> data ! 0 \<and> data ! 0 \<le> 0x3C \<and> next_basic_packet_filter data (of_nat k)"
proof -
  have n: "of_nat k \<noteq> (0 :: u16)" "\<not> (of_nat k :: u16) < 18"
    using assms by (auto simp: word_less_nat_alt unsigned_of_nat take_bit_eq_mod of_nat_eq_0_iff word_of_nat_eq_0_iff)
  show ?thesis
    using assms n by (auto simp: BasicPacketFilter_def next_basic_packet_filter_def not_less not_le)
qed

section \<open>Tokens\<close>

lemma PutUint16_BE_eq: "PutUint16_BE v = le_bytes 2 (bswap16 v)"
proof -
  have "le_bytes 2 (bswap16 v) = rev (le_bytes 2 v)" by (simp add: bswap16_def codec_simps)
  then show ?thesis by (simp add: PutUint16_BE_def le_bytes_explicit)
qed

lemma length_copy_into [simp]: "length (copy_into n bs) = n"
  by (simp add: copy_into_def)

lemma copy_into_all [simp]: "length bs = n \<Longrightarrow> copy_into n bs = bs"
  by (simp add: copy_into_def)

lemma le_bytes_net_address: "le_bytes 4 (net_address a) = copy_into 4 (GetAddressData a)"
  by (simp add: net_address_def codec_simps)

lemma length_route_token: "length (WriteRouteToken t) = 71"
  by (simp add: WriteRouteToken_def PutUint16_BE_def)

lemma route_token_bytes:
  assumes "length (SessionPrivateKey t) = 32"
  shows "WriteRouteToken t = SessionPrivateKey t @ le_bytes 8 (ExpireTimestamp t) @ le_bytes 8 (SessionId t) @
     le_bytes 4 (EnvelopeKbpsUp t) @ le_bytes 4 (EnvelopeKbpsDown t) @ le_bytes 4 (net_address (NextAddress t)) @
     le_bytes 4 (net_address (PrevAddress t)) @ le_bytes 2 (net_port (NextAddress t)) @ le_bytes 2 (net_port (PrevAddress t)) @
     [SessionVersion t, NextInternal t, PrevInternal t]"
  using assms by (simp add: WriteRouteToken_def PutUint16_BE_eq net_port_def le_bytes_net_address)

lemma route_token_at_written:
  assumes "length (SessionPrivateKey t) = 32" "window off 71 f = WriteRouteToken t"
  shows "route_token_at off f = relay_token t"
proof -
  have w: "window (off + o') n f = window o' n (WriteRouteToken t)" if "o' + n \<le> 71" for o' n
    using that window_window [of o' n 71 off f] by (simp add: assms(2) [symmetric])
  have l: "off + 71 \<le> length f"
    using arg_cong [OF assms(2), of length] length_route_token [of t] by (simp add: length_window)
  have n: "f ! (off + o') = WriteRouteToken t ! o'" if "o' < 71" for o'
    using that l by (simp add: assms(2) [symmetric] nth_window)
  show ?thesis
    using w [of 0 32] w [of 32 8] w [of 40 8] w [of 48 4] w [of 52 4] w [of 56 4] w [of 60 4] w [of 64 2] w [of 66 2]
      n [of 68] n [of 69] n [of 70]
    unfolding route_token_at_def relay_token_def load64_def load32_def load16_def
    by (simp add: route_token_bytes [OF assms(1)] window_def codec_simps assms(1) nth_append)
qed

lemma route_token_round_trip:
  assumes "length (SessionPrivateKey t) = 32"
    and "NextAddress t = IPv4 ip1 p1" "length ip1 = 4" "PrevAddress t = IPv4 ip2 p2" "length ip2 = 4"
  shows "ReadRouteToken (WriteRouteToken t) = t"
proof -
  have ip: "ip_of_word (le_word ip) = ip" if "length ip = 4" for ip
  proof -
    have "le_bytes 4 (le_word ip :: u32) = ip" using that by (simp add: codec_simps)
    moreover have "ip_of_word w = le_bytes 4 w" for w
      by (rule nth_equalityI) (auto simp: ip_of_word_def codec_simps less_Suc_eq numeral_eq_Suc ucast_mask_byte)
    ultimately show ?thesis by simp
  qed
  have be: "Uint16_BE (le_bytes 2 (bswap16 p)) = p" for p
    using le_word_le_bytes [of 2 p]
    by (simp add: Uint16_BE_def PutUint16_BE_eq [symmetric]) (simp add: PutUint16_BE_def le_bytes_explicit)
  show ?thesis using assms
    by (simp add: ReadRouteToken_def route_token_bytes window_def load64_def load32_def codec_simps nth_append net_port_def
        net_address_def be ip)
qed

text \<open>The slices of the buffer.\<close>

lemma write_tokens_slices:
  assumes "\<forall>i < k. \<exists>t. enc i = Some t \<and> length t = n" "k * n \<le> length td"
  shows "length (write_tokens enc n k td) = length td \<and>
    (\<forall>i < k. window (i * n) n (write_tokens enc n k td) = the (enc i)) \<and>
    drop (k * n) (write_tokens enc n k td) = drop (k * n) td"
  using assms
proof (induction k)
  case 0
  then show ?case by simp
next
  case (Suc k)
  let ?w = "write_tokens enc n k td"
  obtain t where t: "enc k = Some t" "length t = n" using Suc.prems(1) by auto
  have l: "length ?w = length td" and s: "\<forall>i < k. window (i * n) n ?w = the (enc i)" using Suc by auto
  have d: "drop (k * n) ?w = drop (k * n) td" using Suc by auto
  have b: "k * n + n \<le> length td" using Suc.prems(2) by (simp add: add.commute)
  have "window (i * n) n (overwrite (k * n) t ?w) = the (enc i)" if "i < Suc k" for i
  proof (cases "i = k")
    case True
    then show ?thesis using t b l window_overwrite_same [of "k * n" t ?w] by simp
  next
    case False
    then have "Suc i * n \<le> k * n" using that by (intro mult_le_mono1) simp
    then have "i * n + n \<le> k * n" by (simp add: add.commute)
    then show ?thesis using s False that b l t by (simp add: window_overwrite_before)
  qed
  moreover have "drop (Suc k * n) (overwrite (k * n) t ?w) = drop (Suc k * n) td"
  proof -
    have "drop (Suc k * n) (overwrite (k * n) t ?w) = drop (Suc k * n) ?w"
      using b l t by (intro drop_overwrite_after) (simp_all add: add.commute)
    also have "\<dots> = drop n (drop (k * n) ?w)" by (simp add: add.commute)
    finally show ?thesis by (simp add: d add.commute)
  qed
  ultimately show ?case using t l b by (simp add: length_overwrite)
qed

lemma sealed_route_token:
  assumes "same_aead cr aead" "length key = 32" "length nonce = 24"
  shows "WriteEncryptedRouteToken aead nonce t key = Some (nonce @ Seal aead key nonce (WriteRouteToken t))"
    "length (nonce @ Seal aead key nonce (WriteRouteToken t)) = 111"
    "xchacha20poly1305_decrypt cr nonce key (Seal aead key nonce (WriteRouteToken t)) = Some (WriteRouteToken t)"
    "Open aead key nonce (Seal aead key nonce (WriteRouteToken t)) = Some (WriteRouteToken t)"
  using assms by (auto simp: WriteEncryptedRouteToken_def WriteEncrypted_def same_aead_def length_route_token)

lemma relay_opens_token:
  assumes "same_aead cr aead" "length key = 32" "length nonce = 24" "length (SessionPrivateKey t) = 32" "171 \<le> length f"
    and "window 60 111 f = nonce @ Seal aead key nonce (WriteRouteToken t)"
  obtains f1 where "relay_decrypt_route_token cr key 60 f = Some f1" "route_token_at 84 f1 = relay_token t"
    "length f1 = length f" "take 84 f1 = take 84 f" "drop 171 f1 = drop 171 f"
proof -
  note s = sealed_route_token [OF assms(1-3), of t]
  have "window 60 24 f = nonce" "window 84 87 f = Seal aead key nonce (WriteRouteToken t)"
  proof -
    have "window 60 24 f = take 24 (window 60 111 f)" "window 84 87 f = drop 24 (window 60 111 f)"
      by (simp_all add: window_def drop_take)
    then show "window 60 24 f = nonce" "window 84 87 f = Seal aead key nonce (WriteRouteToken t)"
      using assms(3,6) by simp_all
  qed
  then have "relay_decrypt_route_token cr key 60 f = Some (overwrite 84 (WriteRouteToken t) f)"
    using s(3) by (simp add: relay_decrypt_route_token_def)
  moreover have "route_token_at 84 (overwrite 84 (WriteRouteToken t) f) = relay_token t"
    using assms(4,5) length_route_token [of t] window_overwrite_same [of 84 "WriteRouteToken t" f]
    by (intro route_token_at_written) simp_all
  moreover have "length (overwrite 84 (WriteRouteToken t) f) = length f" "take 84 (overwrite 84 (WriteRouteToken t) f) = take 84 f"
      "drop 171 (overwrite 84 (WriteRouteToken t) f) = drop 171 f"
    using assms(5) length_route_token [of t] by (simp_all add: overwrite_def)
  ultimately show ?thesis by (rule that)
qed

lemma hop_forwards:
  assumes "same_aead cr aead" "length key = 32" "length nonce = 24" "length (SessionPrivateKey t) = 32" "282 \<le> length f"
    and w: "window 60 111 f = nonce @ Seal aead key nonce (WriteRouteToken t)"
    and "take 32 (relay_secret_key cfg) = key" "wf_gateway (gateway_of cfg)" "wf_whitelist (whitelist_map m)"
    and "current_timestamp st \<le> ExpireTimestamp t" "session_map m (token_session_key (relay_token t)) = None"
    and "whitelist_map m \<lparr>wl_address = net_address (NextAddress t), wl_port = ucast (net_port (NextAddress t))\<rparr> \<noteq> None"
  obtains g m' where "relay_route_request_packet cr cfg st f m = (XDP_TX, g, m')"
    "drop 60 g = drop 171 f" "length g = length f - 111" "sealed (current_magic st) g" "g ! 42 = RELAY_ROUTE_REQUEST_PACKET"
    "ip_saddr g = relay_internal_address cfg" "udp_source g = relay_port cfg"
    "ip_daddr g = net_address (NextAddress t)" "udp_dest g = net_port (NextAddress t)"
    "window 12 4 g = window 12 4 f" "g ! 23 = f ! 23"
    "session_map m' = (session_map m)(token_session_key (relay_token t) \<mapsto> session_of_token (relay_token t) (udp_source f))"
proof -
  obtain f1 where f1: "relay_decrypt_route_token cr key 60 f = Some f1" "route_token_at 84 f1 = relay_token t"
    "length f1 = length f" "take 84 f1 = take 84 f" "drop 171 f1 = drop 171 f"
    using relay_opens_token [OF assms(1-4) _ w] assms(5) by auto
  have us: "udp_source f1 = udp_source f"
    using arg_cong [OF f1(4), of "window 34 2"] by (simp add: load16_def window_take)
  let ?s = "session_of_token (relay_token t) (udp_source f)"
  let ?g = "strip_token 111 RELAY_ROUTE_REQUEST_PACKET f1"
  let ?args = "forward_args cfg st (length ?g - 42) (next_address ?s) (next_port ?s)"
  have a: "next_address ?s = net_address (NextAddress t)" "next_port ?s = net_port (NextAddress t)"
    by (simp_all add: session_of_token_def relay_token_def)
  have st: "length ?g = length f - 111" "?g ! 42 = RELAY_ROUTE_REQUEST_PACKET" "drop 43 ?g = drop 154 f1"
    using strip_token_facts [of 111 f1 RELAY_ROUTE_REQUEST_PACKET] f1(3) assms(5) by auto
  have d: "drop 60 ?g = drop 171 f"
    using arg_cong [OF st(3), of "drop 17"] f1(5) by simp
  obtain g' where r: "relay_redirect_packet (whitelist_map m) ?args ?g = (XDP_TX, g')"
    using redirect_drop_iff(2) [of "whitelist_map m" ?args ?g] assms(12) a
    by (cases "relay_redirect_packet (whitelist_map m) ?args ?g") (auto simp: forward_args_def)
  have ex: "\<not> rt_expire_timestamp (relay_token t) < current_timestamp st"
    using assms(10) by (auto simp: relay_token_def)
  have len: "60 \<le> length ?g" using st(1) assms(5) by simp
  have wf: "wf_whitelist (whitelist_map m)" "wf_gateway (gateway ?args)" "payload_bytes ?args = length ?g - 42"
    using assms(8,9) by (simp_all add: forward_args_def)
  note rf = redirect_frame [OF r len wf]
  define m' where "m' = out_maps (relay_route_request_packet cr cfg st f m)"
  have "relay_route_request_packet cr cfg st f m = (XDP_TX, g', m')"
    "session_map m' = (session_map m)(token_session_key (relay_token t) \<mapsto> session_of_token (relay_token t) (udp_source f))"
    using assms(5) f1(1,2) us ex r assms(7,11) unfolding m'_def
    by (simp_all add: relay_route_request_packet_def map_update_def relay_simps Let_def)
  moreover have "window 12 4 g' = window 12 4 f" "g' ! 23 = f ! 23"
    using rf(9,10) stripped_frame(3,4) [of f1 f 111 RELAY_ROUTE_REQUEST_PACKET] f1(3,4) assms(5) by simp_all
  ultimately show ?thesis
    using rf a d st by (intro that [of g' m']) (simp_all add: forward_args_def)
qed

lemma backend_opens_token:
  assumes "same_aead cr aead" "length key = 32" "length nonce = 24" "length (SessionPrivateKey t) = 32"
    and "NextAddress t = IPv4 ip1 p1" "length ip1 = 4" "PrevAddress t = IPv4 ip2 p2" "length ip2 = 4"
    and "window 0 111 b = nonce @ Seal aead key nonce (WriteRouteToken t)"
  shows "ReadEncryptedRouteToken aead b key = Some t"
proof -
  have "take 24 b = take 24 (window 0 111 b)" "drop 24 (take 111 b) = drop 24 (window 0 111 b)"
    by (simp_all add: window_def)
  then have "take 24 b = nonce" "drop 24 (take 111 b) = Seal aead key nonce (WriteRouteToken t)" using assms(3,9) by simp_all
  then show ?thesis
    using sealed_route_token(4) [OF assms(1-3), of t] route_token_round_trip [OF assms(4-8)] assms(2)
    by (simp add: ReadEncryptedRouteToken_def min_def)
qed

end
