(* ===== verification/Sdk_Packets.thy ===== *)
theory Sdk_Packets
  imports Core_Tokens Relay_Ping
begin

text \<open>
  The packets of the SDK: \<open>sdk/include/next_header.h\<close>, \<open>next_route_token.h\<close>, \<open>next_continue_token.h\<close> and the
  packet writers of \<open>sdk/source/next_packets.cpp\<close>. The lemmas show that what the SDK writes passes the relay's filters
  and header check, that what a relay sends is what the SDK's writer would have made, and that the SDK opens the
  backend's tokens.
\<close>

section \<open>Definitions\<close>

text \<open>The SDK's readers, \<open>next_route_token.h\<close> and \<open>next_continue_token.h\<close>, and headers, \<open>next_header.h\<close>.\<close>

record next_route_token =
  token_private_key :: bytes
  token_expire_timestamp :: u64
  token_session_id :: u64
  token_kbps_up :: int
  token_kbps_down :: int
  token_next_address :: u32
  token_prev_address :: u32
  token_next_port :: u16
  token_prev_port :: u16
  token_session_version :: u8
  token_next_internal :: u8
  token_prev_internal :: u8

definition next_read_route_token :: "bytes \<Rightarrow> next_route_token" where
  "next_read_route_token p =
     \<lparr>token_private_key = window 0 32 p, token_expire_timestamp = load64 32 p, token_session_id = load64 40 p,
      token_kbps_up = sint (load32 48 p), token_kbps_down = sint (load32 52 p), token_next_address = load32 56 p,
      token_prev_address = load32 60 p, token_next_port = bswap16 (load16 64 p), token_prev_port = bswap16 (load16 66 p),
      token_session_version = p ! 68, token_next_internal = p ! 69, token_prev_internal = p ! 70\<rparr>"

text \<open>The AEAD of libsodium is the parameter the relay uses as well. The result is the token and the rest of the buffer.\<close>

definition next_read_encrypted_route_token :: "crypto \<Rightarrow> bytes \<Rightarrow> bytes \<Rightarrow> (next_route_token \<times> bytes) option" where
  "next_read_encrypted_route_token cr buffer key =
     map_option (\<lambda>decrypted. (next_read_route_token decrypted, drop (24 + 71 + 16) buffer))
       (xchacha20poly1305_decrypt cr (take 24 buffer) key (window 24 (71 + 16) buffer))"

record next_continue_token =
  continue_expire_timestamp :: u64
  continue_session_id :: u64
  continue_session_version :: u8

definition next_read_continue_token :: "bytes \<Rightarrow> next_continue_token" where
  "next_read_continue_token p =
     \<lparr>continue_expire_timestamp = load64 0 p, continue_session_id = load64 8 p, continue_session_version = p ! 16\<rparr>"

definition next_read_encrypted_continue_token :: "crypto \<Rightarrow> bytes \<Rightarrow> bytes \<Rightarrow> (next_continue_token \<times> bytes) option" where
  "next_read_encrypted_continue_token cr buffer key =
     map_option (\<lambda>decrypted. (next_read_continue_token decrypted, drop (24 + 17 + 16) buffer))
       (xchacha20poly1305_decrypt cr (take 24 buffer) key (window 24 (17 + 16) buffer))"

text \<open>What \<open>next_write_header\<close> writes from the start of the header on: the whole hash, although a header only has its first
  eight bytes.\<close>

definition next_write_header :: "crypto \<Rightarrow> u8 \<Rightarrow> u64 \<Rightarrow> u64 \<Rightarrow> u8 \<Rightarrow> bytes \<Rightarrow> bytes" where
  "next_write_header cr packet_type packet_sequence sid version private_key =
     le_bytes 8 packet_sequence @ le_bytes 8 sid @ [version] @
     sha256 cr (header_data_bytes
       \<lparr>hd_session_private_key = take 32 private_key, hd_packet_type = packet_type,
        hd_packet_sequence = packet_sequence, hd_session_id = sid, hd_session_version = version\<rparr>)"

definition next_peek_header :: "bytes \<Rightarrow> u64 \<times> u64 \<times> u8" where
  "next_peek_header header = (load64 0 header, load64 8 header, header ! 16)"

definition next_read_header :: "crypto \<Rightarrow> u8 \<Rightarrow> bytes \<Rightarrow> bytes \<Rightarrow> (u64 \<times> u64 \<times> u8) option" where
  "next_read_header cr packet_type private_key header =
     (let s = load64 0 header; i = load64 8 header; v = header ! (8 + 8);
          hash = sha256 cr (header_data_bytes
            \<lparr>hd_session_private_key = take 32 private_key, hd_packet_type = packet_type, hd_packet_sequence = s,
             hd_session_id = i, hd_session_version = v\<rparr>)
      in if take 8 hash \<noteq> window (8 + 8 + 1) 8 header then None else Some (s, i, v))"

text \<open>\<open>sdk/source/next_packets.cpp\<close>: the packet writers. Each sets the type, writes the body from byte 18 on and then the filter
  bytes, for the length up to where the body ends.\<close>

definition next_stamp :: "u8 \<Rightarrow> bytes \<Rightarrow> bytes \<Rightarrow> bytes \<Rightarrow> bytes \<Rightarrow> bytes" where
  "next_stamp packet_type body mg from_address to_address =
     (let packet_length = 18 + length body
      in [packet_type] @ next_generate_pittle from_address to_address (of_nat packet_length) @
         next_generate_chonkle mg from_address to_address (of_nat packet_length) @ body)"

definition next_write_direct_packet :: "u8 \<Rightarrow> u64 \<Rightarrow> bytes \<Rightarrow> bytes \<Rightarrow> bytes \<Rightarrow> bytes \<Rightarrow> bytes" where
  "next_write_direct_packet open_session_sequence send_sequence game_packet =
     next_stamp 20 ([open_session_sequence] @ le_bytes 8 send_sequence @ game_packet)"

definition next_write_route_request_packet :: "bytes \<Rightarrow> bytes \<Rightarrow> bytes \<Rightarrow> bytes \<Rightarrow> bytes" where
  "next_write_route_request_packet token_data = next_stamp 1 token_data"

definition next_write_continue_request_packet :: "bytes \<Rightarrow> bytes \<Rightarrow> bytes \<Rightarrow> bytes \<Rightarrow> bytes" where
  "next_write_continue_request_packet token_data = next_stamp 7 token_data"

text \<open>The body after a header starts at byte 25 of it, over what the hash wrote beyond.\<close>

definition header_body :: "crypto \<Rightarrow> u8 \<Rightarrow> u64 \<Rightarrow> u64 \<Rightarrow> u8 \<Rightarrow> bytes \<Rightarrow> bytes \<Rightarrow> bytes" where
  "header_body cr packet_type send_sequence sid version private_key rest =
     take 25 (next_write_header cr packet_type send_sequence sid version private_key) @ rest"

definition next_write_route_response_packet :: "crypto \<Rightarrow> u64 \<Rightarrow> u64 \<Rightarrow> u8 \<Rightarrow> bytes \<Rightarrow> bytes \<Rightarrow> bytes \<Rightarrow> bytes \<Rightarrow> bytes" where
  "next_write_route_response_packet cr send_sequence sid version private_key =
     next_stamp 2 (header_body cr 2 send_sequence sid version private_key [])"

definition next_write_client_to_server_packet ::
  "crypto \<Rightarrow> u64 \<Rightarrow> u64 \<Rightarrow> u8 \<Rightarrow> bytes \<Rightarrow> bytes \<Rightarrow> bytes \<Rightarrow> bytes \<Rightarrow> bytes \<Rightarrow> bytes" where
  "next_write_client_to_server_packet cr send_sequence sid version private_key game_packet =
     next_stamp 3 (header_body cr 3 send_sequence sid version private_key game_packet)"

definition next_write_server_to_client_packet ::
  "crypto \<Rightarrow> u64 \<Rightarrow> u64 \<Rightarrow> u8 \<Rightarrow> bytes \<Rightarrow> bytes \<Rightarrow> bytes \<Rightarrow> bytes \<Rightarrow> bytes \<Rightarrow> bytes" where
  "next_write_server_to_client_packet cr send_sequence sid version private_key game_packet =
     next_stamp 4 (header_body cr 4 send_sequence sid version private_key game_packet)"

definition next_write_session_ping_packet ::
  "crypto \<Rightarrow> u64 \<Rightarrow> u64 \<Rightarrow> u8 \<Rightarrow> bytes \<Rightarrow> u64 \<Rightarrow> bytes \<Rightarrow> bytes \<Rightarrow> bytes \<Rightarrow> bytes" where
  "next_write_session_ping_packet cr send_sequence sid version private_key ping_sequence =
     next_stamp 5 (header_body cr 5 send_sequence sid version private_key (le_bytes 8 ping_sequence))"

definition next_write_session_pong_packet ::
  "crypto \<Rightarrow> u64 \<Rightarrow> u64 \<Rightarrow> u8 \<Rightarrow> bytes \<Rightarrow> u64 \<Rightarrow> bytes \<Rightarrow> bytes \<Rightarrow> bytes \<Rightarrow> bytes" where
  "next_write_session_pong_packet cr send_sequence sid version private_key ping_sequence =
     next_stamp 6 (header_body cr 6 send_sequence sid version private_key (le_bytes 8 ping_sequence))"

definition next_write_continue_response_packet :: "crypto \<Rightarrow> u64 \<Rightarrow> u64 \<Rightarrow> u8 \<Rightarrow> bytes \<Rightarrow> bytes \<Rightarrow> bytes \<Rightarrow> bytes \<Rightarrow> bytes" where
  "next_write_continue_response_packet cr send_sequence sid version private_key =
     next_stamp 8 (header_body cr 8 send_sequence sid version private_key [])"

definition next_write_client_ping_packet :: "bytes \<Rightarrow> u64 \<Rightarrow> u64 \<Rightarrow> u64 \<Rightarrow> bytes \<Rightarrow> bytes \<Rightarrow> bytes \<Rightarrow> bytes" where
  "next_write_client_ping_packet ping_token ping_sequence sid expire_time =
     next_stamp 9 (le_bytes 8 ping_sequence @ le_bytes 8 sid @ le_bytes 8 expire_time @ take 32 ping_token)"

definition next_write_client_pong_packet :: "u64 \<Rightarrow> u64 \<Rightarrow> bytes \<Rightarrow> bytes \<Rightarrow> bytes \<Rightarrow> bytes" where
  "next_write_client_pong_packet ping_sequence sid = next_stamp 10 (le_bytes 8 ping_sequence @ le_bytes 8 sid)"

definition next_write_server_ping_packet :: "bytes \<Rightarrow> u64 \<Rightarrow> u64 \<Rightarrow> bytes \<Rightarrow> bytes \<Rightarrow> bytes \<Rightarrow> bytes" where
  "next_write_server_ping_packet ping_token ping_sequence expire_time =
     next_stamp 13 (le_bytes 8 ping_sequence @ le_bytes 8 expire_time @ take 32 ping_token)"

definition next_write_server_pong_packet :: "u64 \<Rightarrow> bytes \<Rightarrow> bytes \<Rightarrow> bytes \<Rightarrow> bytes" where
  "next_write_server_pong_packet ping_sequence = next_stamp 14 (le_bytes 8 ping_sequence)"

definition sdk_token :: "RouteToken \<Rightarrow> next_route_token" where
  "sdk_token t =
    \<lparr>token_private_key = SessionPrivateKey t, token_expire_timestamp = ExpireTimestamp t, token_session_id = SessionId t,
     token_kbps_up = sint (EnvelopeKbpsUp t), token_kbps_down = sint (EnvelopeKbpsDown t), token_next_address = net_address (NextAddress t),
     token_prev_address = net_address (PrevAddress t), token_next_port = addr_port (NextAddress t),
     token_prev_port = addr_port (PrevAddress t), token_session_version = SessionVersion t,
     token_next_internal = NextInternal t, token_prev_internal = PrevInternal t\<rparr>"

section \<open>Lemmas\<close>

lemma next_stamp_facts [simp]:
  "length (next_stamp t body mg a b) = 18 + length body" "next_stamp t body mg a b ! 0 = t" "drop 18 (next_stamp t body mg a b) = body"
  by (simp_all add: next_stamp_def Let_def)

lemma next_stamp_passes:
  assumes "length body < 65518" "length mg = 8" "t \<noteq> 0" "t \<le> 0x0E"
  shows "xdp_basic_packet_filter (next_stamp t body mg (le_bytes 4 a) (le_bytes 4 b))"
    "relay_advanced_packet_filter (next_stamp t body mg (le_bytes 4 a) (le_bytes 4 b)) mg a b (18 + length body)"
proof -
  let ?pd = "next_stamp t body mg (le_bytes 4 a) (le_bytes 4 b)"
  have "?pd = [t] @ xdp_pittle a b (length ?pd) @ xdp_chonkle mg a b (length ?pd) @ body"
    using assms xdp_pittle_eq [of "18 + length body" a b] xdp_chonkle_eq [of "18 + length body" mg a b]
    by (simp only: next_stamp_facts) (simp add: next_stamp_def Let_def)
  note stamped_passes [OF this _ assms(2-4)]
  then show "xdp_basic_packet_filter ?pd" "relay_advanced_packet_filter ?pd mg a b (18 + length body)"
    using assms(1) by simp_all
qed

text \<open>The relay and the SDK stamp alike.\<close>

lemma sealed_is_stamp:
  assumes "sealed mg g" "length g < 65536" "length mg = 8"
  shows "packet_data g = next_stamp (g ! 42) (drop 60 g) mg (le_bytes 4 (ip_saddr g)) (le_bytes 4 (ip_daddr g))"
proof -
  have l: "60 \<le> length g" using assms(1) by (simp add: sealed_def)
  have "packet_data g = [g ! 42] @ window 43 2 g @ window 45 15 g @ drop 60 g"
  proof -
    have "packet_data g = window 42 1 g @ drop 43 g" "drop 43 g = window 43 2 g @ drop 45 g"
        "drop 45 g = window 45 15 g @ drop 60 g"
      using append_take_drop_id [of 1 "drop 42 g"] append_take_drop_id [of 2 "drop 43 g"] append_take_drop_id [of 15 "drop 45 g"]
      by (simp_all add: window_def)
    moreover have "window 42 1 g = [g ! 42]" using l by (simp add: window_def take_Suc_conv_app_nth)
    ultimately show ?thesis by simp
  qed
  then show ?thesis
    using assms xdp_pittle_eq [of "length g - 42" "ip_saddr g" "ip_daddr g"] xdp_chonkle_eq [of "length g - 42" mg "ip_saddr g" "ip_daddr g"] l
    by (simp add: sealed_def next_stamp_def Let_def)
qed

lemma sdk_route_token:
  assumes "length (SessionPrivateKey t) = 32"
  shows "next_read_route_token (WriteRouteToken t) =
    \<lparr>token_private_key = SessionPrivateKey t, token_expire_timestamp = ExpireTimestamp t, token_session_id = SessionId t,
     token_kbps_up = sint (EnvelopeKbpsUp t), token_kbps_down = sint (EnvelopeKbpsDown t), token_next_address = net_address (NextAddress t),
     token_prev_address = net_address (PrevAddress t), token_next_port = addr_port (NextAddress t),
     token_prev_port = addr_port (PrevAddress t), token_session_version = SessionVersion t,
     token_next_internal = NextInternal t, token_prev_internal = PrevInternal t\<rparr>"
  using assms
  by (simp add: next_read_route_token_def route_token_bytes window_def load64_def load32_def load16_def codec_simps
      net_port_def nth_append)

lemma sdk_opens_token:
  assumes "same_aead cr aead" "length key = 32" "length nonce = 24" "length (SessionPrivateKey t) = 32"
    and "window 0 111 b = nonce @ Seal aead key nonce (WriteRouteToken t)"
  shows "next_read_encrypted_route_token cr b key = Some (sdk_token t, drop 111 b)"
proof -
  have "take 24 b = take 24 (window 0 111 b)" "window 24 87 b = drop 24 (window 0 111 b)"
    by (simp_all add: window_def drop_take)
  then have "take 24 b = nonce" "window 24 87 b = Seal aead key nonce (WriteRouteToken t)" using assms(3,5) by simp_all
  then show ?thesis
    using sealed_route_token(3) [OF assms(1-3), of t] sdk_route_token [OF assms(4)]
    by (simp add: next_read_encrypted_route_token_def sdk_token_def)
qed

section \<open>Headers\<close>

lemma header_body_facts:
  fixes t q sid v key rest
  assumes "sha_ok cr"
  defines "b \<equiv> header_body cr t q sid v key rest"
  shows "length b = 25 + length rest" "load64 0 b = q" "load64 8 b = sid" "b ! 16 = v" "drop 25 b = rest"
    "window 17 8 b = take 8 (sha256 cr (header_data_bytes \<lparr>hd_session_private_key = take 32 key, hd_packet_type = t,
       hd_packet_sequence = q, hd_session_id = sid, hd_session_version = v\<rparr>))"
  using assms(1) unfolding b_def
  by (simp_all add: header_body_def next_write_header_def sha_ok_def load64_def window_def codec_simps nth_append take_append)

lemma next_read_header_written:
  assumes "sha_ok cr" "take 32 key = take 32 key'"
  shows "next_read_header cr t key' (header_body cr t q sid v key rest) = Some (q, sid, v)"
  using header_body_facts [OF assms(1)] assms(2) by (simp add: next_read_header_def Let_def)

lemma header_in_frame:
  assumes "sha_ok cr" "drop 60 f = header_body cr t q sid v key rest" "f ! 42 = t"
  shows "header_sequence f = q" "header_session_key f = \<lparr>key_session_id = sid, key_session_version = ucast v\<rparr>"
    "take 32 (session_private_key s) = take 32 key \<Longrightarrow> header_verifies cr s f"
proof -
  note b = header_body_facts [OF assms(1), of t q sid v key rest, folded assms(2)]
  have l: "85 \<le> length f" using b(1) by simp
  have w: "load64 60 f = q" "load64 68 f = sid" "f ! 76 = v" "window 77 8 f = window 17 8 (drop 60 f)"
    using b(2-4) l by (simp_all add: load64_def window_drop)
  show "header_sequence f = q" "header_session_key f = \<lparr>key_session_id = sid, key_session_version = ucast v\<rparr>"
    using w by (simp_all add: header_sequence_def header_session_key_def)
  show "take 32 (session_private_key s) = take 32 key \<Longrightarrow> header_verifies cr s f"
    using w b(6) assms(3) by (simp add: header_verifies_def header_sequence_def)
qed

end
