(* ===== verification/Route_Travel.thy ===== *)
theory Route_Travel
  imports Sdk_Packets Relay_Examples
begin

text \<open>
  Packets on a route, end to end: the SDK writes them, relays pass them on hop by hop, the SDK reads them. A locale has
  what one hop does with a kind of packet and shows what a whole route does; route requests and the packets of a session
  are its instances.
\<close>

section \<open>Definitions\<close>

text \<open>The network between two hops: it may rewrite the frame but delivers the datagram.\<close>

definition delivers :: "(bytes \<Rightarrow> bytes) \<Rightarrow> bool" where
  "delivers wire \<longleftrightarrow>
     (\<forall>g src sport dst dport packet. carries g src sport dst dport packet \<longrightarrow> carries (wire g) src sport dst dport packet)"

text \<open>A frame passes the datapaths of the relays of a route one after the other.\<close>

fun forward_along :: "crypto \<Rightarrow> (bytes \<Rightarrow> bytes) \<Rightarrow> relay_maps list \<Rightarrow> bytes \<Rightarrow> (bytes \<times> relay_maps list) option" where
  "forward_along cr wire [] f = Some (f, [])"
| "forward_along cr wire (m # ms) f =
     (case relay_xdp_filter cr f m of (v, g, m') \<Rightarrow>
        if v = XDP_TX then map_option (\<lambda>(h, ms'). (h, m' # ms')) (forward_along cr wire ms (wire g)) else None)"

text \<open>A relay of the route, and a leg of the journey: the magic value the filter bytes were made with and the addresses.\<close>

record hop =
  hop_config :: relay_config
  hop_state :: relay_state
  hop_maps :: relay_maps

record leg =
  leg_magic :: bytes
  leg_src :: u32
  leg_sport :: u16
  leg_dst :: u32
  leg_dport :: u16

definition next_leg :: "hop \<Rightarrow> u32 \<times> u16 \<Rightarrow> leg" where
  "next_leg h to =
     \<lparr>leg_magic = current_magic (hop_state h), leg_src = relay_internal_address (hop_config h),
      leg_sport = relay_port (hop_config h), leg_dst = fst to, leg_dport = snd to\<rparr>"

text \<open>The frame carries, over that leg, a packet that was stamped for it.\<close>

definition on_leg :: "leg \<Rightarrow> bytes \<Rightarrow> (bytes \<Rightarrow> bytes \<Rightarrow> bytes \<Rightarrow> bytes) \<Rightarrow> bool" where
  "on_leg l f packet \<longleftrightarrow>
     length (leg_magic l) = 8 \<and>
     carries f (leg_src l) (leg_sport l) (leg_dst l) (leg_dport l)
       (packet (leg_magic l) (le_bytes 4 (leg_src l)) (le_bytes 4 (leg_dst l)))"

text \<open>What a relay needs to take the packet in and to pass it on.\<close>

definition hop_accepts :: "leg \<Rightarrow> u32 \<times> u16 \<Rightarrow> hop \<Rightarrow> bool" where
  "hop_accepts l to h \<longleftrightarrow>
     (let cfg = hop_config h; st = hop_state h; m = hop_maps h in
      stats_map m \<noteq> None \<and> config_map m = Some cfg \<and> state_map m = Some st \<and>
      leg_dst l \<in> {relay_public_address cfg, relay_internal_address cfg} \<and> relay_port cfg = leg_dport l \<and>
      leg_magic l \<in> {current_magic st, previous_magic st, next_magic st} \<and>
      wf_gateway (gateway_of cfg) \<and> wf_whitelist (whitelist_map m) \<and> length (current_magic st) = 8 \<and>
      whitelist_map m \<lparr>wl_address = leg_src l, wl_port = ucast (leg_sport l)\<rparr> \<noteq> None \<and>
      whitelist_map m \<lparr>wl_address = fst to, wl_port = ucast (snd to)\<rparr> \<noteq> None)"

fun path_ready :: "(nat \<Rightarrow> hop \<Rightarrow> bool) \<Rightarrow> (nat \<Rightarrow> hop \<Rightarrow> u32 \<times> u16) \<Rightarrow> nat \<Rightarrow> leg \<Rightarrow> hop list \<Rightarrow> bool" where
  "path_ready ready towards i l [] \<longleftrightarrow> True"
| "path_ready ready towards i l (h # hs) \<longleftrightarrow>
     ready i h \<and> hop_accepts l (towards i h) h \<and> path_ready ready towards (Suc i) (next_leg h (towards i h)) hs"

fun last_leg :: "(nat \<Rightarrow> hop \<Rightarrow> u32 \<times> u16) \<Rightarrow> nat \<Rightarrow> leg \<Rightarrow> hop list \<Rightarrow> leg" where
  "last_leg towards i l [] = l"
| "last_leg towards i l (h # hs) = last_leg towards (Suc i) (next_leg h (towards i h)) hs"

text \<open>Route requests.\<close>

definition request_ready :: "crypto \<Rightarrow> go_aead \<Rightarrow> (nat \<Rightarrow> bytes) \<Rightarrow> (nat \<Rightarrow> RouteToken) \<Rightarrow> route_node list \<Rightarrow> bytes \<Rightarrow> nat \<Rightarrow> hop \<Rightarrow> bool" where
  "request_ready cr aead nonces tok nodes td i h \<longleftrightarrow>
     same_aead cr aead \<and> Suc i < length nodes \<and> length nodes \<le> 13 \<and> 1 \<le> i \<and> length td = length nodes * 111 \<and>
     length (secretKey (nodes ! i)) = 32 \<and> length (nonces i) = 24 \<and> length (SessionPrivateKey (tok i)) = 32 \<and>
     window (i * 111) 111 td = nonces i @ Seal aead (secretKey (nodes ! i)) (nonces i) (WriteRouteToken (tok i)) \<and>
     take 32 (relay_secret_key (hop_config h)) = secretKey (nodes ! i) \<and>
     current_timestamp (hop_state h) \<le> ExpireTimestamp (tok i) \<and>
     session_map (hop_maps h) (token_session_key (relay_token (tok i))) = None"

definition token_hop :: "(nat \<Rightarrow> RouteToken) \<Rightarrow> nat \<Rightarrow> hop \<Rightarrow> u32 \<times> u16" where
  "token_hop tok i h = (net_address (NextAddress (tok i)), net_port (NextAddress (tok i)))"

definition opened :: "(nat \<Rightarrow> RouteToken) \<Rightarrow> nat \<Rightarrow> relay_maps \<Rightarrow> bool" where
  "opened tok i m \<longleftrightarrow>
     (\<exists>p. session_map m (token_session_key (relay_token (tok i))) = Some (session_of_token (relay_token (tok i)) p))"

text \<open>Packets of a session.\<close>

definition body_size_ok :: "u8 \<Rightarrow> bytes \<Rightarrow> bool" where
  "body_size_ok t rest \<longleftrightarrow>
     (if t = 2 \<or> t = 8 then rest = [] else if t = 5 \<or> t = 6 then length rest = 8 else length rest \<le> 1200)"

definition session_ready :: "crypto \<Rightarrow> u8 \<Rightarrow> u64 \<Rightarrow> u64 \<Rightarrow> u8 \<Rightarrow> bytes \<Rightarrow> bytes \<Rightarrow> nat \<Rightarrow> hop \<Rightarrow> bool" where
  "session_ready cr t q sid v key rest i h \<longleftrightarrow>
     sha_ok cr \<and> body_size_ok t rest \<and>
     (case handler_of t of None \<Rightarrow> False | Some hnd \<Rightarrow>
        (case session_map (hop_maps h) \<lparr>key_session_id = sid, key_session_version = ucast v\<rparr> of None \<Rightarrow> False | Some s \<Rightarrow>
           take 32 (session_private_key s) = take 32 key \<and> current_timestamp (hop_state h) \<le> expire_timestamp s \<and>
           get_sequence hnd s < q))"

definition session_hop :: "u8 \<Rightarrow> u64 \<Rightarrow> u8 \<Rightarrow> nat \<Rightarrow> hop \<Rightarrow> u32 \<times> u16" where
  "session_hop t sid v i h =
     (case handler_of t of None \<Rightarrow> (0, 0) | Some hnd \<Rightarrow>
        (case session_map (hop_maps h) \<lparr>key_session_id = sid, key_session_version = ucast v\<rparr> of None \<Rightarrow> (0, 0)
         | Some s \<Rightarrow> (hop_address hnd s, hop_port hnd s)))"

definition recorded :: "u8 \<Rightarrow> u64 \<Rightarrow> u64 \<Rightarrow> u8 \<Rightarrow> nat \<Rightarrow> relay_maps \<Rightarrow> bool" where
  "recorded t q sid v i m \<longleftrightarrow>
     (\<exists>hnd s. handler_of t = Some hnd \<and> session_map m \<lparr>key_session_id = sid, key_session_version = ucast v\<rparr> = Some s \<and>
        get_sequence hnd s = q)"

text \<open>The address under which a node of the route knows another: the internal one where both are in the same group of one seller.\<close>

definition node_address :: "route_node list \<Rightarrow> nat \<Rightarrow> nat \<Rightarrow> udp_addr" where
  "node_address nodes i j =
     (if use_internal (nodes ! i) (nodes ! j) then internalAddress (nodes ! j) else publicAddress (nodes ! j))"

definition node_hop :: "route_node list \<Rightarrow> nat \<Rightarrow> hop \<Rightarrow> u32 \<times> u16" where
  "node_hop nodes i h = (net_address (node_address nodes i (Suc i)), net_port (node_address nodes i (Suc i)))"

definition hop_prepared :: "u64 \<Rightarrow> u64 \<Rightarrow> u8 \<Rightarrow> route_node list \<Rightarrow> nat \<Rightarrow> hop \<Rightarrow> bool" where
  "hop_prepared expire sid version nodes i h \<longleftrightarrow>
     take 32 (relay_secret_key (hop_config h)) = secretKey (nodes ! i) \<and> current_timestamp (hop_state h) \<le> expire \<and>
     session_map (hop_maps h) \<lparr>key_session_id = sid, key_session_version = ucast version\<rparr> = None"

text \<open>The session that a relay of the route opens.\<close>

definition session_on_route :: "u64 \<Rightarrow> bytes \<Rightarrow> route_node list \<Rightarrow> nat \<Rightarrow> session_data \<Rightarrow> bool" where
  "session_on_route expire privateKey nodes i s \<longleftrightarrow>
     session_private_key s = privateKey \<and> expire_timestamp s = expire \<and>
     next_address s = net_address (node_address nodes i (Suc i)) \<and> next_port s = net_port (node_address nodes i (Suc i)) \<and>
     prev_address s = net_address (node_address nodes i (i - 1)) \<and>
     (net_port (node_address nodes i (i - 1)) \<noteq> 0 \<longrightarrow> prev_port s = net_port (node_address nodes i (i - 1)))"

definition example_seal :: go_aead where
  "example_seal =
     \<lparr>Seal = (\<lambda>key nonce m. m @ le_bytes 8 (relay_hash_string (nonce @ key)) @ replicate 8 0),
      Open = (\<lambda>key nonce c. xchacha20poly1305_decrypt example_crypto nonce key c)\<rparr>"

text \<open>A client, the relay of the examples and a server.\<close>

definition example_route :: "route_node list" where
  "example_route =
     [\<lparr>publicAddress = IPv4 [10, 0, 0, 2] 30000, hasInternalAddress = False, internalAddress = No_Addr, internalGroup = 0,
       seller = 0, secretKey = replicate 32 1\<rparr>,
      \<lparr>publicAddress = IPv4 [10, 0, 0, 1] 40000, hasInternalAddress = False, internalAddress = No_Addr, internalGroup = 0,
       seller = 1, secretKey = replicate 32 9\<rparr>,
      \<lparr>publicAddress = IPv4 [10, 0, 0, 3] 40000, hasInternalAddress = False, internalAddress = No_Addr, internalGroup = 0,
       seller = 0, secretKey = replicate 32 2\<rparr>]"

definition example_tokens :: bytes where
  "example_tokens = WriteRouteTokens example_seal (\<lambda>i. replicate 24 (of_nat i)) (replicate 32 5) 300 78 1 256 256 example_route
     (replicate 333 0)"

definition example_hop :: hop where
  "example_hop = \<lparr>hop_config = example_config, hop_state = example_state, hop_maps = example_maps\<rparr>"

definition example_leg :: leg where
  "example_leg = \<lparr>leg_magic = example_magic, leg_src = bswap32 0x0A000002, leg_sport = bswap16 30000,
     leg_dst = bswap32 0x0A000001, leg_dport = bswap16 40000\<rparr>"

definition leg_frame :: "(bytes \<Rightarrow> bytes \<Rightarrow> bytes \<Rightarrow> bytes) \<Rightarrow> bytes" where
  "leg_frame packet = synthetic_frame example_thread 0x0A000002 30000
     (packet example_magic (le_bytes 4 (leg_src example_leg)) (le_bytes 4 (leg_dst example_leg)))"

section \<open>A packet on its way\<close>

text \<open>A kind of packet that relays pass on: each hop that is ready turns the packet of its leg into the packet of the next.\<close>

locale relayed =
  fixes cr :: crypto
    and packet :: "nat \<Rightarrow> bytes \<Rightarrow> bytes \<Rightarrow> bytes \<Rightarrow> bytes"
    and ready :: "nat \<Rightarrow> hop \<Rightarrow> bool"
    and towards :: "nat \<Rightarrow> hop \<Rightarrow> u32 \<times> u16"
    and effect :: "nat \<Rightarrow> relay_maps \<Rightarrow> bool"
  assumes hop: "ready i h \<Longrightarrow> hop_accepts l (towards i h) h \<Longrightarrow> on_leg l f (packet i) \<Longrightarrow>
    \<exists>g m'. relay_xdp_filter cr f (hop_maps h) = (XDP_TX, g, m') \<and>
      on_leg (next_leg h (towards i h)) g (packet (Suc i)) \<and> effect i m'"
begin

lemma travels:
  assumes "delivers wire" "path_ready ready towards i l hops" "on_leg l f (packet i)"
  shows "\<exists>g ms. forward_along cr wire (map hop_maps hops) f = Some (g, ms) \<and> length ms = length hops \<and>
    on_leg (last_leg towards i l hops) g (packet (i + length hops)) \<and> (\<forall>j < length hops. effect (i + j) (ms ! j))"
  using assms(2,3)
proof (induction hops arbitrary: i l f)
  case Nil
  then show ?case by simp
next
  case (Cons h hs)
  let ?l = "next_leg h (towards i h)"
  obtain g m' where g: "relay_xdp_filter cr f (hop_maps h) = (XDP_TX, g, m')" "on_leg ?l g (packet (Suc i))" "effect i m'"
    using hop [of i h l f] Cons.prems by auto
  have "on_leg ?l (wire g) (packet (Suc i))" using assms(1) g(2) by (simp add: on_leg_def delivers_def)
  then obtain g' ms where ih: "forward_along cr wire (map hop_maps hs) (wire g) = Some (g', ms)" "length ms = length hs"
    "on_leg (last_leg towards (Suc i) ?l hs) g' (packet (Suc i + length hs))" "\<forall>j < length hs. effect (Suc i + j) (ms ! j)"
    using Cons.IH [of "Suc i" ?l "wire g"] Cons.prems(1) by auto
  have "effect (i + j) ((m' # ms) ! j)" if "j < length (h # hs)" for j
    using that g(3) ih(4) by (cases j) auto
  then show ?case using g(1) ih(1-3) by auto
qed

end

lemma accepted_packet:
  assumes "stats_map m \<noteq> None" "config_map m = Some cfg" "state_map m = Some st"
    and "dst \<in> {relay_public_address cfg, relay_internal_address cfg}" "relay_port cfg = dport"
    and "mg \<in> {current_magic st, previous_magic st, next_magic st}"
    and f: "carries f src sport dst dport (packet_data f)" "60 \<le> length f" "length f \<le> 1442"
    and "xdp_basic_packet_filter (packet_data f)" "relay_advanced_packet_filter (packet_data f) mg src dst (length f - 42)"
  shows "relay_xdp_filter cr f m = relay_process_packet cr cfg st f
    (ADD_COUNTER RELAY_COUNTER_BYTES_RECEIVED (of_nat (length f)) (INCREMENT_COUNTER RELAY_COUNTER_PACKETS_RECEIVED m))"
proof -
  have c: "ip_saddr f = src" "udp_source f = sport" "ip_daddr f = dst" "udp_dest f = dport" "eth_proto f = ETH_P_IP"
    "ip_protocol f = 17" "ip_ihl f = 5"
    using f(1) by (simp_all add: carries_def)
  have "advanced_filter_any cfg st f"
    using assms(4,6,11) c by (auto simp: advanced_filter_any_def Let_def)
  moreover have "to_relay cfg f" using assms(4,5) c by (auto simp: to_relay_def)
  ultimately show ?thesis
    using assms(1,2,3,10) f(2,3) c
    by (auto simp: relay_xdp_filter_def relay_filter_packet_def Let_def counter_maps)
qed

lemma stamped_frame:
  assumes "carries f src sport dst dport (next_stamp t body mg a b)"
  shows "length f = 60 + length body" "f ! 42 = t" "drop 60 f = body"
proof -
  have pd: "packet_data f = next_stamp t body mg a b" and l: "42 \<le> length f" using assms by (simp_all add: carries_def)
  show len: "length f = 60 + length body" using arg_cong [OF pd, of length] l by simp
  show "f ! 42 = t" using arg_cong [OF pd, of "\<lambda>p. p ! 0"] len by simp
  show "drop 60 f = body" using arg_cong [OF pd, of "drop 18"] by simp
qed

lemma accepted_leg:
  assumes "hop_accepts l to h" "on_leg l f (next_stamp t body)" "t \<noteq> 0" "t \<le> 0x0E" "length body \<le> 1382"
  defines "m \<equiv> ADD_COUNTER RELAY_COUNTER_BYTES_RECEIVED (of_nat (length f)) (INCREMENT_COUNTER RELAY_COUNTER_PACKETS_RECEIVED (hop_maps h))"
  shows "relay_xdp_filter cr f (hop_maps h) = relay_process_packet cr (hop_config h) (hop_state h) f m"
    "length f = 60 + length body" "f ! 42 = t" "drop 60 f = body" "whitelist_map m (source_key f) \<noteq> None"
    "eth_proto f = ETH_P_IP" "ip_protocol f = 17" "ip_ihl f = 5"
proof -
  let ?pd = "next_stamp t body (leg_magic l) (le_bytes 4 (leg_src l)) (le_bytes 4 (leg_dst l))"
  have c: "carries f (leg_src l) (leg_sport l) (leg_dst l) (leg_dport l) ?pd" and mg: "length (leg_magic l) = 8"
    using assms(2) by (simp_all add: on_leg_def)
  note len = stamped_frame [OF c]
  show "length f = 60 + length body" "f ! 42 = t" "drop 60 f = body" using len by simp_all
  have pd: "packet_data f = ?pd" using c by (simp add: carries_def)
  show "eth_proto f = ETH_P_IP" "ip_protocol f = 17" "ip_ihl f = 5" using c by (simp_all add: carries_def)
  show "whitelist_map m (source_key f) \<noteq> None"
    using assms(1) c by (simp add: hop_accepts_def Let_def source_key_def carries_def m_def counter_maps)
  have "xdp_basic_packet_filter ?pd" "relay_advanced_packet_filter ?pd (leg_magic l) (leg_src l) (leg_dst l) (length f - 42)"
    using next_stamp_passes [OF _ mg assms(3,4)] assms(5) len by simp_all
  then show "relay_xdp_filter cr f (hop_maps h) = relay_process_packet cr (hop_config h) (hop_state h) f m"
    using assms(1,5) c len unfolding m_def
    by (intro accepted_packet [of _ _ _ "leg_dst l" "leg_dport l" "leg_magic l" _ "leg_src l" "leg_sport l"])
       (simp_all add: hop_accepts_def Let_def pd)
qed

text \<open>What leaves the relay is on its next leg.\<close>

lemma ip_header_kept:
  assumes "window 12 4 g = window 12 4 f" "16 \<le> length g" "16 \<le> length f"
  shows "eth_proto g = eth_proto f" "ip_ihl g = ip_ihl f"
  using assms(2,3) arg_cong [OF assms(1), of "window 0 2"] arg_cong [OF assms(1), of "\<lambda>xs. xs ! 2"]
  by (simp_all add: load16_def window_window nth_window)

lemma redirected_on_leg:
  assumes "sealed (current_magic (hop_state h)) g" "length g < 65536" "length (current_magic (hop_state h)) = 8"
    and "ip_saddr g = relay_internal_address (hop_config h)" "udp_source g = relay_port (hop_config h)"
    and "ip_daddr g = fst to" "udp_dest g = snd to" "window 12 4 g = window 12 4 f" "g ! 23 = f ! 23"
    and "eth_proto f = ETH_P_IP" "ip_protocol f = 17" "ip_ihl f = 5" "42 \<le> length f"
  shows "on_leg (next_leg h to) g (next_stamp (g ! 42) (drop 60 g))"
proof -
  have "60 \<le> length g" using assms(1) by (simp add: sealed_def)
  moreover have "eth_proto g = ETH_P_IP" "ip_ihl g = 5"
    using assms(10,12,13) \<open>60 \<le> length g\<close> ip_header_kept [OF assms(8)] by simp_all
  ultimately show ?thesis
    using assms(4-7,9,11) sealed_is_stamp [OF assms(1-3)] by (simp add: on_leg_def next_leg_def carries_def assms(3))
qed

lemma token_slices:
  fixes nodes privateKey expire sid version up down
  assumes "same_aead cr aead" "\<forall>n \<in> set nodes. length (secretKey n) = 32" "\<forall>i. length (nonces i) = 24"
    and "length td0 = length nodes * 111"
  defines "td \<equiv> WriteRouteTokens aead nonces privateKey expire sid version up down nodes td0"
  shows "length td = length nodes * 111"
    and "i < length nodes \<Longrightarrow> window (i * 111) 111 td = nonces i @ Seal aead (secretKey (nodes ! i)) (nonces i)
      (WriteRouteToken (route_token_for expire sid version up down nodes privateKey i))"
proof -
  have k: "length (secretKey (nodes ! i)) = 32" if "i < length nodes" for i using assms(2) that by simp
  have e: "\<forall>i < length nodes. \<exists>t. WriteEncryptedRouteToken aead (nonces i)
      (route_token_for expire sid version up down nodes privateKey i) (secretKey (nodes ! i)) = Some t \<and> length t = 111"
    using sealed_route_token(1,2) [OF assms(1) k] assms(3) by auto
  note w = write_tokens_slices [OF e, of td0]
  show "length td = length nodes * 111" using w assms(4) by (simp add: td_def WriteRouteTokens_def)
  show "i < length nodes \<Longrightarrow> window (i * 111) 111 td = nonces i @ Seal aead (secretKey (nodes ! i)) (nonces i)
      (WriteRouteToken (route_token_for expire sid version up down nodes privateKey i))"
    using w assms(4) sealed_route_token(1) [OF assms(1) k [of i]] assms(3) by (simp add: td_def WriteRouteTokens_def)
qed

lemma request_hop:
  assumes r: "request_ready cr aead nonces tok nodes td i h" and acc: "hop_accepts l (token_hop tok i h) h"
    and f: "on_leg l f (next_write_route_request_packet (drop (i * 111) td))"
  shows "\<exists>g m'. relay_xdp_filter cr f (hop_maps h) = (XDP_TX, g, m') \<and>
    on_leg (next_leg h (token_hop tok i h)) g (next_write_route_request_packet (drop (Suc i * 111) td)) \<and> opened tok i m'"
proof -
  note r' = r [unfolded request_ready_def]
  let ?m = "ADD_COUNTER RELAY_COUNTER_BYTES_RECEIVED (of_nat (length f)) (INCREMENT_COUNTER RELAY_COUNTER_PACKETS_RECEIVED (hop_maps h))"
  have ld: "length (drop (i * 111) td) = (length nodes - i) * 111" using r' by (simp add: diff_mult_distrib)
  have "(length nodes - i) * 111 \<le> 12 * 111" "2 * 111 \<le> (length nodes - i) * 111"
    using r' by (intro mult_le_mono1, linarith)+
  then have ld': "length (drop (i * 111) td) \<le> 1382" "222 \<le> length (drop (i * 111) td)" using ld by simp_all
  note a = accepted_leg [OF acc f [unfolded next_write_route_request_packet_def] _ _ ld'(1), simplified]
  have len: "282 \<le> length f" using a(2) ld ld' by simp
  have "window 60 111 f = window 0 111 (drop 60 f)" by (simp add: window_drop)
  then have w: "window 60 111 f = nonces i @ Seal aead (secretKey (nodes ! i)) (nonces i) (WriteRouteToken (tok i))"
    using a(4) r' by (simp add: window_drop)
  have h: "wf_gateway (gateway_of (hop_config h))" "wf_whitelist (whitelist_map (hop_maps h))"
    "whitelist_map (hop_maps h) \<lparr>wl_address = net_address (NextAddress (tok i)), wl_port = ucast (net_port (NextAddress (tok i)))\<rparr> \<noteq> None"
    "length (current_magic (hop_state h)) = 8"
    using acc by (simp_all add: hop_accepts_def Let_def token_hop_def)
  have rq: "same_aead cr aead" "length (secretKey (nodes ! i)) = 32" "length (nonces i) = 24" "length (SessionPrivateKey (tok i)) = 32"
    "take 32 (relay_secret_key (hop_config h)) = secretKey (nodes ! i)"
    "current_timestamp (hop_state h) \<le> ExpireTimestamp (tok i)"
    "session_map (hop_maps h) (token_session_key (relay_token (tok i))) = None"
    using r' by blast+
  obtain g m' where g: "relay_route_request_packet cr (hop_config h) (hop_state h) f ?m = (XDP_TX, g, m')"
    "drop 60 g = drop 171 f" "length g = length f - 111" "sealed (current_magic (hop_state h)) g"
    "g ! 42 = RELAY_ROUTE_REQUEST_PACKET"
    "ip_saddr g = relay_internal_address (hop_config h)" "udp_source g = relay_port (hop_config h)"
    "ip_daddr g = net_address (NextAddress (tok i))" "udp_dest g = net_port (NextAddress (tok i))"
    "window 12 4 g = window 12 4 f" "g ! 23 = f ! 23"
    "session_map m' = (session_map ?m)(token_session_key (relay_token (tok i)) \<mapsto> session_of_token (relay_token (tok i)) (udp_source f))"
    by (rule hop_forwards [OF rq(1-4) len w rq(5) h(1), of ?m "hop_state h"]) (use h rq in \<open>simp_all add: counter_maps\<close>)
  have d: "drop 60 g = drop (Suc i * 111) td"
    using g(2) arg_cong [OF a(4), of "drop 111"] by (simp add: add.commute)
  have x: "relay_xdp_filter cr f (hop_maps h) = (XDP_TX, g, m')"
    using a(3,5) g(1) unfolding a(1) by (auto simp: relay_process_packet_def)
  have "on_leg (next_leg h (token_hop tok i h)) g (next_stamp (g ! 42) (drop 60 g))"
    by (rule redirected_on_leg [OF g(4) _ h(4) g(6,7) _ _ g(10,11) a(6,7,8)])
       (use g(3,8,9) a(2) len ld'(1) in \<open>simp_all add: token_hop_def\<close>)
  then show ?thesis using x d g(5,12) by (auto simp: next_write_route_request_packet_def opened_def)
qed

interpretation request: relayed cr "\<lambda>i. next_write_route_request_packet (drop (i * 111) td)"
    "request_ready cr aead nonces tok nodes td" "token_hop tok" "opened tok"
  for cr aead nonces tok nodes td
  by unfold_locales (rule request_hop)

lemma session_handler_runs:
  assumes "handler_of (f ! 42) = Some h" "body_size_ok (f ! 42) rest" "length f = 85 + length rest"
    and "whitelist_map m (source_key f) \<noteq> None"
  shows "\<exists>c. relay_process_packet cr cfg st f m = relay_session_packet cr cfg st h (length f - 42) f (INCREMENT_COUNTER c m)"
proof -
  obtain v where v: "whitelist_map m (source_key f) = Some v" using assms(4) by blast
  show ?thesis
    using assms(1-3) v
    by (auto simp: handler_of_def body_size_ok_def relay_process_packet_def relay_route_response_packet_def
        relay_continue_response_packet_def relay_client_to_server_packet_def relay_server_to_client_packet_def
        relay_session_ping_packet_def relay_session_pong_packet_def payload_too_big_def Let_def split: if_splits)
qed

lemma handler_type: "handler_of t = Some h \<Longrightarrow> t \<noteq> 0 \<and> t \<le> 0x0E"
  by (auto simp: handler_of_def split: if_splits)

lemma get_set_sequence: "handler_of t = Some h \<Longrightarrow> get_sequence h (set_sequence h q s) = q"
  by (auto simp: handler_of_def handler_defs split: if_splits)

lemma session_hop_forwards:
  assumes r: "session_ready cr t q sid v key rest i h" and acc: "hop_accepts l (session_hop t sid v i h) h"
    and f: "on_leg l f (next_stamp t (header_body cr t q sid v key rest))"
  shows "\<exists>g m'. relay_xdp_filter cr f (hop_maps h) = (XDP_TX, g, m') \<and>
    on_leg (next_leg h (session_hop t sid v i h)) g (next_stamp t (header_body cr t q sid v key rest)) \<and> recorded t q sid v i m'"
proof -
  let ?k = "\<lparr>key_session_id = sid, key_session_version = ucast v\<rparr>"
  obtain hnd s where hnd: "handler_of t = Some hnd" "session_map (hop_maps h) ?k = Some s"
    "take 32 (session_private_key s) = take 32 key" "current_timestamp (hop_state h) \<le> expire_timestamp s" "get_sequence hnd s < q"
    and sha: "sha_ok cr" and sz: "body_size_ok t rest"
    using r by (auto simp: session_ready_def split: option.splits)
  have to: "session_hop t sid v i h = (hop_address hnd s, hop_port hnd s)" using hnd by (simp add: session_hop_def)
  have lb: "length (header_body cr t q sid v key rest) = 25 + length rest" "25 + length rest \<le> 1382"
    using header_body_facts(1) [OF sha] sz by (auto simp: body_size_ok_def split: if_splits)
  have ty: "t \<noteq> 0" "t \<le> 0x0E" using handler_type [OF hnd(1)] by simp_all
  note a = accepted_leg [OF acc f ty, unfolded lb(1), OF lb(2)]
  let ?m = "ADD_COUNTER RELAY_COUNTER_BYTES_RECEIVED (of_nat (length f)) (INCREMENT_COUNTER RELAY_COUNTER_PACKETS_RECEIVED (hop_maps h))"
  obtain c where c: "relay_process_packet cr (hop_config h) (hop_state h) f ?m =
      relay_session_packet cr (hop_config h) (hop_state h) hnd (length f - 42) f (INCREMENT_COUNTER c ?m)"
    using session_handler_runs [of f hnd rest ?m cr "hop_config h" "hop_state h"] hnd(1) sz a(2,3,5) by auto
  note hf = header_in_frame [OF sha a(4,3)]
  have wf: "wf_gateway (gateway_of (hop_config h))" "wf_whitelist (whitelist_map (hop_maps h))"
    "whitelist_map (hop_maps h) \<lparr>wl_address = hop_address hnd s, wl_port = ucast (hop_port hnd s)\<rparr> \<noteq> None"
    "length (current_magic (hop_state h)) = 8"
    using acc to by (simp_all add: hop_accepts_def Let_def)
  let ?args = "forward_args (hop_config h) (hop_state h) (length f - 42) (hop_address hnd s) (hop_port hnd s)"
  obtain g where g: "relay_redirect_packet (whitelist_map (hop_maps h)) ?args f = (XDP_TX, g)"
    using redirect_drop_iff(2) [of "whitelist_map (hop_maps h)" ?args f] wf(3)
    by (cases "relay_redirect_packet (whitelist_map (hop_maps h)) ?args f") (auto simp: forward_args_def)
  have ok: "60 \<le> length f" "wf_gateway (gateway ?args)" "payload_bytes ?args = length f - 42"
    using a(2) wf(1) by (simp_all add: forward_args_def)
  note rf = redirect_frame [OF g ok(1) wf(2) ok(2,3)]
  define m' where "m' = out_maps (relay_xdp_filter cr f (hop_maps h))"
  have x: "relay_xdp_filter cr f (hop_maps h) = (XDP_TX, g, m')"
    and s: "session_map m' = (session_map (hop_maps h))(?k \<mapsto> set_sequence hnd q s)"
    using hnd(2,3) hf g leD [OF hnd(4)] leD [OF hnd(5) [THEN less_imp_le]] not_le [THEN iffD2, OF hnd(5)] unfolding m'_def a(1) c
    by (simp_all add: relay_session_packet_def counter_maps Let_def relay_simps)
  have "on_leg (next_leg h (session_hop t sid v i h)) g (next_stamp (g ! 42) (drop 60 g))"
    by (rule redirected_on_leg [OF rf(1) [simplified forward_args_def, simplified] _ wf(4) _ _ _ _ rf(9,10) a(6,7,8)])
       (use rf(2-6) a(2) lb(2) to in \<open>simp_all add: forward_args_def\<close>)
  then show ?thesis using x rf(7,8) a(3,4) s hnd(1) by (auto simp: recorded_def get_set_sequence)
qed

interpretation session: relayed cr "\<lambda>i. next_stamp t (header_body cr t q sid v key rest)"
    "session_ready cr t q sid v key rest" "session_hop t sid v" "recorded t q sid v"
  for cr t q sid v key rest
  by unfold_locales (rule session_hop_forwards)

lemma path_ready_mono:
  assumes "path_ready A towards i l hops" "\<And>j h. j < length hops \<Longrightarrow> A (i + j) h \<Longrightarrow> B (i + j) h"
  shows "path_ready B towards i l hops"
  using assms
proof (induction hops arbitrary: i l)
  case (Cons h hs)
  have "path_ready B towards (Suc i) (next_leg h (towards i h)) hs"
    using Cons.prems(1) Cons.prems(2) [of "Suc _"] by (intro Cons.IH) auto
  then show ?case using Cons.prems(1) Cons.prems(2) [of 0] by simp
qed simp

lemma path_towards_cong:
  assumes "\<And>j h. j < length hops \<Longrightarrow> towards (i + j) h = towards' (i + j) h"
  shows "path_ready A towards i l hops = path_ready A towards' i l hops" "last_leg towards i l hops = last_leg towards' i l hops"
proof -
  have "path_ready A towards i l hops = path_ready A towards' i l hops \<and> last_leg towards i l hops = last_leg towards' i l hops"
    using assms
  proof (induction hops arbitrary: i l)
    case (Cons h hs)
    show ?case using Cons.IH [of "Suc i" "next_leg h (towards i h)"] Cons.prems [of 0] Cons.prems [of "Suc _"] by simp
  qed simp
  then show "path_ready A towards i l hops = path_ready A towards' i l hops" "last_leg towards i l hops = last_leg towards' i l hops"
    by simp_all
qed

lemma token_for_node:
  fixes expire sid version up down nodes privateKey
  defines "tok \<equiv> route_token_for expire sid version up down nodes privateKey"
  shows "ExpireTimestamp (tok i) = expire" "SessionId (tok i) = sid" "SessionVersion (tok i) = version"
    "SessionPrivateKey (tok i) = privateKey"
    "token_session_key (relay_token (tok i)) = \<lparr>key_session_id = sid, key_session_version = ucast version\<rparr>"
    "Suc i < length nodes \<Longrightarrow> NextAddress (tok i) = node_address nodes i (Suc i)"
    "Suc i < length nodes \<Longrightarrow> token_hop tok i h = node_hop nodes i h"
    "0 < i \<Longrightarrow> PrevAddress (tok i) = node_address nodes i (i - 1)"
  unfolding tok_def
  by (auto simp: route_token_for_def Let_def node_address_def token_session_key_def relay_token_def token_hop_def node_hop_def)

lemma opened_on_route:
  assumes "opened (route_token_for expire sid version up down nodes privateKey) i m" "0 < i" "Suc i < length nodes"
  shows "\<exists>s. session_map m \<lparr>key_session_id = sid, key_session_version = ucast version\<rparr> = Some s \<and>
    session_on_route expire privateKey nodes i s"
proof -
  let ?tok = "route_token_for expire sid version up down nodes privateKey"
  obtain p where p: "session_map m (token_session_key (relay_token (?tok i))) = Some (session_of_token (relay_token (?tok i)) p)"
    using assms(1) by (auto simp: opened_def)
  have "session_on_route expire privateKey nodes i (session_of_token (relay_token (?tok i)) p)"
    using assms(2,3) by (simp add: session_on_route_def session_of_token_def relay_token_def token_for_node)
  then show ?thesis using p by (auto simp: token_for_node(5))
qed

lemma ends_open_tokens:
  fixes nodes privateKey expire sid version up down
  defines "n \<equiv> length nodes" and "tok \<equiv> route_token_for expire sid version up down nodes privateKey"
  assumes "same_aead cr aead" "\<forall>node \<in> set nodes. length (secretKey node) = 32" "\<forall>i. length (nonces i) = 24"
    and "length privateKey = 32" "2 \<le> n" "length buffer = n * 111"
    and "tokens = WriteRouteTokens aead nonces privateKey expire sid version up down nodes buffer"
  shows "next_read_encrypted_route_token cr tokens (secretKey (hd nodes)) = Some (sdk_token (tok 0), drop 111 tokens)"
    "next_read_encrypted_route_token cr (drop ((n - 1) * 111) tokens) (secretKey (last nodes)) = Some (sdk_token (tok (n - 1)), [])"
proof -
  note ts = token_slices [OF assms(3-5), of buffer, folded n_def, OF assms(8), where privateKey = privateKey and expire = expire
      and sid = sid and version = version and up = up and down = down, folded assms(9) tok_def]
  have pk: "length (SessionPrivateKey (tok i)) = 32" for i using assms(6) by (simp add: tok_def token_for_node)
  have sk: "length (secretKey (nodes ! i)) = 32" if "i < n" for i using assms(4) that by (simp add: n_def)
  have "nodes \<noteq> []" using assms(7) by (auto simp: n_def)
  then have ends: "hd nodes = nodes ! 0" "last nodes = nodes ! (n - 1)" by (simp_all add: hd_conv_nth last_conv_nth n_def)
  show "next_read_encrypted_route_token cr tokens (secretKey (hd nodes)) = Some (sdk_token (tok 0), drop 111 tokens)"
    using ts(2) [of 0] sk [of 0] pk assms(3,5,7) unfolding ends by (intro sdk_opens_token [of cr aead _ "nonces 0"]) simp_all
  have "(n - 1) * 111 + 111 = n * 111" using assms(7) by (simp add: diff_mult_distrib)
  then have "window 0 111 (drop ((n - 1) * 111) tokens) = window ((n - 1) * 111) 111 tokens"
      "drop 111 (drop ((n - 1) * 111) tokens) = []" using ts(1) by (simp_all add: window_drop add.commute)
  then show "next_read_encrypted_route_token cr (drop ((n - 1) * 111) tokens) (secretKey (last nodes)) = Some (sdk_token (tok (n - 1)), [])"
    using ts(2) [of "n - 1"] sk [of "n - 1"] pk assms(3,5,7) sdk_opens_token [of cr aead _ "nonces (n - 1)" "tok (n - 1)"]
    unfolding ends by simp
qed

text \<open>
  C6. A route comes up. The backend writes the tokens of a route; the client opens its own and sends the rest as a route
  request to the first relay. If each relay of the route holds its secret key, accepts packets from its neighbours on the route and sees an
  unexpired token, each opens the session with the route's private key and with its two neighbours as previous and
  next hop, and passes the request on with its own token removed, addressed to the next node; the
  server receives the last token, opens it with its key and finds the same session and private key.
\<close>

theorem route_request_reaches_server:
  fixes nodes privateKey expire sid version up down
  defines "n \<equiv> length nodes"
  assumes "same_aead cr aead" "\<forall>node \<in> set nodes. length (secretKey node) = 32" "\<forall>i. length (nonces i) = 24"
    and "length privateKey = 32" "2 \<le> n" "n \<le> 13" "length buffer = n * 111" "delivers wire"
    and "tokens = WriteRouteTokens aead nonces privateKey expire sid version up down nodes buffer"
    and "length hops = n - 2" "path_ready (hop_prepared expire sid version nodes) (node_hop nodes) 1 l hops"
    and "on_leg l f (next_write_route_request_packet (drop 111 tokens))"
  shows "(\<exists>t. next_read_encrypted_route_token cr tokens (secretKey (hd nodes)) = Some (t, drop 111 tokens) \<and>
       token_session_id t = sid \<and> token_session_version t = version \<and> token_private_key t = privateKey \<and>
       token_next_address t = net_address (node_address nodes 0 1)) \<and>
    (\<exists>g ms t. forward_along cr wire (map hop_maps hops) f = Some (g, ms) \<and> length ms = length hops \<and>
       (\<forall>j < length hops. \<exists>s. session_map (ms ! j) \<lparr>key_session_id = sid, key_session_version = ucast version\<rparr> = Some s \<and>
          session_on_route expire privateKey nodes (Suc j) s) \<and>
       on_leg (last_leg (node_hop nodes) 1 l hops) g (next_write_route_request_packet (drop ((n - 1) * 111) tokens)) \<and>
       next_read_encrypted_route_token cr (drop ((n - 1) * 111) tokens) (secretKey (last nodes)) = Some (t, []) \<and>
       token_session_id t = sid \<and> token_session_version t = version \<and> token_private_key t = privateKey)"
proof -
  let ?tok = "route_token_for expire sid version up down nodes privateKey"
  note ts = token_slices [OF assms(2-4), of buffer, folded n_def, OF assms(8), where privateKey = privateKey and expire = expire
      and sid = sid and version = version and up = up and down = down, folded assms(10)]
  note tn = token_for_node [where expire = expire and sid = sid and version = version and up = up and down = down and nodes = nodes and privateKey = privateKey]
  have pk: "length (SessionPrivateKey (?tok i)) = 32" for i using assms(5) by (simp add: tn)
  have sk: "length (secretKey (nodes ! i)) = 32" if "i < n" for i using assms(3) that by (simp add: n_def)
  note ends = ends_open_tokens [OF assms(2-5) assms(6,8) [unfolded n_def] assms(10), folded n_def]
  have tw: "node_hop nodes (1 + j) h = token_hop ?tok (1 + j) h" if "j < length hops" for j h
    using that assms(11) tn(7) [of "1 + j"] by (simp add: n_def)
  have "path_ready (hop_prepared expire sid version nodes) (token_hop ?tok) 1 l hops"
    using assms(12) path_towards_cong(1) [of hops "node_hop nodes" 1 "token_hop ?tok"] tw by simp
  then have "path_ready (request_ready cr aead nonces ?tok nodes tokens) (token_hop ?tok) 1 l hops"
  proof (rule path_ready_mono)
    fix j h assume "j < length hops" "hop_prepared expire sid version nodes (1 + j) h"
    then show "request_ready cr aead nonces ?tok nodes tokens (1 + j) h"
      using assms(2,4,7,11) ts(1) ts(2) [of "1 + j"] sk [of "1 + j"] pk
      by (simp add: request_ready_def hop_prepared_def n_def tn(1,5))
  qed
  moreover have "on_leg l f (next_write_route_request_packet (drop (1 * 111) tokens))" using assms(13) by simp
  ultimately obtain g ms where g: "forward_along cr wire (map hop_maps hops) f = Some (g, ms)" "length ms = length hops"
      "on_leg (last_leg (token_hop ?tok) 1 l hops) g (next_write_route_request_packet (drop ((1 + length hops) * 111) tokens))"
      "\<forall>j < length hops. opened ?tok (1 + j) (ms ! j)"
    using request.travels [OF assms(9)] by blast
  have s: "\<exists>s. session_map (ms ! j) \<lparr>key_session_id = sid, key_session_version = ucast version\<rparr> = Some s \<and>
      session_on_route expire privateKey nodes (Suc j) s" if "j < length hops" for j
    using that g(4) assms(11) by (intro opened_on_route [of expire sid version up down nodes privateKey]) (simp_all add: n_def)
  have "1 + length hops = n - 1" using assms(6,11) by simp
  moreover have "last_leg (token_hop ?tok) 1 l hops = last_leg (node_hop nodes) 1 l hops"
    using path_towards_cong(2) [of hops "token_hop ?tok" 1 "node_hop nodes"] tw by simp
  moreover have "NextAddress (?tok 0) = node_address nodes 0 1" using tn(6) [of 0] assms(6) by (simp add: n_def)
  ultimately show ?thesis using ends g(1-3) s by (auto simp: sdk_token_def tn(2-4))
qed

text \<open>
  C7. A game packet reaches the server. What the SDK client writes passes every relay of the route that has the session with the
  same key, unexpired and with an older sequence number, and arrives as the same packet stamped for the last leg; each
  relay has recorded its sequence number, and the server's \<open>next_read_header\<close> accepts the header and finds the payload behind it.
\<close>

theorem game_packet_reaches_server:
  assumes "delivers wire" "sha_ok cr" "length game \<le> 1200"
    and "path_ready (session_ready cr 3 q sid v key game) (session_hop 3 sid v) 1 l hops"
    and "on_leg l f (next_write_client_to_server_packet cr q sid v key game)"
  shows "\<exists>g ms. forward_along cr wire (map hop_maps hops) f = Some (g, ms) \<and> length ms = length hops \<and>
    (\<forall>j < length hops. recorded 3 q sid v (Suc j) (ms ! j)) \<and>
    on_leg (last_leg (session_hop 3 sid v) 1 l hops) g (next_write_client_to_server_packet cr q sid v key game) \<and>
    next_read_header cr 3 key (drop 60 g) = Some (q, sid, v) \<and> drop (60 + 25) g = game"
proof -
  obtain g ms where g: "forward_along cr wire (map hop_maps hops) f = Some (g, ms)" "length ms = length hops"
    "\<forall>j < length hops. recorded 3 q sid v (1 + j) (ms ! j)"
    "on_leg (last_leg (session_hop 3 sid v) 1 l hops) g (next_stamp 3 (header_body cr 3 q sid v key game))"
    using session.travels [OF assms(1,4), of f] assms(5) by (auto simp: next_write_client_to_server_packet_def)
  have d: "drop 60 g = header_body cr 3 q sid v key game"
  proof -
    obtain mg a b where "packet_data g = next_stamp 3 (header_body cr 3 q sid v key game) mg a b"
      using g(4) by (auto simp: on_leg_def carries_def)
    then show ?thesis using next_stamp_facts(3) drop_drop [of 18 42 g] by simp
  qed
  have "drop (60 + 25) g = drop 25 (drop 60 g)" by simp
  then have "drop (60 + 25) g = game" using d header_body_facts(5) [OF assms(2)] by simp
  then show ?thesis
    using g d next_read_header_written [OF assms(2), of key key 3 q sid v game]
    by (auto simp: next_write_client_to_server_packet_def)
qed

lemma example_same_aead: "same_aead example_crypto example_seal"
  by (simp add: same_aead_def example_crypto_def example_seal_def)

lemma leg_frame_on_leg: "on_leg example_leg (leg_frame packet) packet"
  using synthetic_carries [of example_thread "0x0A000002" 30000]
  by (simp add: on_leg_def leg_frame_def example_leg_def example_thread_def example_magic_def)

lemma net_address_examples:
  "net_address (IPv4 [10, 0, 0, 3] 40000) = bswap32 0x0A000003" "net_address (IPv4 [10, 0, 0, 1] 40000) = bswap32 0x0A000001"
  by code_simp+

lemma delivers_id: "delivers (\<lambda>g. g)"
  by (simp add: delivers_def)

lemma example_accepts:
  "hop_accepts example_leg (bswap32 0x0A000003, bswap16 40000) example_hop"
  by (simp add: hop_accepts_def example_leg_def example_hop_def example_maps_def example_config_def example_state_def
      example_magic_def wf_gateway_def gateway_of_def wf_whitelist_def example_whitelist_def)

theorem game_packet_reaches_server_witness:
  "\<exists>g ms. forward_along example_crypto (\<lambda>g. g) [example_maps]
      (leg_frame (next_write_client_to_server_packet example_crypto 5 77 1 (replicate 32 5) [0xAB, 0xCD])) = Some (g, ms) \<and>
    drop 85 g = [0xAB, 0xCD]"
proof -
  have h: "handler_of 3 = Some client_to_server_handler" by (simp add: handler_of_def)
  have s: "session_map example_maps \<lparr>key_session_id = 77, key_session_version = 1\<rparr> = Some example_session"
    by (simp add: example_maps_def)
  have "path_ready (session_ready example_crypto 3 5 77 1 (replicate 32 5) [0xAB, 0xCD]) (session_hop 3 77 1) 1 example_leg [example_hop]"
    using example_accepts example_sha h s
    by (simp add: session_ready_def session_hop_def body_size_ok_def example_hop_def hop_address_def hop_port_def
        client_to_server_handler_def example_session_def example_state_def)
  then show ?thesis
    using game_packet_reaches_server [OF delivers_id example_sha _ _ leg_frame_on_leg, of "[0xAB, 0xCD]" 5 77 1 "replicate 32 5" "[example_hop]"]
    by (auto simp: example_hop_def)
qed

theorem route_request_reaches_server_witness:
  "\<exists>g ms. forward_along example_crypto (\<lambda>g. g) [example_maps]
      (leg_frame (next_write_route_request_packet (drop 111 example_tokens))) = Some (g, ms) \<and> length ms = 1"
proof -
  have n: "length example_route = 3" "\<forall>node \<in> set example_route. length (secretKey node) = 32" by (simp_all add: example_route_def)
  have "path_ready (hop_prepared 300 78 1 example_route) (node_hop example_route) 1 example_leg [example_hop]"
    using example_accepts
    by (simp add: hop_prepared_def node_hop_def node_address_def use_internal_def net_address_examples net_port_def example_hop_def
        example_config_def example_route_def example_state_def example_maps_def)
  then show ?thesis
    using route_request_reaches_server [where nonces = "\<lambda>i. replicate 24 (of_nat i)" and privateKey = "replicate 32 5"
        and buffer = "replicate 333 0" and wire = "\<lambda>g. g" and hops = "[example_hop]" and expire = 300 and sid = 78 and version = 1
        and up = 256 and down = 256 and nodes = example_route and l = example_leg and tokens = example_tokens,
        OF example_same_aead n(2) _ _ _ _ _ delivers_id example_tokens_def _ _ leg_frame_on_leg] n(1)
    by (auto simp: example_hop_def)
qed

section \<open>Ping tokens\<close>

lemma bswap16_zero: "bswap16 0 = 0"
  by (simp add: bswap16_def le_bytes_explicit)

lemma ping_token_of_backend:
  assumes "take 32 (ping_key st) = take 32 key" "32 \<le> length key"
    and "src = net_address from_addr" "dst = net_address to_addr" "sport = net_port from_addr" "dport = net_port to_addr"
  shows "ping_token_matches cr (ping_data st expire src sport dst dport) (GeneratePingToken cr expire from_addr to_addr key)"
proof -
  have "copy_into 32 key = take 32 key" using assms(2) by (simp add: copy_into_def)
  then show ?thesis
    using assms by (simp add: ping_token_matches_def GeneratePingToken_def ping_token_bytes_def ping_data_def le_bytes_net_address
        PutUint16_BE_eq net_port_def)
qed

lemma carries_self:
  "carries f src sport dst dport pd \<Longrightarrow> carries f (ip_saddr f) (udp_source f) (ip_daddr f) (udp_dest f) (packet_data f)"
  by (simp add: carries_def)

lemma pong_reply_carries:
  assumes "wf_gateway (gateway_of cfg)" "length (current_magic st) = 8"
    and f: "carries f (ip_saddr f) (udp_source f) (ip_daddr f) (udp_dest f) (packet_data f)"
    and "length f = 42 + n + trim" "18 \<le> n" "t \<noteq> 0" "t \<le> 0x0E" "length f < 65536"
  shows "carries (out_frame (reply_with_pong cfg st t n trim c f m)) (ip_daddr f) (udp_dest f) (ip_saddr f) (udp_source f)
    (next_stamp t (window 60 (n - 18) f) (current_magic st) (le_bytes 4 (ip_daddr f)) (le_bytes 4 (ip_saddr f)))"
proof -
  let ?g = "out_frame (reply_with_pong cfg st t n trim c f m)"
  note g = reply_frame [OF assms(1,4-7), of st c m]
  have "drop 60 ?g = window 60 (n - 18) ?g" using g(2) assms(5) by (simp add: window_def)
  then have "packet_data ?g = next_stamp t (window 60 (n - 18) f) (current_magic st) (le_bytes 4 (ip_daddr f)) (le_bytes 4 (ip_saddr f))"
    using sealed_is_stamp [of "current_magic st" ?g] g assms(2,4,8) by (simp add: sendable_def)
  moreover have "eth_proto ?g = ETH_P_IP" "ip_protocol ?g = 17" "ip_ihl ?g = 5"
    using g(1,2) f assms(4,5) ip_header_kept [of ?g f] by (simp_all add: sendable_def carries_def)
  ultimately show ?thesis using g by (simp add: carries_def)
qed

text \<open>
  C8. A client's ping is answered. With the ping token the backend made for the client's address (without its port) and the
  relay's, the ping the SDK writes is accepted until the token expires: the relay replies with the very pong packet the SDK's own
  writer makes for that sequence number and session, to the client, and the client's address is whitelisted.
\<close>

theorem client_pings_are_answered:
  assumes "sha_ok cr" "stats_map m \<noteq> None" "config_map m = Some cfg" "state_map m = Some st"
    and "wf_gateway (gateway_of cfg)" "length (current_magic st) = 8" "length mg = 8"
    and "mg \<in> {current_magic st, previous_magic st, next_magic st}" "current_timestamp st \<le> expire"
    and "length client = 4" "length relay = 4" "relay_public_address cfg = le_word relay" "relay_port cfg = bswap16 p"
    and "32 \<le> length key" "take 32 (ping_key st) = take 32 key"
    and "token = GeneratePingToken cr expire (IPv4 client 0) (IPv4 relay p) key"
    and f: "carries f (le_word client) sport (le_word relay) (bswap16 p)
      (next_write_client_ping_packet token sq sid expire mg client relay)"
  shows "\<exists>g m'. relay_xdp_filter cr f m = (XDP_TX, g, m') \<and> whitelist_map m' (source_key f) \<noteq> None \<and>
    carries g (le_word relay) (bswap16 p) (le_word client) sport (next_write_client_pong_packet sq sid (current_magic st) relay client)"
proof -
  let ?body = "le_bytes 8 sq @ le_bytes 8 sid @ le_bytes 8 expire @ take 32 token"
  have a: "le_bytes 4 (le_word client :: u32) = client" "le_bytes 4 (le_word relay :: u32) = relay"
    using assms(10,11) by (simp_all add: codec_simps)
  have tl: "length token = 32" using assms(1,16) by (simp add: GeneratePingToken_def sha_ok_def)
  have pd: "packet_data f = next_stamp 9 ?body mg client relay"
    using f by (simp add: carries_def next_write_client_ping_packet_def)
  have "carries f (le_word client) sport (le_word relay) (bswap16 p) (next_stamp 9 ?body mg client relay)"
    using f by (simp add: next_write_client_ping_packet_def)
  note sf = stamped_frame [OF this]
  have len: "length f = 116" and ty: "f ! 42 = 9" and d: "drop 60 f = ?body" using sf tl by simp_all
  have e: "load64 76 f = expire" "window 84 32 f = token" "window 60 16 f = le_bytes 8 sq @ le_bytes 8 sid"
    using arg_cong [OF d, of "window 16 8"] arg_cong [OF d, of "window 24 32"] arg_cong [OF d, of "window 0 16"] tl
    by (simp_all add: window_drop load64_def) (simp_all add: window_def codec_simps)
  let ?m = "ADD_COUNTER RELAY_COUNTER_BYTES_RECEIVED (of_nat (length f)) (INCREMENT_COUNTER RELAY_COUNTER_PACKETS_RECEIVED m)"
  let ?m1 = "INCREMENT_COUNTER RELAY_COUNTER_CLIENT_PING_PACKET_RECEIVED ?m"
  let ?r = "reply_with_pong cfg st RELAY_CLIENT_PONG_PACKET 34 40 RELAY_COUNTER_CLIENT_PING_PACKET_RESPONDED_WITH_PONG f ?m1"
  have c: "ip_saddr f = le_word client" "ip_daddr f = le_word relay" "udp_source f = sport" "udp_dest f = bswap16 p"
    "eth_proto f = ETH_P_IP" "ip_protocol f = 17" "ip_ihl f = 5"
    using f by (simp_all add: carries_def)
  have v: "ping_token_matches cr (ping_data st expire (ip_saddr f) 0 (relay_public_address cfg) (udp_dest f)) (window 84 32 f)"
    unfolding e(2) assms(16)
    by (rule ping_token_of_backend) (use assms(10-15) c in \<open>simp_all add: net_address_def net_port_def bswap16_zero\<close>)
  have "relay_xdp_filter cr f m = relay_process_packet cr cfg st f ?m"
    using assms(2-4,7,8,12,13) len tl f pd next_stamp_passes [of ?body mg 9 "le_word client" "le_word relay", unfolded a]
    by (intro accepted_packet [of _ _ _ "le_word relay" "bswap16 p" mg _ "le_word client" sport]) (simp_all add: carries_def)
  then have x: "relay_xdp_filter cr f m = ?r"
    using ty len v e(1) leD [OF assms(9)]
    by (simp add: relay_process_packet_def relay_client_ping_packet_def Let_def)
  have "carries (out_frame ?r) (le_word relay) (bswap16 p) (le_word client) sport
      (next_stamp 10 (window 60 16 f) (current_magic st) (le_bytes 4 (le_word relay :: u32)) (le_bytes 4 (le_word client :: u32)))"
    using pong_reply_carries [OF assms(5,6) carries_self [OF f], of 34 40 10 RELAY_COUNTER_CLIENT_PING_PACKET_RESPONDED_WITH_PONG ?m1] len c
    by simp
  then have "carries (out_frame ?r) (le_word relay) (bswap16 p) (le_word client) sport
      (next_write_client_pong_packet sq sid (current_magic st) relay client)"
    by (simp add: a e(3) next_write_client_pong_packet_def)
  moreover have "whitelist_map (out_maps ?r) (source_key f) \<noteq> None"
    by (simp add: relay_simps whitelist_insert_def map_update_def split: option.split)
  moreover have "verdict ?r = XDP_TX" by (simp add: relay_simps)
  ultimately show ?thesis unfolding x by (intro exI [of _ "out_frame ?r"] exI [of _ "out_maps ?r"]) (simp add: prod_eq_iff)
qed

theorem client_pings_are_answered_witness:
  "\<exists>g m'. relay_xdp_filter example_crypto
       (leg_frame (next_write_client_ping_packet
          (GeneratePingToken example_crypto 130 (IPv4 [10, 0, 0, 2] 0) (IPv4 [10, 0, 0, 1] 40000) (replicate 32 7)) 6 77 130))
       (example_maps\<lparr>whitelist_map := \<lambda>_. None\<rparr>) = (XDP_TX, g, m') \<and> udp_dest g = bswap16 30000"
proof -
  let ?tok = "GeneratePingToken example_crypto 130 (IPv4 [10, 0, 0, 2] 0) (IPv4 [10, 0, 0, 1] 40000) (replicate 32 7)"
  have le: "le_word [10, 0, 0, 2] = bswap32 0x0A000002" "le_word [10, 0, 0, 1] = bswap32 0x0A000001"
    "le_bytes 4 (bswap32 0x0A000002) = [10, 0, 0, 2]" "le_bytes 4 (bswap32 0x0A000001) = [10, 0, 0, 1]"
    "bswap32 0x0A000002 = 33554442" "bswap32 0x0A000001 = 16777226"
    "le_bytes 4 (33554442 :: u32) = [10, 0, 0, 2]" "le_bytes 4 (16777226 :: u32) = [10, 0, 0, 1]"
    by code_simp+
  have c: "carries (leg_frame (next_write_client_ping_packet ?tok 6 77 130)) (le_word [10, 0, 0, 2]) (bswap16 30000)
      (le_word [10, 0, 0, 1]) (bswap16 40000) (next_write_client_ping_packet ?tok 6 77 130 example_magic [10, 0, 0, 2] [10, 0, 0, 1])"
    using leg_frame_on_leg [of "next_write_client_ping_packet ?tok 6 77 130"] by (simp add: on_leg_def example_leg_def le)
  show ?thesis
    using client_pings_are_answered [OF example_sha _ _ _ _ _ _ _ _ _ _ _ _ _ _ refl c, of "example_maps\<lparr>whitelist_map := \<lambda>_. None\<rparr>"
        example_config example_state]
    by (simp add: example_maps_def example_config_def example_state_def example_magic_def wf_gateway_def gateway_of_def le carries_def)
      blast
qed

section \<open>The backend's packet filter\<close>

text \<open>
  C17. The packet filter of the Go backend and that of the SDK decide alike: for IPv4 addresses, an eight byte magic value and
  packets of 18 to 65535 bytes whose type is not the passthrough type, \<open>AdvancedPacketFilter\<close> accepts exactly what
  \<open>next_advanced_packet_filter\<close> accepts, and \<open>BasicPacketFilter\<close> exactly those packets that
  \<open>next_basic_packet_filter\<close> accepts and whose type is one of the backend's, 50 to 60.
\<close>

theorem backend_filter_equals_sdk_filter:
  assumes "length from_address = 4" "length to_address = 4" "length mg = 8" "18 \<le> k" "k < 65536" "data ! 0 \<noteq> 0" "18 \<le> length data"
  shows "AdvancedPacketFilter data mg from_address to_address (int k) =
      next_advanced_packet_filter data mg from_address to_address (of_nat k) \<and>
    (BasicPacketFilter data (int k) \<longleftrightarrow> 0x32 \<le> data ! 0 \<and> data ! 0 \<le> 0x3C \<and> next_basic_packet_filter data (of_nat k))"
proof -
  have "\<not> (word_of_nat k :: u16) < 18" using assms by (simp add: word_less_nat_alt unsigned_of_nat take_bit_eq_mod)
  then show ?thesis
    using assms BasicPacketFilter_eq [OF assms(4,5)]
    by (auto simp: AdvancedPacketFilter_def next_advanced_packet_filter_def GeneratePittle_eq GenerateChonkle_eq Let_def)
qed

theorem backend_filter_equals_sdk_filter_witness:
  "AdvancedPacketFilter (next_stamp 50 [] example_magic [10, 0, 0, 2] [10, 0, 0, 1]) example_magic [10, 0, 0, 2] [10, 0, 0, 1] 18 \<and>
   \<not> AdvancedPacketFilter (replicate 18 1) example_magic [10, 0, 0, 2] [10, 0, 0, 1] 18"
proof -
  let ?d = "next_stamp 50 [] example_magic [10, 0, 0, 2] [10, 0, 0, 1]"
  have w: "window 1 2 ?d = next_generate_pittle [10, 0, 0, 2] [10, 0, 0, 1] 18"
    "window 3 15 ?d = next_generate_chonkle example_magic [10, 0, 0, 2] [10, 0, 0, 1] 18"
    by (simp_all add: next_stamp_def window_def Let_def)
  have n: "\<not> next_advanced_packet_filter (replicate 18 1) example_magic [10, 0, 0, 2] [10, 0, 0, 1] 18" by code_simp
  show ?thesis
    using backend_filter_equals_sdk_filter [of "[10, 0, 0, 2]" "[10, 0, 0, 1]" example_magic 18 ?d] w n
      backend_filter_equals_sdk_filter [of "[10, 0, 0, 2]" "[10, 0, 0, 1]" example_magic 18 "replicate 18 1"]
    by (simp add: example_magic_def next_advanced_packet_filter_def)
qed

end
