(* ===== verification/Core_Routes.thy ===== *)
theory Core_Routes
  imports Next_Prelude "HOL-Library.Multiset"
begin

text \<open>
  The route optimizer of the backend, \<open>modules/core/core.go\<close>: the triangular matrix of link costs, the table of the sixteen
  cheapest routes of a pair of relays (\<open>AddRoute\<close>) and \<open>Optimize\<close>, which fills it from the indirect routes over one relay and their
  subdivisions. The lemmas show that the table stays sorted and free of duplicates, that the selection of the eight cheapest indirect
  routes is a stable sort cut to eight, and that the costs in a route entry are exact sums of links.
\<close>

section \<open>Definitions\<close>

text \<open>\<open>modules/core/core.go\<close>: the index of a pair of relays in a triangular matrix.\<close>

definition TriMatrixLength :: "nat \<Rightarrow> nat" where
  "TriMatrixLength n = (n * (n - 1)) div 2"

definition TriMatrixIndex :: "nat \<Rightarrow> nat \<Rightarrow> nat" where
  "TriMatrixIndex i j = (if i > j then i * (i + 1) div 2 - i + j else j * (j + 1) div 2 - j + i)"

text \<open>A relay index is an \<open>int32\<close>; its bytes are taken with arithmetic shifts.\<close>

definition RouteHash :: "int list \<Rightarrow> u32" where
  "RouteHash relays =
     foldl (\<lambda>hash r.
        let hash = (hash XOR (of_int (r div 2 ^ 24) AND 0xFF)) * 16777619;
            hash = (hash XOR (of_int (r div 2 ^ 16) AND 0xFF)) * 16777619;
            hash = (hash XOR (of_int (r div 2 ^ 8) AND 0xFF)) * 16777619
        in (hash XOR (of_int r AND 0xFF)) * 16777619) 0 relays"

text \<open>The parallel arrays of a \<open>RouteManager\<close>, entry by entry. Of \<open>RouteRelays[i]\<close> only the first \<open>RouteNumRelays[i]\<close> are
  ever read, and only these are kept.\<close>

record Route =
  RouteCost :: int
  RoutePrice :: int
  RouteHashes :: u32
  RouteRelays :: "int list"

record RouteManager =
  NumRoutes :: nat
  Routes :: "Route list"

abbreviation MaxRoutesPerEntry :: nat where "MaxRoutesPerEntry \<equiv> 16"

definition no_route :: Route where
  "no_route = \<lparr>RouteCost = 0, RoutePrice = 0, RouteHashes = 0, RouteRelays = []\<rparr>"

definition new_manager :: RouteManager where
  "new_manager = \<lparr>NumRoutes = 0, Routes = replicate MaxRoutesPerEntry no_route\<rparr>"

fun insert_index :: "Route list \<Rightarrow> int \<Rightarrow> nat \<Rightarrow> nat" where
  "insert_index rs cost 0 = 0"
| "insert_index rs cost (Suc n) = (if cost > RouteCost (rs ! n) then Suc n else insert_index rs cost n)"

fun shift_routes :: "nat \<Rightarrow> nat \<Rightarrow> Route list \<Rightarrow> Route list" where
  "shift_routes stop 0 rs = rs"
| "shift_routes stop (Suc i) rs = (if Suc i > stop then shift_routes stop i (rs[Suc i := rs ! i]) else rs)"

text \<open>The loop check looks at every pair of relays.\<close>

definition has_loop :: "int list \<Rightarrow> bool" where
  "has_loop relays \<longleftrightarrow> list_ex (\<lambda>i. list_ex (\<lambda>j. relays ! i = relays ! j) [0..<i]) [1..<length relays]"

definition hash_known :: "u32 \<Rightarrow> RouteManager \<Rightarrow> bool" where
  "hash_known hash manager \<longleftrightarrow> list_ex (\<lambda>i. hash = RouteHashes (Routes manager ! i)) [0..<NumRoutes manager]"

definition AddRoute :: "int \<Rightarrow> int \<Rightarrow> int list \<Rightarrow> RouteManager \<Rightarrow> RouteManager" where
  "AddRoute cost price relays manager =
     (let rs = Routes manager; n = NumRoutes manager; hash = RouteHash relays;
          route = \<lparr>RouteCost = cost, RoutePrice = price, RouteHashes = hash, RouteRelays = relays\<rparr>
      in
      if cost \<ge> 255 then manager
      else if has_loop relays then manager
      else if n = 0 then manager\<lparr>NumRoutes := 1, Routes := rs[0 := route]\<rparr>
      else if n < MaxRoutesPerEntry then
        if hash_known hash manager then manager
        else if cost \<ge> RouteCost (rs ! (n - 1)) then manager\<lparr>NumRoutes := n + 1, Routes := rs[n := route]\<rparr>
        else
          let insertIndex = insert_index rs cost (n - 1)
          in manager\<lparr>NumRoutes := n + 1, Routes := (shift_routes insertIndex n rs)[insertIndex := route]\<rparr>
      else if cost \<ge> RouteCost (rs ! (n - 1)) then manager
      else if hash_known hash manager then manager
      else
        let insertIndex = insert_index rs cost (n - 1)
        in manager\<lparr>Routes := (shift_routes insertIndex (n - 1) rs)[insertIndex := route]\<rparr>)"

text \<open>\<open>Optimize\<close>. First the square matrix.\<close>

definition row_pairs :: "nat \<Rightarrow> (nat \<times> nat) list" where
  "row_pairs n = concat (map (\<lambda>i. map (Pair i) [0..<i]) [0..<n])"

definition square_matrix :: "nat \<Rightarrow> u8 list \<Rightarrow> u8 list" where
  "square_matrix numRelays cost =
     fold (\<lambda>(i, j) square. let c = cost ! (TriMatrixIndex i 0 + j) in square[i * numRelays + j := c, j * numRelays + i := c])
       (row_pairs numRelays) (replicate (numRelays * numRelays) 0)"

text \<open>The indirect routes from i to j through another relay that are cheaper than the direct one: the relay and the cost. Of more than
  eight the cheapest eight are selected by insertion; \<open>place\<close> moves the entries that cost more up by one.\<close>

type_synonym indirect = "nat \<times> nat"

abbreviation MaxIndirects :: nat where "MaxIndirects \<equiv> 8"

fun place :: "indirect \<Rightarrow> nat \<Rightarrow> indirect list \<Rightarrow> indirect list" where
  "place candidate 0 best = best[0 := candidate]"
| "place candidate (Suc pos) best =
     (if snd (best ! pos) > snd candidate then place candidate pos (best[Suc pos := best ! pos]) else best[Suc pos := candidate])"

definition consider_candidate :: "indirect \<Rightarrow> nat \<times> indirect list \<Rightarrow> nat \<times> indirect list" where
  "consider_candidate candidate = (\<lambda>(count, best).
     if count = MaxIndirects \<and> snd candidate \<ge> snd (best ! (count - 1)) then (count, best)
     else let count = (if count = MaxIndirects then count - 1 else count)
          in (count + 1, place candidate count best))"

definition select_best :: "indirect list \<Rightarrow> indirect list" where
  "select_best working = snd (fold consider_candidate working (0, replicate MaxIndirects (0, 0)))"

definition candidates :: "nat \<Rightarrow> u8 list \<Rightarrow> nat \<Rightarrow> nat \<Rightarrow> indirect list" where
  "candidates numRelays square i j =
     (let costDirect = unat (square ! (i * numRelays + j))
      in concat (map (\<lambda>x.
           if x = i \<or> x = j then []
           else let indirectCost = unat (square ! (i * numRelays + x)) + unat (square ! (j * numRelays + x))
                in if indirectCost \<ge> costDirect then [] else [(x, indirectCost)]) [0..<numRelays]))"

definition indirect_routes :: "nat \<Rightarrow> u8 list \<Rightarrow> bool list option \<Rightarrow> nat \<Rightarrow> nat \<Rightarrow> indirect list" where
  "indirect_routes numRelays square destinationRelay i j =
     (if i = j then []
      else if (case destinationRelay of None \<Rightarrow> False | Some d \<Rightarrow> \<not> d ! i \<and> \<not> d ! j) then []
      else let working = candidates numRelays square i j
           in if length working > MaxIndirects then select_best working else working)"

text \<open>The calls of \<open>AddRoute\<close> for one pair, in order: cost, price and relays.\<close>

definition subdivided_routes :: "nat \<Rightarrow> u8 list \<Rightarrow> u8 list \<Rightarrow> (nat \<Rightarrow> nat \<Rightarrow> indirect list) \<Rightarrow> int \<Rightarrow> nat \<Rightarrow> nat \<Rightarrow> (int \<times> int \<times> int list) list" where
  "subdivided_routes numRelays square relayPrice indirect directCost i j =
     (let price = (\<lambda>relays. sum_list (map (\<lambda>r. uint (relayPrice ! r)) relays));
          offer = (\<lambda>cost relays. if int cost < directCost then [(int cost, price relays, map int relays)] else [])
      in concat (map (\<lambda>(k, ikj_cost).
           let ik_cost = unat (square ! (i * numRelays + k)); kj_cost = unat (square ! (k * numRelays + j))
           in offer ikj_cost [i, k, j] @
              concat (map (\<lambda>(x, ixk_cost). offer (ixk_cost + kj_cost) [i, x, k, j]) (indirect i k)) @
              concat (map (\<lambda>(y, kyj_cost). offer (ik_cost + kyj_cost) [i, k, y, j]) (indirect k j)) @
              concat (map (\<lambda>(x, ixk_cost). concat (map (\<lambda>(y, kyj_cost).
                  offer (ixk_cost + kyj_cost) [i, x, k, y, j]) (indirect k j))) (indirect i k)))
           (indirect i j)))"

definition pair_offers ::
  "nat \<Rightarrow> u8 list \<Rightarrow> u8 list \<Rightarrow> u8 list \<Rightarrow> bool list option \<Rightarrow> (nat \<Rightarrow> nat \<Rightarrow> indirect list) \<Rightarrow> nat \<Rightarrow> nat \<Rightarrow> (int \<times> int \<times> int list) list" where
  "pair_offers numRelays cost square relayPrice destinationRelay indirect i j =
     (let directCost = uint (cost ! TriMatrixIndex i j)
      in (if directCost < 255 then [(directCost, uint (relayPrice ! i) + uint (relayPrice ! j), [int i, int j])] else []) @
         (if (case destinationRelay of None \<Rightarrow> True | Some d \<Rightarrow> d ! i \<or> d ! j)
          then subdivided_routes numRelays square relayPrice indirect directCost i j else []))"

record RouteEntry =
  DirectCost :: int
  EntryRoutes :: "Route list"

definition optimize_pair ::
  "nat \<Rightarrow> u8 list \<Rightarrow> u8 list \<Rightarrow> u8 list \<Rightarrow> bool list option \<Rightarrow> (nat \<Rightarrow> nat \<Rightarrow> indirect list) \<Rightarrow> nat \<Rightarrow> nat \<Rightarrow> RouteEntry" where
  "optimize_pair numRelays cost square relayPrice destinationRelay indirect i j =
     (let manager = fold (\<lambda>(c, p, relays). AddRoute c p relays)
            (pair_offers numRelays cost square relayPrice destinationRelay indirect i j) new_manager
      in \<lparr>DirectCost = uint (cost ! TriMatrixIndex i j), EntryRoutes = take (NumRoutes manager) (Routes manager)\<rparr>)"

text \<open>The workers take rows in any order; a row writes only its own entries and reads what the first phase has
  completed, so the result is that of one worker.\<close>

definition Optimize :: "nat \<Rightarrow> u8 list \<Rightarrow> u8 list \<Rightarrow> bool list option \<Rightarrow> RouteEntry list" where
  "Optimize numRelays cost relayPrice destinationRelay =
     (let square = square_matrix numRelays cost;
          indirect = indirect_routes numRelays square destinationRelay
      in fold (\<lambda>(i, j) routes.
           routes[TriMatrixIndex i j := optimize_pair numRelays cost square relayPrice destinationRelay indirect i j])
         (row_pairs numRelays) (replicate (TriMatrixLength numRelays) \<lparr>DirectCost = 0, EntryRoutes = []\<rparr>))"

text \<open>What the table holds, and its invariant.\<close>

definition table :: "RouteManager \<Rightarrow> Route list" where
  "table manager = take (NumRoutes manager) (Routes manager)"

definition manager_inv :: "RouteManager \<Rightarrow> bool" where
  "manager_inv manager \<longleftrightarrow>
     NumRoutes manager \<le> MaxRoutesPerEntry \<and> length (Routes manager) = MaxRoutesPerEntry \<and>
     sorted (map RouteCost (table manager)) \<and> distinct (map RouteHashes (table manager)) \<and>
     (\<forall>r \<in> set (table manager). RouteCost r < 255 \<and> distinct (RouteRelays r) \<and> RouteHashes r = RouteHash (RouteRelays r))"

text \<open>\<open>AddRoute\<close> on the list that the table holds.\<close>

definition insert_route :: "Route \<Rightarrow> Route list \<Rightarrow> Route list" where
  "insert_route r rs = takeWhile (\<lambda>x. RouteCost x < RouteCost r) rs @ r # dropWhile (\<lambda>x. RouteCost x < RouteCost r) rs"

definition route_of :: "int \<times> int \<times> int list \<Rightarrow> Route" where
  "route_of offer = (case offer of (c, p, relays) \<Rightarrow>
     \<lparr>RouteCost = c, RoutePrice = p, RouteHashes = RouteHash relays, RouteRelays = relays\<rparr>)"

definition add_routes :: "(int \<times> int \<times> int list) list \<Rightarrow> RouteManager \<Rightarrow> RouteManager" where
  "add_routes offers = fold (\<lambda>(c, p, relays). AddRoute c p relays) offers"

definition covered :: "RouteManager \<Rightarrow> int \<times> int \<times> int list \<Rightarrow> bool" where
  "covered manager offer \<longleftrightarrow>
     (\<exists>x \<in> set (table manager). RouteHashes x = RouteHashes (route_of offer) \<and> RouteCost x = RouteCost (route_of offer)) \<or>
     length (table manager) = MaxRoutesPerEntry \<and> (\<forall>x \<in> set (table manager). RouteCost x \<le> RouteCost (route_of offer))"

text \<open>Routes that share a hash cost the same: what the table relies on when it takes a hash for the route.\<close>

definition consistent :: "(int \<times> int \<times> int list) list \<Rightarrow> bool" where
  "consistent offers \<longleftrightarrow>
     (\<forall>a \<in> set offers. \<forall>b \<in> set offers. RouteHashes (route_of a) = RouteHashes (route_of b) \<longrightarrow>
        RouteCost (route_of a) = RouteCost (route_of b))"

fun insert_after :: "indirect \<Rightarrow> indirect list \<Rightarrow> indirect list" where
  "insert_after y [] = [y]"
| "insert_after y (x # xs) = (if snd x \<le> snd y then x # insert_after y xs else y # x # xs)"

definition link :: "u8 list \<Rightarrow> nat \<Rightarrow> nat \<Rightarrow> nat" where
  "link cost i j = unat (cost ! TriMatrixIndex i j)"

definition pair_wanted :: "bool list option \<Rightarrow> nat \<Rightarrow> nat \<Rightarrow> bool" where
  "pair_wanted d i j \<longleftrightarrow> (case d of None \<Rightarrow> True | Some d \<Rightarrow> d ! i \<or> d ! j)"

fun path_cost :: "u8 list \<Rightarrow> nat list \<Rightarrow> nat" where
  "path_cost cost (a # b # rest) = link cost a b + path_cost cost (b # rest)"
| "path_cost cost _ = 0"

definition path_price :: "u8 list \<Rightarrow> nat list \<Rightarrow> int" where
  "path_price relayPrice relays = sum_list (map (\<lambda>r. uint (relayPrice ! r)) relays)"

definition good_path :: "nat \<Rightarrow> u8 list \<Rightarrow> nat \<Rightarrow> nat \<Rightarrow> nat list \<Rightarrow> bool" where
  "good_path n cost i j path \<longleftrightarrow>
     2 \<le> length path \<and> length path \<le> 5 \<and> hd path = i \<and> last path = j \<and> set path \<subseteq> {..<n} \<and>
     (path = [i, j] \<or> path_cost cost path < link cost i j)"

definition offer_of :: "u8 list \<Rightarrow> int \<Rightarrow> nat \<Rightarrow> nat list \<Rightarrow> (int \<times> int \<times> int list) list" where
  "offer_of relayPrice directCost c path =
     (if int c < directCost then [(int c, path_price relayPrice path, map int path)] else [])"

definition sound_offer :: "nat \<Rightarrow> u8 list \<Rightarrow> u8 list \<Rightarrow> nat \<Rightarrow> nat \<Rightarrow> int \<times> int \<times> int list \<Rightarrow> bool" where
  "sound_offer n cost relayPrice i j a \<longleftrightarrow>
     (\<exists>path. a = (int (path_cost cost path), path_price relayPrice path, map int path) \<and> good_path n cost i j path)"

text \<open>What a stored route promises: it is the path of its relays, priced exactly.\<close>

definition exact_route :: "nat \<Rightarrow> u8 list \<Rightarrow> u8 list \<Rightarrow> nat \<Rightarrow> nat \<Rightarrow> Route \<Rightarrow> bool" where
  "exact_route n cost relayPrice i j r \<longleftrightarrow>
     (\<exists>path. RouteRelays r = map int path \<and> RouteHashes r = RouteHash (RouteRelays r) \<and>
        RouteCost r = int (path_cost cost path) \<and> RoutePrice r = path_price relayPrice path \<and>
        path_cost cost path < 255 \<and> path_cost cost path \<le> link cost i j \<and>
        distinct path \<and> hd path = i \<and> last path = j \<and> 2 \<le> length path \<and> length path \<le> 5 \<and> set path \<subseteq> {..<n})"

definition triangle_costs :: "u8 list" where
  "triangle_costs = [100, 30, 40]"

section \<open>The route table\<close>

lemma has_loop_iff: "has_loop relays \<longleftrightarrow> \<not> distinct relays"
proof
  assume "has_loop relays"
  then obtain i j where "i < length relays" "j < i" "relays ! i = relays ! j" by (auto simp: has_loop_def list_ex_iff)
  then show "\<not> distinct relays" using nth_eq_iff_index_eq [of relays i j] by auto
next
  assume "\<not> distinct relays"
  then obtain i j where ij: "i < length relays" "j < length relays" "i \<noteq> j" "relays ! i = relays ! j" by (auto simp: distinct_conv_nth)
  have "\<exists>i' j'. i' < length relays \<and> j' < i' \<and> relays ! i' = relays ! j'"
    using ij by (cases "i < j") (metis linorder_neqE_nat)+
  then obtain i' j' where "i' < length relays" "j' < i'" "relays ! i' = relays ! j'" by blast
  then show "has_loop relays" unfolding has_loop_def list_ex_iff by (intro bexI [of _ i'] bexI [of _ j']) auto
qed

lemma hash_known_iff:
  assumes "NumRoutes manager \<le> length (Routes manager)"
  shows "hash_known hash manager \<longleftrightarrow> hash \<in> RouteHashes ` set (table manager)"
proof -
  have "set (table manager) = (\<lambda>i. Routes manager ! i) ` {0..<NumRoutes manager}"
    using assms by (simp add: table_def nth_image [symmetric])
  then show ?thesis by (auto simp: hash_known_def list_ex_iff image_iff)
qed

lemma shift_routes_result:
  assumes "i < length rs" "stop \<le> i"
  shows "(shift_routes stop i rs)[stop := r] = take stop rs @ r # take (i - stop) (drop stop rs) @ drop (Suc i) rs"
  using assms
proof (induction i arbitrary: rs)
  case 0
  then show ?case by (cases rs) simp_all
next
  case (Suc i)
  show ?case
  proof (cases "stop = Suc i")
    case True
    then show ?thesis using Suc.prems by (simp add: upd_conv_take_nth_drop)
  next
    case False
    let ?rs = "rs[Suc i := rs ! i]"
    have "(shift_routes stop i ?rs)[stop := r] = take stop ?rs @ r # take (i - stop) (drop stop ?rs) @ drop (Suc i) ?rs"
      using Suc False by (intro Suc.IH) auto
    also have "take stop ?rs = take stop rs" using False Suc.prems by (simp add: take_update_cancel)
    also have "take (i - stop) (drop stop ?rs) = take (i - stop) (drop stop rs)"
      using False Suc.prems by (simp add: drop_update_swap take_update_cancel)
    also have "drop (Suc i) ?rs = rs ! i # drop (Suc (Suc i)) rs"
      using Suc.prems by (simp add: drop_update_swap Cons_nth_drop_Suc [symmetric])
    also have "take (i - stop) (drop stop rs) @ rs ! i # drop (Suc (Suc i)) rs = take (Suc i - stop) (drop stop rs) @ drop (Suc (Suc i)) rs"
      using False Suc.prems by (simp add: Suc_diff_le take_Suc_conv_app_nth)
    finally show ?thesis using False Suc.prems by simp
  qed
qed

lemma length_shift_routes [simp]: "length (shift_routes stop i rs) = length rs"
  by (induction i arbitrary: rs) auto

lemma insert_index_le: "insert_index rs cost n \<le> n"
  by (induction n) auto

lemma insert_index_cost:
  assumes "sorted (map RouteCost (take n rs))" "n \<le> length rs"
  shows "\<forall>i < insert_index rs cost n. RouteCost (rs ! i) < cost"
    "\<forall>i. insert_index rs cost n \<le> i \<longrightarrow> i < n \<longrightarrow> cost \<le> RouteCost (rs ! i)"
proof -
  have "(\<forall>i < insert_index rs cost n. RouteCost (rs ! i) < cost) \<and>
    (\<forall>i. insert_index rs cost n \<le> i \<longrightarrow> i < n \<longrightarrow> cost \<le> RouteCost (rs ! i))"
    using assms
  proof (induction n)
    case (Suc n)
    have s: "RouteCost (rs ! i) \<le> RouteCost (rs ! n)" if "i \<le> n" for i
      using sorted_nth_mono [OF Suc.prems(1), of i n] that Suc.prems(2) by simp
    have "sorted (map RouteCost (take n rs))"
      using Suc.prems by (simp add: take_Suc_conv_app_nth sorted_append)
    then have ih: "\<forall>i < insert_index rs cost n. RouteCost (rs ! i) < cost"
      "\<forall>i. insert_index rs cost n \<le> i \<longrightarrow> i < n \<longrightarrow> cost \<le> RouteCost (rs ! i)" using Suc by auto
    show ?case
    proof (cases "cost > RouteCost (rs ! n)")
      case True
      then show ?thesis using s by (auto simp: less_Suc_eq_le intro: order_le_less_trans)
    next
      case False
      then show ?thesis using ih by (auto simp: less_Suc_eq)
    qed
  qed simp
  then show "\<forall>i < insert_index rs cost n. RouteCost (rs ! i) < cost"
    "\<forall>i. insert_index rs cost n \<le> i \<longrightarrow> i < n \<longrightarrow> cost \<le> RouteCost (rs ! i)" by auto
qed

lemma sorted_insert_at:
  assumes "sorted (map RouteCost xs)" "k \<le> length xs" "\<forall>i < k. RouteCost (xs ! i) \<le> RouteCost r"
    "\<forall>i. k \<le> i \<longrightarrow> i < length xs \<longrightarrow> RouteCost r \<le> RouteCost (xs ! i)"
  shows "sorted (map RouteCost (take k xs @ r # drop k xs))"
proof -
  have "sorted (map RouteCost (take k xs))" "sorted (map RouteCost (drop k xs))"
    using assms(1) by (simp_all add: take_map [symmetric] drop_map [symmetric] sorted_wrt_take sorted_wrt_drop)
  moreover have "\<forall>x \<in> set (take k xs). RouteCost x \<le> RouteCost r" using assms(2,3) by (auto simp: in_set_conv_nth)
  moreover have "\<forall>x \<in> set (drop k xs). RouteCost r \<le> RouteCost x" using assms(2,4) by (auto simp: in_set_conv_nth)
  ultimately show ?thesis by (fastforce simp: sorted_append)
qed

lemma length_insert_route [simp]: "length (insert_route r rs) = Suc (length rs)"
  by (simp add: insert_route_def) (metis length_append takeWhile_dropWhile_id)

lemma set_insert_route [simp]: "set (insert_route r rs) = insert r (set rs)"
  by (simp add: insert_route_def) (metis set_append takeWhile_dropWhile_id)

lemma insert_at_eq:
  assumes "k \<le> length xs" "\<forall>i < k. RouteCost (xs ! i) < RouteCost r"
    "\<forall>i. k \<le> i \<longrightarrow> i < length xs \<longrightarrow> RouteCost r \<le> RouteCost (xs ! i)"
  shows "take k xs @ r # drop k xs = insert_route r xs"
proof -
  have "takeWhile (\<lambda>x. RouteCost x < RouteCost r) xs = take k xs"
  proof (cases "k = length xs")
    case True
    then show ?thesis using assms(2) by (auto simp: takeWhile_eq_all_conv in_set_conv_nth)
  next
    case False
    then show ?thesis using assms by (intro takeWhile_eq_take_P_nth) auto
  qed
  moreover from this have "dropWhile (\<lambda>x. RouteCost x < RouteCost r) xs = drop k xs"
    by (metis append_take_drop_id same_append_eq takeWhile_dropWhile_id)
  ultimately show ?thesis by (simp add: insert_route_def)
qed

lemma insert_shifted:
  assumes "sorted (map RouteCost (take n rs))" "n < length rs" "cost < RouteCost (rs ! n) \<or> m = n" "n \<le> m" "m \<le> Suc n" "m < length rs"
    "RouteCost r = cost"
  shows "take (Suc m) ((shift_routes (insert_index rs cost n) m rs)[insert_index rs cost n := r]) = insert_route r (take m rs)"
proof -
  let ?k = "insert_index rs cost n"
  have k: "?k \<le> n" by (rule insert_index_le)
  note c = insert_index_cost [OF assms(1), of cost]
  have "take (Suc m) ((shift_routes ?k m rs)[?k := r]) = take ?k (take m rs) @ r # drop ?k (take m rs)"
    using assms(4,6) k by (simp add: shift_routes_result drop_take Suc_diff_le min_def) arith
  also have "\<dots> = insert_route r (take m rs)"
  proof (rule insert_at_eq)
    show "?k \<le> length (take m rs)" using k assms(4,6) by simp
    show "\<forall>i < ?k. RouteCost (take m rs ! i) < RouteCost r" using c(1) k assms(2,4,7) by auto
    show "\<forall>i. ?k \<le> i \<longrightarrow> i < length (take m rs) \<longrightarrow> RouteCost r \<le> RouteCost (take m rs ! i)"
    proof (intro allI impI)
      fix i assume "?k \<le> i" "i < length (take m rs)"
      then have i: "?k \<le> i" "i < m" "i < n \<or> i = n \<and> m \<noteq> n" using assms(5) by auto
      then show "RouteCost r \<le> RouteCost (take m rs ! i)" using c(2) assms(2,3,7) by auto
    qed
  qed
  finally show ?thesis .
qed

lemma AddRoute_table:
  fixes cost price relays
  assumes inv: "manager_inv manager"
  defines "r \<equiv> \<lparr>RouteCost = cost, RoutePrice = price, RouteHashes = RouteHash relays, RouteRelays = relays\<rparr>"
    and "t \<equiv> table manager" and "m' \<equiv> AddRoute cost price relays manager"
  shows "cost \<ge> 255 \<or> \<not> distinct relays \<or> RouteHash relays \<in> RouteHashes ` set t \<Longrightarrow> m' = manager"
    and "cost < 255 \<Longrightarrow> distinct relays \<Longrightarrow> RouteHash relays \<notin> RouteHashes ` set t \<Longrightarrow>
      table m' = (if t \<noteq> [] \<and> cost \<ge> RouteCost (last t) then if length t < MaxRoutesPerEntry then t @ [r] else t
                  else insert_route r (if length t < MaxRoutesPerEntry then t else butlast t))"
    and "length (Routes m') = MaxRoutesPerEntry" "NumRoutes m' \<le> MaxRoutesPerEntry"
proof -
  let ?n = "NumRoutes manager" and ?rs = "Routes manager"
  have n: "?n \<le> 16" "length ?rs = 16" and srt: "sorted (map RouteCost t)" using inv by (auto simp: manager_inv_def t_def)
  have lt: "length t = ?n" using n by (simp add: t_def table_def)
  have hk: "hash_known (RouteHash relays) manager \<longleftrightarrow> RouteHash relays \<in> RouteHashes ` set t"
    using hash_known_iff n by (simp add: t_def)
  have ls: "last t = ?rs ! (?n - 1)" if "?n \<noteq> 0"
  proof -
    have "t \<noteq> []" using that lt by auto
    then have "last t = t ! (?n - 1)" by (simp add: last_conv_nth lt)
    then show ?thesis using that by (simp add: t_def table_def)
  qed
  show "length (Routes m') = MaxRoutesPerEntry"
    using n by (simp add: m'_def AddRoute_def Let_def length_shift_routes)
  show "NumRoutes m' \<le> MaxRoutesPerEntry"
    using n by (simp add: m'_def AddRoute_def Let_def)
  show "cost \<ge> 255 \<or> \<not> distinct relays \<or> RouteHash relays \<in> RouteHashes ` set t \<Longrightarrow> m' = manager"
    using hk lt by (auto simp: m'_def AddRoute_def Let_def has_loop_iff)
  assume a: "cost < 255" "distinct relays" "RouteHash relays \<notin> RouteHashes ` set t"
  have add: "m' = (if ?n = 0 then manager\<lparr>NumRoutes := 1, Routes := ?rs[0 := r]\<rparr>
      else if ?n < 16 then
        if cost \<ge> RouteCost (last t) then manager\<lparr>NumRoutes := ?n + 1, Routes := ?rs[?n := r]\<rparr>
        else manager\<lparr>NumRoutes := ?n + 1, Routes := (shift_routes (insert_index ?rs cost (?n - 1)) ?n ?rs)[insert_index ?rs cost (?n - 1) := r]\<rparr>
      else if cost \<ge> RouteCost (last t) then manager
      else manager\<lparr>Routes := (shift_routes (insert_index ?rs cost (?n - 1)) (?n - 1) ?rs)[insert_index ?rs cost (?n - 1) := r]\<rparr>)"
    using a hk ls by (simp add: m'_def AddRoute_def Let_def has_loop_iff r_def)
  consider "?n = 0" | "0 < ?n" "cost \<ge> RouteCost (last t)" | "0 < ?n" "?n < 16" "cost < RouteCost (last t)"
    | "?n = 16" "cost < RouteCost (last t)" using n(1) by fastforce
  then show "table m' = (if t \<noteq> [] \<and> cost \<ge> RouteCost (last t) then if length t < MaxRoutesPerEntry then t @ [r] else t
                  else insert_route r (if length t < MaxRoutesPerEntry then t else butlast t))"
  proof cases
    case 1
    then have "t = []" using lt by simp
    then show ?thesis using 1 add n by (simp add: table_def insert_route_def take_Suc_conv_app_nth)
  next
    case 2
    then show ?thesis using add n lt by (auto simp: table_def t_def take_Suc_conv_app_nth)
  next
    case 3
    have "sorted (map RouteCost (take (?n - 1) ?rs))"
      using srt by (simp add: t_def table_def take_map [symmetric] sorted_wrt_take) (metis diff_le_self min.absorb1 sorted_wrt_take take_take)
    then have "take (Suc ?n) ((shift_routes (insert_index ?rs cost (?n - 1)) ?n ?rs)[insert_index ?rs cost (?n - 1) := r]) =
        insert_route r (take ?n ?rs)"
      using 3 n ls by (intro insert_shifted) (auto simp: r_def)
    then show ?thesis using 3 add lt by (auto simp: table_def t_def)
  next
    case 4
    have "sorted (map RouteCost (take (?n - 1) ?rs))"
      using srt by (simp add: t_def table_def take_map [symmetric] sorted_wrt_take) (metis diff_le_self min.absorb1 sorted_wrt_take take_take)
    then have "take (Suc (?n - 1)) ((shift_routes (insert_index ?rs cost (?n - 1)) (?n - 1) ?rs)[insert_index ?rs cost (?n - 1) := r]) =
        insert_route r (take (?n - 1) ?rs)"
      using 4 n by (intro insert_shifted) (auto simp: r_def)
    then show ?thesis using 4 add lt n by (simp add: table_def t_def butlast_conv_take)
  qed
qed

lemma sorted_insert_route: "sorted (map RouteCost rs) \<Longrightarrow> sorted (map RouteCost (insert_route r rs))"
proof -
  assume s: "sorted (map RouteCost rs)"
  let ?P = "\<lambda>x. RouteCost x < RouteCost r"
  have "sorted (map RouteCost (takeWhile ?P rs)) \<and> sorted (map RouteCost (dropWhile ?P rs))"
    using s takeWhile_dropWhile_id [of ?P rs] by (metis map_append sorted_append)
  moreover have "\<forall>x \<in> set (takeWhile ?P rs). RouteCost x < RouteCost r" by (auto dest: set_takeWhileD)
  moreover have "\<forall>x \<in> set (dropWhile ?P rs). RouteCost r \<le> RouteCost x"
    using s
  proof (induction rs)
    case (Cons a rs)
    then show ?case by (cases "?P a") auto
  qed simp
  ultimately show ?thesis unfolding insert_route_def by (fastforce simp: sorted_append)
qed

lemma mset_insert_route: "mset (insert_route r rs) = add_mset r (mset rs)"
  by (simp add: insert_route_def) (metis mset_append takeWhile_dropWhile_id union_mset_add_mset_right)

lemma distinct_insert_route: "distinct (map f (insert_route r rs)) \<longleftrightarrow> f r \<notin> f ` set rs \<and> distinct (map f rs)"
proof -
  have "mset (map f (insert_route r rs)) = mset (map f (r # rs))" by (simp add: mset_insert_route)
  then have "distinct (map f (insert_route r rs)) = distinct (map f (r # rs))" by (rule mset_eq_imp_distinct_iff)
  then show ?thesis by simp
qed

lemma sorted_le_last: "sorted (map f xs) \<Longrightarrow> x \<in> set xs \<Longrightarrow> f x \<le> f (last xs)"
  by (induction xs) auto

text \<open>One step: the new table is the old one, or the new route is in it and at most the last, most expensive one is gone.\<close>

lemma AddRoute_cases [consumes 1, case_names same added replaced]:
  fixes c p relays
  assumes inv: "manager_inv manager"
  defines "r \<equiv> route_of (c, p, relays)" and "t \<equiv> table manager" and "m' \<equiv> AddRoute c p relays manager"
  obtains (same) "table m' = t" "c \<ge> 255 \<or> \<not> distinct relays \<or> RouteHash relays \<in> RouteHashes ` set t \<or>
      length t = 16 \<and> RouteCost (last t) \<le> c" "manager_inv m'"
  | (added) "c < 255" "distinct relays" "RouteHash relays \<notin> RouteHashes ` set t" "length t < 16"
      "set (table m') = insert r (set t)" "manager_inv m'"
  | (replaced) "c < 255" "distinct relays" "RouteHash relays \<notin> RouteHashes ` set t" "length t = 16" "c < RouteCost (last t)"
      "set (table m') = insert r (set (butlast t))" "length (table m') = 16" "manager_inv m'"
proof -
  have rs: "r = \<lparr>RouteCost = c, RoutePrice = p, RouteHashes = RouteHash relays, RouteRelays = relays\<rparr>"
    by (simp add: r_def route_of_def)
  note T = AddRoute_table [OF inv, where cost = c and price = p and relays = relays, folded rs t_def m'_def]
  have t: "sorted (map RouteCost t)" "distinct (map RouteHashes t)" "length t \<le> 16"
      "\<forall>r \<in> set t. RouteCost r < 255 \<and> distinct (RouteRelays r) \<and> RouteHashes r = RouteHash (RouteRelays r)"
    using inv by (auto simp: manager_inv_def t_def table_def)
  have inv': "manager_inv m'" if "sorted (map RouteCost (table m'))" "distinct (map RouteHashes (table m'))"
      "\<forall>r \<in> set (table m'). RouteCost r < 255 \<and> distinct (RouteRelays r) \<and> RouteHashes r = RouteHash (RouteRelays r)"
    using that T(3,4) by (simp add: manager_inv_def)
  have bl: "sorted (map RouteCost (butlast t))" "distinct (map RouteHashes (butlast t))"
    using t(1,2) by (auto simp: butlast_conv_take take_map [symmetric] sorted_wrt_take distinct_take)
  show thesis
  proof (cases "c \<ge> 255 \<or> \<not> distinct relays \<or> RouteHash relays \<in> RouteHashes ` set t")
    case True
    then have "m' = manager" by (rule T(1))
    then show thesis using True inv by (intro same) (auto simp: t_def)
  next
    case False
    then have a: "c < 255" "distinct relays" "RouteHash relays \<notin> RouteHashes ` set t" by auto
    note tb = T(2) [OF a]
    consider "t \<noteq> []" "c \<ge> RouteCost (last t)" "length t = 16" | "t \<noteq> []" "c \<ge> RouteCost (last t)" "length t < 16"
      | "t = [] \<or> c < RouteCost (last t)" "length t < 16" | "t \<noteq> []" "c < RouteCost (last t)" "length t = 16"
      using t(3) by fastforce
    then show thesis
    proof cases
      case 1
      then have "table m' = t" using tb by simp
      then show thesis using 1 t inv' by (intro same) auto
    next
      case 2
      then have e: "table m' = t @ [r]" using tb by simp
      have "\<forall>x \<in> set t. RouteCost x \<le> c"
        using sorted_le_last [OF t(1)] 2(2) by (auto intro: order_trans)
      then have "manager_inv m'" using e t a by (intro inv') (auto simp: sorted_append rs)
      then show thesis using e a 2 by (intro added) auto
    next
      case 3
      then have e: "table m' = insert_route r t" using tb by auto
      then have "manager_inv m'" using t a by (intro inv') (auto simp: sorted_insert_route distinct_insert_route rs)
      then show thesis using e a 3 by (intro added) auto
    next
      case 4
      then have e: "table m' = insert_route r (butlast t)" using tb by auto
      have "manager_inv m'"
        unfolding manager_inv_def e
      proof (intro conjI)
        show "\<forall>r \<in> set (insert_route r (butlast t)). RouteCost r < 255 \<and> distinct (RouteRelays r) \<and> RouteHashes r = RouteHash (RouteRelays r)"
          using t(4) a by (auto simp: rs dest: in_set_butlastD)
        show "distinct (map RouteHashes (insert_route r (butlast t)))"
          using bl a(3) by (auto simp: distinct_insert_route rs dest: in_set_butlastD)
      qed (use T(3,4) bl in \<open>simp_all add: sorted_insert_route\<close>)
      then show thesis using e a 4 by (intro replaced) auto
    qed
  qed
qed

lemma new_manager_inv: "manager_inv new_manager" "table new_manager = []"
  by (simp_all add: manager_inv_def new_manager_def table_def)

lemma table_sorted: "manager_inv m \<Longrightarrow> x \<in> set (table m) \<Longrightarrow> RouteCost x \<le> RouteCost (last (table m))"
  by (rule sorted_le_last) (auto simp: manager_inv_def)

lemma AddRoute_covers_others:
  assumes inv: "manager_inv m" and cov: "covered m offer"
  shows "covered (AddRoute c p relays m) offer"
  using inv
proof (cases rule: AddRoute_cases [where c = c and p = p and relays = relays])
  case same
  then show ?thesis using cov by (simp add: covered_def)
next
  case added
  then show ?thesis using cov by (auto simp: covered_def)
next
  case replaced
  let ?t = "table m"
  have ne: "?t \<noteq> []" using replaced(4) by auto
  have le: "\<forall>x \<in> set (butlast ?t). RouteCost x \<le> RouteCost (last ?t)" using table_sorted [OF inv] by (auto dest: in_set_butlastD)
  have c: "RouteCost (route_of (c, p, relays)) = c" by (simp add: route_of_def)
  from cov consider x where "x \<in> set ?t" "RouteHashes x = RouteHashes (route_of offer)" "RouteCost x = RouteCost (route_of offer)"
    | "\<forall>x \<in> set ?t. RouteCost x \<le> RouteCost (route_of offer)" unfolding covered_def by blast
  then show ?thesis
  proof cases
    case 1
    have "x \<in> set (butlast ?t) \<or> x = last ?t" using 1(1) ne by (metis append_butlast_last_id in_set_conv_decomp rotate1.simps(2) set_ConsD set_rotate1)
    then show ?thesis
    proof
      assume "x \<in> set (butlast ?t)"
      then show ?thesis using 1 replaced(6) by (auto simp: covered_def)
    next
      assume "x = last ?t"
      then show ?thesis using 1(3) replaced(5-7) le c by (auto simp: covered_def)
    qed
  next
    case 2
    then have "RouteCost (last ?t) \<le> RouteCost (route_of offer)" using ne by simp
    then show ?thesis using 2 replaced(5-7) c by (auto simp: covered_def dest: in_set_butlastD)
  qed
qed

lemma AddRoute_covers:
  assumes inv: "manager_inv m" and "c < 255" "distinct relays"
    and same: "\<forall>x \<in> set (table m). RouteHashes x = RouteHash relays \<longrightarrow> RouteCost x = c"
  shows "covered (AddRoute c p relays m) (c, p, relays)"
  using inv
proof (cases rule: AddRoute_cases [where c = c and p = p and relays = relays])
  case same
  then show ?thesis using assms table_sorted [OF inv] by (force simp: covered_def route_of_def)
qed (auto simp: covered_def)

lemma add_routes_table:
  fixes offers
  defines "m \<equiv> add_routes offers new_manager"
  shows "manager_inv m" "set (table m) \<subseteq> route_of ` set offers"
    "consistent offers \<Longrightarrow>
      (c, p, relays) \<in> set offers \<Longrightarrow> c < 255 \<Longrightarrow> distinct relays \<Longrightarrow> covered m (c, p, relays)"
proof -
  have "manager_inv (add_routes offers new_manager) \<and> set (table (add_routes offers new_manager)) \<subseteq> route_of ` set offers \<and>
    (consistent offers \<longrightarrow>
      (\<forall>c p relays. (c, p, relays) \<in> set offers \<longrightarrow> c < 255 \<longrightarrow> distinct relays \<longrightarrow> covered (add_routes offers new_manager) (c, p, relays)))"
  proof (induction offers rule: rev_induct)
    case Nil
    then show ?case using new_manager_inv by (simp add: add_routes_def)
  next
    case (snoc x offers)
    obtain c p relays where x: "x = (c, p, relays)" by (cases x)
    let ?m = "add_routes offers new_manager"
    have inv: "manager_inv ?m" and sub: "set (table ?m) \<subseteq> route_of ` set offers" using snoc by auto
    have e: "add_routes (offers @ [x]) new_manager = AddRoute c p relays ?m" by (simp add: add_routes_def x)
    have st: "manager_inv (AddRoute c p relays ?m) \<and> set (table (AddRoute c p relays ?m)) \<subseteq> insert (route_of x) (set (table ?m))"
      using inv by (cases rule: AddRoute_cases [where c = c and p = p and relays = relays]) (auto simp: x dest: in_set_butlastD)
    have cov: "covered (AddRoute c p relays ?m) (c', p', relays')"
      if h: "consistent (offers @ [x])"
        and o': "(c', p', relays') \<in> set (offers @ [x])" "c' < 255" "distinct relays'" for c' p' relays'
    proof (cases "(c', p', relays') \<in> set offers")
      case True
      moreover have "consistent offers" using h unfolding consistent_def set_append by blast
      ultimately have "covered ?m (c', p', relays')" using snoc o'(2,3) by blast
      then show ?thesis by (rule AddRoute_covers_others [OF inv])
    next
      case False
      then have y: "(c', p', relays') = (c, p, relays)" using o'(1) x by simp
      have "\<forall>y \<in> set (table ?m). RouteHashes y = RouteHash relays \<longrightarrow> RouteCost y = c"
      proof (intro ballI impI)
        fix y assume "y \<in> set (table ?m)" "RouteHashes y = RouteHash relays"
        moreover from this obtain b where "b \<in> set offers" "y = route_of b" using sub by auto
        moreover have "x \<in> set (offers @ [x])" "RouteHashes (route_of x) = RouteHash relays" "RouteCost (route_of x) = c"
          by (simp_all add: x route_of_def)
        ultimately show "RouteCost y = c" using h unfolding consistent_def set_append by (metis Un_iff)
      qed
      then show ?thesis using AddRoute_covers [OF inv, of c relays p] o' y by simp
    qed
    have "set (table (AddRoute c p relays ?m)) \<subseteq> route_of ` set (offers @ [x])" using st sub by auto
    then show ?case unfolding e using st cov by (intro conjI impI allI) auto
  qed
  then show "manager_inv m" "set (table m) \<subseteq> route_of ` set offers"
    "consistent offers \<Longrightarrow>
      (c, p, relays) \<in> set offers \<Longrightarrow> c < 255 \<Longrightarrow> distinct relays \<Longrightarrow> covered m (c, p, relays)"
    unfolding m_def by blast+
qed

section \<open>The selection of the cheapest indirect routes\<close>

lemma insert_after_all: "\<forall>x \<in> set xs. snd x \<le> snd y \<Longrightarrow> insert_after y xs = xs @ [y]"
  by (induction xs) auto

lemma insert_after_snoc: "snd a > snd y \<Longrightarrow> insert_after y (xs @ [a]) = insert_after y xs @ [a]"
  by (induction xs) auto

lemma length_insert_after [simp]: "length (insert_after y xs) = Suc (length xs)"
  by (induction xs) auto

lemma mset_insert_after: "mset (insert_after y xs) = add_mset y (mset xs)"
  by (induction xs) auto

lemma set_insert_after [simp]: "set (insert_after y xs) = insert y (set xs)"
  by (induction xs) auto

lemma sorted_insert_after: "sorted (map snd xs) \<Longrightarrow> sorted (map snd (insert_after y xs))"
  by (induction xs) auto

lemma take_insert_after: "take n (insert_after y (take n xs)) = take n (insert_after y xs)"
proof (induction xs arbitrary: n)
  case (Cons x xs)
  then show ?case by (cases n) (auto simp: take_Cons' min_def)
qed simp

lemma filter_insert_after:
  assumes "sorted (map snd xs)"
  shows "filter (\<lambda>x. snd x = k) (insert_after y xs) = filter (\<lambda>x. snd x = k) (xs @ [y])"
  using assms
proof (induction xs)
  case (Cons x xs)
  show ?case
  proof (cases "snd x \<le> snd y")
    case True
    then show ?thesis using Cons by auto
  next
    case False
    then have "\<forall>z \<in> set (x # xs). snd y < snd z" using Cons.prems by auto
    then have "k = snd y \<Longrightarrow> filter (\<lambda>x. snd x = k) (x # xs) = []" by (auto simp: filter_empty_conv)
    then show ?thesis using False by (cases "k = snd y") simp_all
  qed
qed simp

lemma place_result:
  assumes "n < length best" "sorted (map snd (take n best))"
  shows "place y n best = insert_after y (take n best) @ drop (Suc n) best"
  using assms
proof (induction n arbitrary: best)
  case 0
  then show ?case by (cases best) simp_all
next
  case (Suc n)
  have t: "take (Suc n) best = take n best @ [best ! n]" using Suc.prems by (simp add: take_Suc_conv_app_nth)
  show ?case
  proof (cases "snd (best ! n) > snd y")
    case True
    let ?b = "best[Suc n := best ! n]"
    have "place y n ?b = insert_after y (take n ?b) @ drop (Suc n) ?b"
      using Suc.prems t by (intro Suc.IH) (simp_all add: sorted_append)
    then show ?thesis
      using True Suc.prems t insert_after_snoc [of y "best ! n" "take n best"]
      by (simp add: drop_update_swap Cons_nth_drop_Suc [symmetric])
  next
    case False
    have "\<forall>x \<in> set (take (Suc n) best). snd x \<le> snd y"
      using sorted_le_last [OF Suc.prems(2)] False t by fastforce
    then show ?thesis using False Suc.prems by (simp add: insert_after_all upd_conv_take_nth_drop)
  qed
qed

text \<open>One candidate: the array holds the cheapest eight of what it held and the candidate.\<close>

lemma consider_candidate_step:
  assumes "length best = 8" "c \<le> 8" "sorted (map snd (take c best))"
  obtains best' where "consider_candidate y (c, best) = (min 8 (Suc c), best')" "length best' = 8"
    "take (min 8 (Suc c)) best' = take 8 (insert_after y (take c best))"
proof -
  consider "c < 8" | "c = 8" "snd y \<ge> snd (best ! 7)" | "c = 8" "snd y < snd (best ! 7)" using assms(2) by fastforce
  then show thesis
  proof cases
    case 1
    then have "place y c best = insert_after y (take c best) @ drop (Suc c) best"
      using assms by (intro place_result) simp_all
    then show thesis using 1 assms(1) by (intro that [of "place y c best"]) (simp_all add: consider_candidate_def min_def)
  next
    case 2
    have "\<forall>x \<in> set best. snd x \<le> snd y"
      using sorted_le_last [of snd best] assms 2 last_conv_nth [of best] by fastforce
    then have "insert_after y best = best @ [y]" by (rule insert_after_all)
    then show thesis using 2 assms(1) by (intro that [of best]) (simp_all add: consider_candidate_def)
  next
    case 3
    have "sorted (map snd (take 7 best))" using assms 3 by (simp add: take_map [symmetric] sorted_wrt_take)
    then have p: "place y 7 best = insert_after y (take 7 best)" using assms(1) place_result [of 7 best y] by simp
    have "best = take 7 best @ [best ! 7]" using assms(1) take_Suc_conv_app_nth [of 7 best] by simp
    then have "insert_after y best = insert_after y (take 7 best) @ [best ! 7]" using 3(2) insert_after_snoc by metis
    then have "take 8 (insert_after y best) = insert_after y (take 7 best)" using assms(1) by simp
    then show thesis using 3 assms(1) p by (intro that [of "place y 7 best"]) (simp_all add: consider_candidate_def)
  qed
qed

lemma select_best_loop:
  "\<exists>best. fold consider_candidate ys (0, replicate MaxIndirects (0, 0)) = (min 8 (length ys), best) \<and> length best = 8 \<and>
     take (min 8 (length ys)) best = take 8 (fold insert_after ys []) \<and> sorted (map snd (fold insert_after ys []))"
proof (induction ys rule: rev_induct)
  case (snoc y ys)
  let ?c = "min 8 (length ys)" and ?s = "fold insert_after ys []"
  obtain best where b: "fold consider_candidate ys (0, replicate MaxIndirects (0, 0)) = (?c, best)" "length best = 8"
    "take ?c best = take 8 ?s" "sorted (map snd ?s)" using snoc by blast
  have "sorted (map snd (take ?c best))" using b(3,4) by (simp add: take_map [symmetric] sorted_wrt_take)
  then obtain best' where b': "consider_candidate y (?c, best) = (min 8 (Suc ?c), best')" "length best' = 8"
    "take (min 8 (Suc ?c)) best' = take 8 (insert_after y (take ?c best))"
    using consider_candidate_step [OF b(2), of ?c y] by auto
  have c: "min 8 (Suc ?c) = min 8 (length (ys @ [y]))" by simp
  have "take (min 8 (length (ys @ [y]))) best' = take 8 (fold insert_after (ys @ [y]) [])"
    using b'(3) unfolding c b(3) by (simp add: take_insert_after)
  then show ?case using b(1,4) b'(1,2) unfolding c by (intro exI [of _ best']) (simp add: sorted_insert_after)
qed simp

lemma fold_insert_after: "fold insert_after ys [] = sort_key snd ys"
proof (induction ys rule: rev_induct)
  case (snoc y ys)
  have "sort_key snd (ys @ [y]) = insert_after y (sort_key snd ys)"
  proof (rule properties_for_sort_key)
    fix k assume "k \<in> set (insert_after y (sort_key snd ys))"
    show "filter (\<lambda>x. snd k = snd x) (insert_after y (sort_key snd ys)) = filter (\<lambda>x. snd k = snd x) (ys @ [y])"
      using sort_key_stable [of snd "snd k" ys] by (simp add: filter_insert_after eq_commute [of "snd k"])
  qed (simp_all add: mset_insert_after sorted_insert_after)
  then show ?case using snoc by simp
qed simp

lemma select_best_eq: "MaxIndirects < length ys \<Longrightarrow> select_best ys = take MaxIndirects (sort_key snd ys)"
  using select_best_loop [of ys] by (auto simp: select_best_def fold_insert_after)

section \<open>The matrices\<close>

lemma triangle_step: "(i * (i + 1)) div 2 = (i * (i - 1)) div 2 + (i :: nat)"
proof -
  have "i * (i + 1) = i * (i - 1) + i * 2" by (cases i) (simp_all add: algebra_simps)
  then have "(i * (i + 1)) div 2 = (i * (i - 1) + i * 2) div 2" by simp
  also have "\<dots> = i + (i * (i - 1)) div 2" by (rule div_mult_self1) simp
  finally show ?thesis by simp
qed

lemma TriMatrixIndex_below: "j < i \<Longrightarrow> TriMatrixIndex i j = (i * (i - 1)) div 2 + j"
  unfolding TriMatrixIndex_def triangle_step by simp

lemma TriMatrixIndex_sym: "TriMatrixIndex i j = TriMatrixIndex j i"
  by (auto simp: TriMatrixIndex_def)

lemma triangle_mono: "i < k \<Longrightarrow> (i * (i - 1)) div 2 + i \<le> (k * (k - 1)) div (2 :: nat)"
proof -
  assume "i < k"
  then have "i * (i + 1) \<le> k * (k - 1)" using mult_le_mono [of i "k - 1" "i + 1" k] by (simp add: mult.commute)
  then have "(i * (i + 1)) div 2 \<le> (k * (k - 1)) div 2" by (rule div_le_mono)
  then show ?thesis unfolding triangle_step .
qed

lemma TriMatrixIndex_less: "j < i \<Longrightarrow> i < n \<Longrightarrow> TriMatrixIndex i j < TriMatrixLength n"
  using triangle_mono [of i n] by (simp add: TriMatrixIndex_below TriMatrixLength_def)

lemma TriMatrixIndex_inj: "j < i \<Longrightarrow> j' < i' \<Longrightarrow> TriMatrixIndex i j = TriMatrixIndex i' j' \<longleftrightarrow> i = i' \<and> j = j'"
  using triangle_mono [of i i'] triangle_mono [of i' i] by (cases i i' rule: linorder_cases) (auto simp: TriMatrixIndex_below)

lemma set_row_pairs: "set (row_pairs n) = {(i, j). j < i \<and> i < n}"
  by (auto simp: row_pairs_def)

text \<open>A fold of updates writes the value that all updates of an index agree on.\<close>

lemma fold_writes:
  assumes "\<And>p xs. p \<in> set ps \<Longrightarrow> length xs = N \<Longrightarrow> length (f p xs) = N \<and> (xs ! k = w \<longrightarrow> f p xs ! k = w)"
    and "p \<in> set ps" "\<And>xs. length xs = N \<Longrightarrow> f p xs ! k = w" "length xs = N"
  shows "fold f ps xs ! k = w"
proof -
  have keep: "length (fold f ps xs) = N \<and> (xs ! k = w \<longrightarrow> fold f ps xs ! k = w)"
    if "\<And>p xs. p \<in> set ps \<Longrightarrow> length xs = N \<Longrightarrow> length (f p xs) = N \<and> (xs ! k = w \<longrightarrow> f p xs ! k = w)" "length xs = N" for ps xs
    using that by (induction ps arbitrary: xs) auto
  obtain as bs where ps: "ps = as @ p # bs" using split_list [OF assms(2)] by blast
  have "length (fold f as xs) = N" using keep [of as xs] assms(1,4) ps by auto
  then have "length (f p (fold f as xs)) = N" "f p (fold f as xs) ! k = w" using assms(1,2,3) by auto
  then have "fold f bs (f p (fold f as xs)) ! k = w" using keep [of bs "f p (fold f as xs)"] assms(1) ps by auto
  then show ?thesis by (simp add: ps)
qed

lemma flat_index: "i < n \<Longrightarrow> j < n \<Longrightarrow> a < n \<Longrightarrow> b < (n :: nat) \<Longrightarrow> a * n + b = i * n + j \<longleftrightarrow> a = i \<and> b = j"
proof -
  assume "i < n" "j < n" "a < n" "b < n"
  then have "(a * n + b) div n = a" "(a * n + b) mod n = b" "(i * n + j) div n = i" "(i * n + j) mod n = j" by simp_all
  then show ?thesis by auto
qed

lemma flat_index_less: "i < n \<Longrightarrow> j < n \<Longrightarrow> i * n + j < n * (n :: nat)"
proof -
  assume "i < n" "j < n"
  then have "i * n + j < Suc i * n" by simp
  also have "Suc i * n \<le> n * n" using \<open>i < n\<close> by (intro mult_le_mono1) simp
  finally show ?thesis .
qed

lemma square_lookup:
  assumes "i < n" "j < n" "i \<noteq> j"
  shows "square_matrix n cost ! (i * n + j) = cost ! TriMatrixIndex i j"
  unfolding square_matrix_def
proof (rule fold_writes [where N = "n * n" and p = "(max i j, min i j)"])
  show "(max i j, min i j) \<in> set (row_pairs n)" using assms by (auto simp: set_row_pairs)
  have base: "TriMatrixIndex a 0 + b = TriMatrixIndex a b" if "b < a" for a b using that by (simp add: TriMatrixIndex_below)
  fix p and xs :: "u8 list" assume p: "p \<in> set (row_pairs n)" and l: "length xs = n * n"
  obtain a b where ab: "p = (a, b)" "b < a" "a < n" "b < n" using p by (auto simp: set_row_pairs)
  have e: "a * n + b = i * n + j \<longleftrightarrow> a = i \<and> b = j" "b * n + a = i * n + j \<longleftrightarrow> b = i \<and> a = j"
    using flat_index [of i n j a b] flat_index [of i n j b a] assms ab by auto
  show "length ((\<lambda>(i, j) square. let c = cost ! (TriMatrixIndex i 0 + j) in square[i * n + j := c, j * n + i := c]) p xs) = n * n \<and>
      (xs ! (i * n + j) = cost ! TriMatrixIndex i j \<longrightarrow>
       (\<lambda>(i, j) square. let c = cost ! (TriMatrixIndex i 0 + j) in square[i * n + j := c, j * n + i := c]) p xs ! (i * n + j) = cost ! TriMatrixIndex i j)"
    using l ab e flat_index_less [of a n b] flat_index_less [of b n a] TriMatrixIndex_sym [of i j]
    by (auto simp: base nth_list_update Let_def)
next
  have base: "TriMatrixIndex a 0 + b = TriMatrixIndex a b" if "b < a" for a b using that by (simp add: TriMatrixIndex_below)
  fix xs :: "u8 list" assume l: "length xs = n * n"
  show "(\<lambda>(i, j) square. let c = cost ! (TriMatrixIndex i 0 + j) in square[i * n + j := c, j * n + i := c]) (max i j, min i j) xs ! (i * n + j) =
      cost ! TriMatrixIndex i j"
    using l assms flat_index_less [of i n j] flat_index_less [of j n i] TriMatrixIndex_sym [of i j]
    by (cases "i < j") (auto simp: base nth_list_update max_def min_def Let_def)
qed simp

section \<open>Indirect routes\<close>

lemma link_sym: "link cost i j = link cost j i"
  by (simp add: link_def TriMatrixIndex_sym)

lemma set_candidates:
  assumes "i < n" "j < n" "i \<noteq> j"
  shows "set (candidates n (square_matrix n cost) i j) =
    {(x, c). x < n \<and> x \<noteq> i \<and> x \<noteq> j \<and> c = link cost i x + link cost x j \<and> c < link cost i j}"
proof -
  have "unat (square_matrix n cost ! (i * n + x)) = link cost i x" "unat (square_matrix n cost ! (j * n + x)) = link cost x j"
    if "x < n" "x \<noteq> i" "x \<noteq> j" for x
    using that assms square_lookup [of i n x cost] square_lookup [of j n x cost] by (simp_all add: link_def TriMatrixIndex_sym)
  moreover have "unat (square_matrix n cost ! (i * n + j)) = link cost i j" using assms by (simp add: square_lookup link_def)
  ultimately show ?thesis
    by (auto simp: candidates_def Let_def split: if_splits)
qed

lemma indirect_eq:
  assumes "i \<noteq> j" "pair_wanted d i j"
  shows "indirect_routes n sq d i j =
    (if length (candidates n sq i j) > 8 then take 8 (sort_key snd (candidates n sq i j)) else candidates n sq i j)"
  using assms by (cases d) (auto simp: indirect_routes_def pair_wanted_def Let_def select_best_eq)

lemma indirect_none: "i = j \<or> \<not> pair_wanted d i j \<Longrightarrow> indirect_routes n sq d i j = []"
  by (auto simp: indirect_routes_def pair_wanted_def split: option.splits)

lemma indirect_sound:
  assumes "i < n" "j < n" "(k, c) \<in> set (indirect_routes n (square_matrix n cost) d i j)"
  shows "k < n" "k \<noteq> i" "k \<noteq> j" "i \<noteq> j" "c = link cost i k + link cost k j" "c < link cost i j"
proof -
  have w: "i \<noteq> j" "pair_wanted d i j" using assms(3) indirect_none by (metis empty_iff list.set(1))+
  then have "(k, c) \<in> set (candidates n (square_matrix n cost) i j)"
    using assms(3) by (auto simp: indirect_eq split: if_splits dest: in_set_takeD)
  then show "k < n" "k \<noteq> i" "k \<noteq> j" "i \<noteq> j" "c = link cost i k + link cost k j" "c < link cost i j"
    using assms(1,2) w by (simp_all add: set_candidates)
qed

lemma indirect_best:
  assumes "i < n" "j < n" "i \<noteq> j" "pair_wanted d i j" "x < n" "x \<noteq> i" "x \<noteq> j" "link cost i x + link cost x j < link cost i j"
  shows "\<exists>k c. (k, c) \<in> set (indirect_routes n (square_matrix n cost) d i j) \<and> c \<le> link cost i x + link cost x j"
proof -
  let ?w = "candidates n (square_matrix n cost) i j" and ?y = "(x, link cost i x + link cost x j)"
  have y: "?y \<in> set ?w" using assms by (simp add: set_candidates)
  show ?thesis
  proof (cases "8 < length ?w")
    case False
    then show ?thesis using y assms(3,4) by (auto simp: indirect_eq)
  next
    case True
    obtain z zs where s: "sort_key snd ?w = z # zs"
      using True by (metis length_0_conv length_sort not_less_zero list.exhaust)
    have "sorted (map snd (sort_key snd ?w))" "?y \<in> set (sort_key snd ?w)" using y by simp_all
    then have "snd z \<le> snd ?y" unfolding s by auto
    moreover have "z \<in> set (take 8 (sort_key snd ?w))" unfolding s by simp
    ultimately show ?thesis using True assms(3,4) by (cases z) (auto simp: indirect_eq)
  qed
qed

section \<open>The routes of a pair\<close>

lemma set_offer_of: "a \<in> set (offer_of relayPrice directCost c path) \<longleftrightarrow>
    int c < directCost \<and> a = (int c, path_price relayPrice path, map int path)"
  by (auto simp: offer_of_def)

lemma set_subdivided:
  "a \<in> set (subdivided_routes n sq relayPrice I directCost i j) \<longleftrightarrow>
    (\<exists>k ikj. (k, ikj) \<in> set (I i j) \<and>
      (a \<in> set (offer_of relayPrice directCost ikj [i, k, j]) \<or>
       (\<exists>x ixk. (x, ixk) \<in> set (I i k) \<and> a \<in> set (offer_of relayPrice directCost (ixk + unat (sq ! (k * n + j))) [i, x, k, j])) \<or>
       (\<exists>y kyj. (y, kyj) \<in> set (I k j) \<and> a \<in> set (offer_of relayPrice directCost (unat (sq ! (i * n + k)) + kyj) [i, k, y, j])) \<or>
       (\<exists>x ixk y kyj. (x, ixk) \<in> set (I i k) \<and> (y, kyj) \<in> set (I k j) \<and>
          a \<in> set (offer_of relayPrice directCost (ixk + kyj) [i, x, k, y, j]))))"
  unfolding subdivided_routes_def Let_def path_price_def [symmetric] offer_of_def [symmetric]
  by (simp add: case_prod_beta') (simp add: Bex_def split_paired_Ex)

lemma sound_offer_of:
  assumes "a \<in> set (offer_of relayPrice (int (link cost i j)) c path)" "c = path_cost cost path"
    "2 \<le> length path" "length path \<le> 5" "hd path = i" "last path = j" "set path \<subseteq> {..<n}"
  shows "sound_offer n cost relayPrice i j a"
  using assms by (auto simp: sound_offer_def good_path_def set_offer_of)

lemma subdivided_sound:
  assumes ij: "i < n" "j < n" and a: "a \<in> set (subdivided_routes n (square_matrix n cost) relayPrice
      (indirect_routes n (square_matrix n cost) d) (int (link cost i j)) i j)"
  shows "sound_offer n cost relayPrice i j a"
proof -
  let ?sq = "square_matrix n cost" and ?I = "indirect_routes n (square_matrix n cost) d"
    and ?o = "offer_of relayPrice (int (link cost i j))"
  obtain k ikj where k: "(k, ikj) \<in> set (?I i j)" and
    cases: "a \<in> set (?o ikj [i, k, j]) \<or>
       (\<exists>x ixk. (x, ixk) \<in> set (?I i k) \<and> a \<in> set (?o (ixk + unat (?sq ! (k * n + j))) [i, x, k, j])) \<or>
       (\<exists>y kyj. (y, kyj) \<in> set (?I k j) \<and> a \<in> set (?o (unat (?sq ! (i * n + k)) + kyj) [i, k, y, j])) \<or>
       (\<exists>x ixk y kyj. (x, ixk) \<in> set (?I i k) \<and> (y, kyj) \<in> set (?I k j) \<and> a \<in> set (?o (ixk + kyj) [i, x, k, y, j]))"
    using a unfolding set_subdivided by blast
  note ik = indirect_sound [OF ij k]
  have sq: "unat (?sq ! (k * n + j)) = link cost k j" "unat (?sq ! (i * n + k)) = link cost i k"
    using ik ij by (simp_all add: square_lookup link_def)
  from cases show ?thesis
  proof (elim disjE exE conjE)
    assume "a \<in> set (?o ikj [i, k, j])"
    then show ?thesis by (rule sound_offer_of) (use ik ij in auto)
  next
    fix x ixk assume x: "(x, ixk) \<in> set (?I i k)" and o: "a \<in> set (?o (ixk + unat (?sq ! (k * n + j))) [i, x, k, j])"
    show ?thesis by (rule sound_offer_of [OF o]) (use ik ij sq indirect_sound [OF ij(1) ik(1) x] in auto)
  next
    fix y kyj assume y: "(y, kyj) \<in> set (?I k j)" and o: "a \<in> set (?o (unat (?sq ! (i * n + k)) + kyj) [i, k, y, j])"
    show ?thesis by (rule sound_offer_of [OF o]) (use ik ij sq indirect_sound [OF ik(1) ij(2) y] in auto)
  next
    fix x ixk y kyj assume x: "(x, ixk) \<in> set (?I i k)" and y: "(y, kyj) \<in> set (?I k j)"
      and o: "a \<in> set (?o (ixk + kyj) [i, x, k, y, j])"
    show ?thesis
      by (rule sound_offer_of [OF o]) (use ik ij indirect_sound [OF ij(1) ik(1) x] indirect_sound [OF ik(1) ij(2) y] in auto)
  qed
qed

lemma pair_offers_sound:
  assumes "i < n" "j < n" "i \<noteq> j" "a \<in> set (pair_offers n cost (square_matrix n cost) relayPrice d
      (indirect_routes n (square_matrix n cost) d) i j)"
  shows "sound_offer n cost relayPrice i j a"
proof -
  have l: "uint (cost ! TriMatrixIndex i j) = int (link cost i j)" using assms(3) by (simp add: link_def)
  show ?thesis
  proof (cases "a \<in> set (subdivided_routes n (square_matrix n cost) relayPrice
      (indirect_routes n (square_matrix n cost) d) (int (link cost i j)) i j)")
    case True
    then show ?thesis using subdivided_sound assms(1,2) by blast
  next
    case False
    then have "a = (int (link cost i j), path_price relayPrice [i, j], map int [i, j])"
      using assms(4) by (auto simp: pair_offers_def Let_def l path_price_def split: if_splits)
    then show ?thesis
      using assms(1,2) unfolding sound_offer_def by (intro exI [of _ "[i, j]"]) (auto simp: good_path_def)
  qed
qed

lemma Optimize_entry:
  assumes "j < i" "i < n"
  shows "Optimize n cost relayPrice d ! TriMatrixIndex i j =
    optimize_pair n cost (square_matrix n cost) relayPrice d (indirect_routes n (square_matrix n cost) d) i j"
  unfolding Optimize_def Let_def
proof (rule fold_writes [where N = "TriMatrixLength n" and p = "(i, j)"])
  show "(i, j) \<in> set (row_pairs n)" using assms by (simp add: set_row_pairs)
qed (use assms in \<open>auto simp: TriMatrixIndex_less TriMatrixIndex_inj set_row_pairs nth_list_update\<close>)

lemma optimize_pair_table:
  "EntryRoutes (optimize_pair n cost sq relayPrice d I i j) = table (add_routes (pair_offers n cost sq relayPrice d I i j) new_manager)"
  "DirectCost (optimize_pair n cost sq relayPrice d I i j) = uint (cost ! TriMatrixIndex i j)"
  by (simp_all add: optimize_pair_def table_def add_routes_def Let_def)

lemma good_path_cost: "good_path n cost i j path \<Longrightarrow> path_cost cost path \<le> link cost i j"
  by (cases "path = [i, j]") (simp_all add: good_path_def)

text \<open>A route that covers an offer makes the first route at most as expensive.\<close>

lemma covered_first:
  assumes inv: "manager_inv m" and cov: "covered m offer"
  shows "table m \<noteq> [] \<and> RouteCost (hd (table m)) \<le> RouteCost (route_of offer)"
proof -
  have ex: "\<exists>x \<in> set (table m). RouteCost x \<le> RouteCost (route_of offer)"
    using cov unfolding covered_def by (metis length_0_conv list.set_sel(1) order_refl zero_neq_numeral)
  then obtain r rs where t: "table m = r # rs" by (cases "table m") auto
  have "sorted (map RouteCost (table m))" using inv by (simp add: manager_inv_def)
  then show ?thesis using ex t by auto
qed

lemma uint_link: "uint (cost ! TriMatrixIndex i j) = int (link cost i j)"
  by (simp add: link_def)

lemma direct_offered:
  assumes "link cost i j < 255"
  shows "(int (link cost i j), path_price relayPrice [i, j], [int i, int j]) \<in> set (pair_offers n cost sq relayPrice d I i j)"
  using assms by (simp add: pair_offers_def Let_def uint_link path_price_def)

lemma detour_offered:
  assumes "pair_wanted d i j" "(k, c) \<in> set (I i j)" "c < link cost i j"
  shows "(int c, path_price relayPrice [i, k, j], map int [i, k, j]) \<in> set (pair_offers n cost sq relayPrice d I i j)"
proof -
  have "(int c, path_price relayPrice [i, k, j], map int [i, k, j]) \<in> set (subdivided_routes n sq relayPrice I (int (link cost i j)) i j)"
    using assms(2,3) unfolding set_subdivided by (intro exI [of _ k] exI [of _ c]) (simp add: set_offer_of)
  then show ?thesis
    using assms(1) by (cases d) (simp_all add: pair_offers_def Let_def pair_wanted_def uint_link)
qed

lemma stored_route_exact:
  assumes inv: "manager_inv m" and sub: "set (table m) \<subseteq> route_of ` set offers" and r: "r \<in> set (table m)"
    and sound: "\<And>a. a \<in> set offers \<Longrightarrow> sound_offer n cost relayPrice i j a"
  shows "exact_route n cost relayPrice i j r"
proof -
  obtain a where a: "a \<in> set offers" "r = route_of a" using sub r by blast
  obtain p where p: "a = (int (path_cost cost p), path_price relayPrice p, map int p)" "good_path n cost i j p"
    using sound [OF a(1)] unfolding sound_offer_def by blast
  have "RouteCost r < 255" "distinct (RouteRelays r)" "RouteHashes r = RouteHash (RouteRelays r)"
    using inv r by (auto simp: manager_inv_def)
  then show ?thesis
    using p good_path_cost [OF p(2)] unfolding exact_route_def
    by (intro exI [of _ p]) (simp add: a(2) route_of_def good_path_def distinct_map)
qed

text \<open>Where the hashes tell the offers apart, no offer and no detour over one relay is cheaper than the first route.\<close>

lemma first_route_beats_offers:
  assumes "consistent offers" "(c, p, relays) \<in> set offers" "c < 255" "distinct relays"
  shows "table (add_routes offers new_manager) \<noteq> [] \<and> RouteCost (hd (table (add_routes offers new_manager))) \<le> c"
  using covered_first [OF add_routes_table(1) add_routes_table(3) [OF assms]] by (simp add: route_of_def)

lemma first_route_beats_detours:
  fixes n cost d relayPrice i j
  defines "sq \<equiv> square_matrix n cost"
  defines "I \<equiv> indirect_routes n sq d"
  defines "m \<equiv> add_routes (pair_offers n cost sq relayPrice d I i j) new_manager"
  assumes c: "consistent (pair_offers n cost sq relayPrice d I i j)" and ij: "i < n" "j < n" "i \<noteq> j"
    and x: "x < n" "x \<noteq> i" "x \<noteq> j" "pair_wanted d i j" "link cost i x + link cost x j < link cost i j"
  shows "table m \<noteq> [] \<and> RouteCost (hd (table m)) \<le> int (link cost i x + link cost x j)"
proof -
  obtain k c where k: "(k, c) \<in> set (I i j)" "c \<le> link cost i x + link cost x j"
    using indirect_best [OF ij x(4,1,2,3,5)] unfolding I_def sq_def by blast
  have s: "c < link cost i j" "distinct (map int [i, k, j])"
    using indirect_sound [OF ij(1,2) k(1) [unfolded I_def sq_def]] by auto
  moreover have "link cost i j < 2 ^ LENGTH(8)" unfolding link_def by (rule unsigned_less)
  moreover have "(int c, path_price relayPrice [i, k, j], map int [i, k, j]) \<in> set (pair_offers n cost sq relayPrice d I i j)"
    by (rule detour_offered [where I = I]) (use x(4) k(1) s(1) in auto)
  ultimately have "table m \<noteq> [] \<and> RouteCost (hd (table m)) \<le> int c"
    unfolding m_def by (intro first_route_beats_offers [OF assms(4)]) auto
  then show ?thesis using k(2) by auto
qed

lemma Optimize_entry_routes:
  fixes cost relayPrice d
  assumes ij: "j < i" "i < n"
  defines "e \<equiv> Optimize n cost relayPrice d ! TriMatrixIndex i j"
  shows "EntryRoutes e = table (add_routes (pair_offers n cost (square_matrix n cost) relayPrice d
      (indirect_routes n (square_matrix n cost) d) i j) new_manager)"
    "DirectCost e = int (link cost i j)" "length (EntryRoutes e) \<le> 16" "sorted (map RouteCost (EntryRoutes e))"
    "distinct (map RouteHashes (EntryRoutes e))" "\<forall>r \<in> set (EntryRoutes e). exact_route n cost relayPrice i j r"
proof -
  let ?o = "pair_offers n cost (square_matrix n cost) relayPrice d (indirect_routes n (square_matrix n cost) d) i j"
  let ?m = "add_routes ?o new_manager"
  show e: "EntryRoutes e = table ?m" "DirectCost e = int (link cost i j)"
    using Optimize_entry [OF ij] by (simp_all add: e_def optimize_pair_table link_def)
  have ij': "i < n" "j < n" "i \<noteq> j" using ij by auto
  note inv = add_routes_table(1) [of ?o]
  show "length (EntryRoutes e) \<le> 16" "sorted (map RouteCost (EntryRoutes e))" "distinct (map RouteHashes (EntryRoutes e))"
    unfolding e using inv by (auto simp: manager_inv_def table_def)
  show "\<forall>r \<in> set (EntryRoutes e). exact_route n cost relayPrice i j r"
    unfolding e using stored_route_exact [OF inv add_routes_table(2)] pair_offers_sound [OF ij'] by blast
qed

lemma length_fold_updates: "length (fold (\<lambda>(i, j) xs. xs[f i j := g i j]) ps xs) = length xs"
  by (induction ps arbitrary: xs) (auto split: prod.splits)

lemma length_Optimize: "length (Optimize n cost relayPrice d) = TriMatrixLength n"
  by (simp add: Optimize_def Let_def length_fold_updates)

text \<open>C14. \<open>Optimize\<close> stores for a pair of relays at most sixteen different routes, cheapest first. Each one leads from the one relay to
  the other over at most three more without a loop, its cost is the exact sum of its links and no more than the direct cost, and its
  price the sum of its relays' prices. Where no two routes offered for the pair share a hash and differ in cost, the first route is at
  most as expensive as the direct one and as every detour over one relay.\<close>

theorem optimizer_stores_best_routes:
  assumes ij: "j < i" "i < n"
  shows "let e = Optimize n cost relayPrice d ! TriMatrixIndex i j; sq = square_matrix n cost in
    DirectCost e = int (link cost i j) \<and> length (EntryRoutes e) \<le> 16 \<and>
    sorted (map RouteCost (EntryRoutes e)) \<and> distinct (map RouteHashes (EntryRoutes e)) \<and>
    (\<forall>r \<in> set (EntryRoutes e). exact_route n cost relayPrice i j r) \<and>
    (consistent (pair_offers n cost sq relayPrice d (indirect_routes n sq d) i j) \<longrightarrow>
       (link cost i j < 255 \<longrightarrow> EntryRoutes e \<noteq> [] \<and> RouteCost (hd (EntryRoutes e)) \<le> int (link cost i j)) \<and>
       (\<forall>x < n. x \<noteq> i \<longrightarrow> x \<noteq> j \<longrightarrow> pair_wanted d i j \<longrightarrow> link cost i x + link cost x j < link cost i j \<longrightarrow>
          EntryRoutes e \<noteq> [] \<and> RouteCost (hd (EntryRoutes e)) \<le> int (link cost i x + link cost x j)))"
proof -
  have ij': "i < n" "j < n" "i \<noteq> j" using ij by auto
  note e = Optimize_entry_routes [OF ij, of cost relayPrice d]
  show ?thesis
    unfolding Let_def e(1,2)
  proof (intro conjI ballI impI allI)
    show "length (table (add_routes (pair_offers n cost (square_matrix n cost) relayPrice d
        (indirect_routes n (square_matrix n cost) d) i j) new_manager)) \<le> 16" using e(1,3) by simp
  qed (use e(4,5,6) [unfolded e(1)] first_route_beats_detours [OF _ ij'] first_route_beats_offers [OF _ direct_offered] ij in auto)
qed

lemma triangle_consistent:
  "consistent (pair_offers 3 triangle_costs (square_matrix 3 triangle_costs) [1, 2, 3] None
     (indirect_routes 3 (square_matrix 3 triangle_costs) None) 1 0)"
  by code_simp

theorem optimizer_stores_best_routes_witness:
  "let e = Optimize 3 triangle_costs [1, 2, 3] None ! TriMatrixIndex 1 0 in
     EntryRoutes e \<noteq> [] \<and> RouteCost (hd (EntryRoutes e)) \<le> 70"
proof -
  have l: "link triangle_costs 1 2 = 40" "link triangle_costs 2 0 = 30" "link triangle_costs 1 0 = 100" by code_simp+
  have r: "(0 :: nat) < 1" "(1 :: nat) < 3" by simp_all
  note w = optimizer_stores_best_routes [OF r, of triangle_costs "[1, 2, 3]" None, unfolded Let_def,
      THEN conjunct2, THEN conjunct2, THEN conjunct2, THEN conjunct2, THEN conjunct2, THEN mp, OF triangle_consistent, THEN conjunct2]
  show ?thesis using w [rule_format, of 2] l by (simp add: Let_def pair_wanted_def)
qed

end
