(* ===== verification/Core_Selection.thy ===== *)
theory Core_Selection
  imports Core_Routes Complex_Main "HOL-Library.Monad_Syntax"
begin

text \<open>
  How the backend chooses a route for a session, \<open>modules/core/core.go\<close>: the cost of the best and of the current route in a route
  matrix, the routes close to the best, the filters of source and destination relays, and the decisions to take a route
  and to stay on it. The lemmas describe what each loop collects, and that a decision quotes the exact cost of a route of the matrix.
\<close>

section \<open>Definitions\<close>

text \<open>\<open>modules/core/core.go\<close>: the costs are \<open>int32\<close>, whose additions wrap. Reading an array out of its bounds panics; a
  function in which that can happen returns \<open>None\<close> for it. The debug strings are left out.\<close>

abbreviation MaxInt32 :: int where "MaxInt32 \<equiv> 2147483647"

definition i32 :: "int \<Rightarrow> int" where
  "i32 x = (x + 2147483648) mod 4294967296 - 2147483648"

abbreviation CostBias :: int where "CostBias \<equiv> 3"

definition element :: "'a list \<Rightarrow> int \<Rightarrow> 'a option" where
  "element xs i = (if 0 \<le> i \<and> nat i < length xs then Some (xs ! nat i) else None)"

text \<open>\<open>TriMatrixIndex\<close> on the signed relay indices and the entry it leads to.\<close>

definition signed_index :: "int \<Rightarrow> int \<Rightarrow> int" where
  "signed_index i j = (if i > j then i * (i + 1) div 2 - i + j else j * (j + 1) div 2 - j + i)"

definition matrix_entry :: "RouteEntry list \<Rightarrow> int \<Rightarrow> int \<Rightarrow> RouteEntry option" where
  "matrix_entry routeMatrix s d = element routeMatrix (signed_index s d)"

fun best_to_dests :: "RouteEntry list \<Rightarrow> int \<Rightarrow> int \<Rightarrow> int list \<Rightarrow> int \<Rightarrow> int option" where
  "best_to_dests m s c [] best = Some best"
| "best_to_dests m s c (d # ds) best =
     (if s = d then best_to_dests m s c ds best
      else do {
        e \<leftarrow> matrix_entry m s d;
        let best = (case EntryRoutes e of [] \<Rightarrow> best
          | r # _ \<Rightarrow> let cost = i32 (c + RouteCost r) in if cost < best then cost else best);
        best_to_dests m s c ds best
      })"

fun best_from_sources :: "RouteEntry list \<Rightarrow> int list \<Rightarrow> int list \<Rightarrow> int list \<Rightarrow> int \<Rightarrow> int option" where
  "best_from_sources m [] cs ds best = Some best"
| "best_from_sources m (s # ss) [] ds best = None"
| "best_from_sources m (s # ss) (c # cs) ds best =
     (if c \<ge> 255 then best_from_sources m ss cs ds best
      else do { best \<leftarrow> best_to_dests m s c ds best; best_from_sources m ss cs ds best })"

definition GetBestRouteCost :: "RouteEntry list \<Rightarrow> int list \<Rightarrow> int list \<Rightarrow> int list \<Rightarrow> int option" where
  "GetBestRouteCost routeMatrix sourceRelays sourceRelayCost destRelays =
     (if routeMatrix = [] then Some MaxInt32
      else do {
        best \<leftarrow> best_from_sources routeMatrix sourceRelays sourceRelayCost destRelays MaxInt32;
        Some (if best = MaxInt32 then best else i32 (best + CostBias))
      })"

function reverse_loop :: "nat \<Rightarrow> nat \<Rightarrow> int list \<Rightarrow> int list" where
  "reverse_loop i j route = (if i < j then reverse_loop (i + 1) (j - 1) (route[i := route ! j, j := route ! i]) else route)"
  by pat_completeness auto

termination by (relation "measure (\<lambda>(i, j, _). j - i)") auto

definition ReverseRoute :: "int list \<Rightarrow> int list" where
  "ReverseRoute route = reverse_loop 0 (length route - 1) route"

text \<open>A current route is an array of relays of which the first \<open>routeNumRelays\<close> count.\<close>

definition orient_route :: "int \<Rightarrow> int list \<Rightarrow> int list option" where
  "orient_route routeNumRelays routeRelays =
     do {
       first \<leftarrow> element routeRelays 0;
       final \<leftarrow> element routeRelays (routeNumRelays - 1);
       Some (if first < final then ReverseRoute (take (nat routeNumRelays) routeRelays) @ drop (nat routeNumRelays) routeRelays
             else routeRelays)
     }"

definition RouteExists :: "RouteEntry list \<Rightarrow> int \<Rightarrow> int list \<Rightarrow> bool option" where
  "RouteExists routeMatrix routeNumRelays routeRelays =
     (if routeMatrix = [] then Some False
      else do {
        relays \<leftarrow> orient_route routeNumRelays routeRelays;
        entry \<leftarrow> matrix_entry routeMatrix (relays ! 0) (relays ! nat (routeNumRelays - 1));
        Some (list_ex (\<lambda>r. int (length (RouteRelays r)) = routeNumRelays \<and>
            list_all (\<lambda>j. RouteRelays r ! j = relays ! j) [0..<nat routeNumRelays]) (EntryRoutes entry))
      })"

fun source_cost_of :: "int \<Rightarrow> int list \<Rightarrow> int list \<Rightarrow> int option" where
  "source_cost_of relay [] cs = Some 1000"
| "source_cost_of relay (s # ss) cs =
     (if relay = s then (case cs of [] \<Rightarrow> None | c # _ \<Rightarrow> Some c) else source_cost_of relay ss (tl cs))"

definition GetCurrentRouteCost :: "RouteEntry list \<Rightarrow> int \<Rightarrow> int list \<Rightarrow> int list \<Rightarrow> int list \<Rightarrow> int option" where
  "GetCurrentRouteCost routeMatrix routeNumRelays routeRelays sourceRelays sourceRelayCost =
     (if routeNumRelays \<le> 0 then Some (-1)
      else if routeMatrix = [] then Some (-1)
      else do {
        first \<leftarrow> element routeRelays 0;
        sourceCost \<leftarrow> source_cost_of first sourceRelays sourceRelayCost;
        if sourceCost \<ge> 255 then Some (-1)
        else do {
          relays \<leftarrow> orient_route routeNumRelays routeRelays;
          let sourceRelayIndex = relays ! 0;
          let destRelayIndex = relays ! nat (routeNumRelays - 1);
          if sourceRelayIndex = destRelayIndex then Some (-1)
          else do {
            let routeHash = RouteHash (take (nat routeNumRelays) relays);
            entry \<leftarrow> matrix_entry routeMatrix sourceRelayIndex destRelayIndex;
            Some (case find (\<lambda>r. RouteHashes r = routeHash \<and> int (length (RouteRelays r)) = routeNumRelays) (EntryRoutes entry) of
                None \<Rightarrow> -1 | Some r \<Rightarrow> i32 (i32 (sourceCost + RouteCost r) + CostBias))
          }
        }
      })"

record BestRoute =
  BestCost :: int
  BestPrice :: int
  BestRelays :: "int list"
  NeedToReverse :: bool

text \<open>The three loops of \<open>GetBestRoutes\<close>, innermost first. They return whether the buffer is full, and what was put into it.\<close>

fun routes_of_entry :: "int \<Rightarrow> nat \<Rightarrow> int \<Rightarrow> bool \<Rightarrow> Route list \<Rightarrow> BestRoute list \<Rightarrow> (bool \<times> BestRoute list) option" where
  "routes_of_entry maxCost maxRoutes c rv [] acc = Some (False, acc)"
| "routes_of_entry maxCost maxRoutes c rv (r # rs) acc =
     (let cost = i32 (RouteCost r + c)
      in if cost > maxCost then Some (False, acc)
         else if length acc \<ge> maxRoutes then None
         else let acc = acc @ [\<lparr>BestCost = cost, BestPrice = RoutePrice r, BestRelays = RouteRelays r, NeedToReverse = rv\<rparr>]
              in if length acc = maxRoutes then Some (True, acc) else routes_of_entry maxCost maxRoutes c rv rs acc)"

fun routes_to_dests :: "RouteEntry list \<Rightarrow> int \<Rightarrow> nat \<Rightarrow> int \<Rightarrow> int \<Rightarrow> int list \<Rightarrow> BestRoute list \<Rightarrow> (bool \<times> BestRoute list) option" where
  "routes_to_dests m maxCost maxRoutes s c [] acc = Some (False, acc)"
| "routes_to_dests m maxCost maxRoutes s c (d # ds) acc =
     (if s = d then routes_to_dests m maxCost maxRoutes s c ds acc
      else do {
        e \<leftarrow> matrix_entry m s d;
        (full, acc) \<leftarrow> routes_of_entry maxCost maxRoutes c (s < d) (EntryRoutes e) acc;
        if full then Some (True, acc) else routes_to_dests m maxCost maxRoutes s c ds acc
      })"

fun routes_from_sources :: "RouteEntry list \<Rightarrow> int \<Rightarrow> nat \<Rightarrow> int list \<Rightarrow> int list \<Rightarrow> int list \<Rightarrow> BestRoute list \<Rightarrow> (bool \<times> BestRoute list) option" where
  "routes_from_sources m maxCost maxRoutes [] cs ds acc = Some (False, acc)"
| "routes_from_sources m maxCost maxRoutes (s # ss) [] ds acc = None"
| "routes_from_sources m maxCost maxRoutes (s # ss) (c # cs) ds acc =
     (if c \<ge> 255 then routes_from_sources m maxCost maxRoutes ss cs ds acc
      else do {
        (full, acc) \<leftarrow> routes_to_dests m maxCost maxRoutes s c ds acc;
        if full then Some (True, acc) else routes_from_sources m maxCost maxRoutes ss cs ds acc
      })"

definition GetBestRoutes :: "RouteEntry list \<Rightarrow> int list \<Rightarrow> int list \<Rightarrow> int list \<Rightarrow> int \<Rightarrow> nat \<Rightarrow> BestRoute list option" where
  "GetBestRoutes routeMatrix sourceRelays sourceRelayCost destRelays maxCost maxRoutes =
     (if routeMatrix = [] then Some []
      else map_option snd (routes_from_sources routeMatrix maxCost maxRoutes sourceRelays sourceRelayCost destRelays []))"

fun ReframeRoute :: "(u64 \<Rightarrow> int option) \<Rightarrow> u64 list \<Rightarrow> nat \<Rightarrow> int list \<Rightarrow> (bool \<times> int list) option" where
  "ReframeRoute relayIdToIndex [] i out = Some (True, out)"
| "ReframeRoute relayIdToIndex (relayId # ids) i out =
     (case relayIdToIndex relayId of None \<Rightarrow> Some (False, out)
      | Some relayIndex \<Rightarrow> if i < length out then ReframeRoute relayIdToIndex ids (i + 1) (out[i := relayIndex]) else None)"

text \<open>A \<open>float32\<close> is the rational number it stands for. Two thirds are computed with integers. The loops over the parallel slices
  have the length of the slice they range over; the exclusion flags are an array of the session data, which is longer.\<close>

definition flag_where :: "('a \<Rightarrow> bool) \<Rightarrow> 'a list \<Rightarrow> bool list \<Rightarrow> bool list" where
  "flag_where bad xs flags = fold (\<lambda>(i, x) flags. if bad x then flags[i := True] else flags) (enumerate 0 xs) flags"

definition FilterSourceRelays :: "rat \<Rightarrow> u64 list \<Rightarrow> int list \<Rightarrow> rat list \<Rightarrow> bool list \<Rightarrow> bool list \<times> rat list" where
  "FilterSourceRelays directPacketLoss sourceRelayId sourceRelayLatency sourceRelayPacketLoss filterSourceRelay =
     (let numRelaysWithHighPacketLoss = length (filter (\<lambda>l. l \<ge> 1) sourceRelayPacketLoss);
          sourceRelayPacketLoss =
            (if directPacketLoss \<ge> 1 \<and> numRelaysWithHighPacketLoss > length sourceRelayId * 2 div 3
             then map (\<lambda>_. 0) sourceRelayPacketLoss else sourceRelayPacketLoss);
          flags = map (\<lambda>_. False) filterSourceRelay;
          flags = flag_where (\<lambda>l. l > directPacketLoss) sourceRelayPacketLoss flags;
          flags = flag_where (\<lambda>l. l \<le> 0) sourceRelayLatency flags
      in (flags, sourceRelayPacketLoss))"

text \<open>The index and the latency of one source relay.\<close>

definition reframe_source :: "(u64 \<Rightarrow> int option) \<Rightarrow> u64 \<Rightarrow> int \<Rightarrow> bool \<Rightarrow> int \<times> int" where
  "reframe_source relayIdToIndex relayId latency excluded =
     (if excluded then (-1, 255)
      else if latency \<le> 0 then (-1, 255)
      else if latency > 255 then (-1, 255)
      else case relayIdToIndex relayId of None \<Rightarrow> (-1, 255) | Some relayIndex \<Rightarrow> (relayIndex, latency))"

fun ReframeSourceRelays :: "(u64 \<Rightarrow> int option) \<Rightarrow> u64 list \<Rightarrow> int list \<Rightarrow> bool list \<Rightarrow> (int \<times> int) list option" where
  "ReframeSourceRelays relayIdToIndex [] latencies excludes = Some []"
| "ReframeSourceRelays relayIdToIndex (relayId # ids) (latency # latencies) (excluded # excludes) =
     map_option (Cons (reframe_source relayIdToIndex relayId latency excluded)) (ReframeSourceRelays relayIdToIndex ids latencies excludes)"
| "ReframeSourceRelays relayIdToIndex (relayId # ids) latencies excludes = None"

text \<open>The constant 0.1 is the \<open>float32\<close> nearest to it.\<close>

definition FilterDestRelays :: "int list \<Rightarrow> int list \<Rightarrow> rat list \<Rightarrow> bool list \<Rightarrow> bool list" where
  "FilterDestRelays destRelayLatency destRelayJitter destRelayPacketLoss filterDestRelay =
     (let flags = flag_where (\<lambda>l. l > 2) destRelayLatency filterDestRelay;
          flags = flag_where (\<lambda>j. j > 10) destRelayJitter flags
      in flag_where (\<lambda>p. p > 13421773 / 134217728) destRelayPacketLoss flags)"

fun ReframeDestRelays :: "(u64 \<Rightarrow> int option) \<Rightarrow> u64 list \<Rightarrow> bool list \<Rightarrow> int list option" where
  "ReframeDestRelays relayIdToIndex [] excludes = Some []"
| "ReframeDestRelays relayIdToIndex (relayId # ids) [] = None"
| "ReframeDestRelays relayIdToIndex (relayId # ids) (excluded # excludes) =
     do {
       rest \<leftarrow> ReframeDestRelays relayIdToIndex ids excludes;
       Some (if excluded then rest else case relayIdToIndex relayId of None \<Rightarrow> rest | Some relayIndex \<Rightarrow> relayIndex # rest)
     }"

text \<open>What the selection writes through its out parameters: the cost and the relays, whose number is the length. The random
  choice \<open>math_rand.Intn\<close> is a parameter: \<open>pick n\<close> is below n.\<close>

record RouteOut =
  OutCost :: int
  OutRelays :: "int list"

definition no_out :: RouteOut where
  "no_out = \<lparr>OutCost = 0, OutRelays = []\<rparr>"

definition chosen_route :: "BestRoute \<Rightarrow> RouteOut" where
  "chosen_route r = \<lparr>OutCost = i32 (BestCost r + CostBias),
     OutRelays = (if NeedToReverse r then rev (BestRelays r) else BestRelays r)\<rparr>"

definition GetRandomBestRoute ::
  "(nat \<Rightarrow> nat) \<Rightarrow> RouteEntry list \<Rightarrow> int list \<Rightarrow> int list \<Rightarrow> int list \<Rightarrow> int \<Rightarrow> int \<Rightarrow> RouteOut \<Rightarrow> (bool \<times> RouteOut) option" where
  "GetRandomBestRoute pick routeMatrix sourceRelays sourceRelayCost destRelays maxCost threshold out =
     (if maxCost = -1 then Some (False, out)
      else do {
        bestRouteCost \<leftarrow> GetBestRouteCost routeMatrix sourceRelays sourceRelayCost destRelays;
        if bestRouteCost > maxCost then Some (False, out\<lparr>OutCost := bestRouteCost\<rparr>)
        else do {
          bestRoutes \<leftarrow> GetBestRoutes routeMatrix sourceRelays sourceRelayCost destRelays (i32 (bestRouteCost + threshold)) 1024;
          if bestRoutes = [] then Some (False, out)
          else Some (True, chosen_route (bestRoutes ! pick (length bestRoutes)))
        }
      })"

text \<open>Only the routes of the lowest price: the price so far and the routes that have it.\<close>

definition lowest_price_step :: "BestRoute \<Rightarrow> int \<times> BestRoute list \<Rightarrow> int \<times> BestRoute list" where
  "lowest_price_step r = (\<lambda>(lowestPrice, filtered).
     if BestPrice r < lowestPrice then (BestPrice r, [r])
     else if BestPrice r = lowestPrice then (lowestPrice, filtered @ [r])
     else (lowestPrice, filtered))"

definition GetRandomBestRoute_LowestPrice ::
  "(nat \<Rightarrow> nat) \<Rightarrow> RouteEntry list \<Rightarrow> int list \<Rightarrow> int list \<Rightarrow> int list \<Rightarrow> int \<Rightarrow> int \<Rightarrow> RouteOut \<Rightarrow> (bool \<times> RouteOut) option" where
  "GetRandomBestRoute_LowestPrice pick routeMatrix sourceRelays sourceRelayCost destRelays maxCost threshold out =
     (if maxCost = -1 then Some (False, out)
      else do {
        bestRouteCost \<leftarrow> GetBestRouteCost routeMatrix sourceRelays sourceRelayCost destRelays;
        if bestRouteCost > maxCost then Some (False, out\<lparr>OutCost := bestRouteCost\<rparr>)
        else do {
          bestRoutes \<leftarrow> GetBestRoutes routeMatrix sourceRelays sourceRelayCost destRelays (i32 (bestRouteCost + threshold)) 1024;
          if bestRoutes = [] then Some (False, out)
          else
            let (lowestPrice, filtered) = fold lowest_price_step bestRoutes (1000000, [])
            in if lowestPrice \<ge> 255 then Some (False, out)
               else Some (True, chosen_route (filtered ! pick (length filtered)))
        }
      })"

definition GetBestRoute_Initial ::
  "(nat \<Rightarrow> nat) \<Rightarrow> RouteEntry list \<Rightarrow> int list \<Rightarrow> int list \<Rightarrow> int list \<Rightarrow> int \<Rightarrow> int \<Rightarrow> RouteOut \<Rightarrow> (bool \<times> RouteOut) option" where
  "GetBestRoute_Initial = GetRandomBestRoute_LowestPrice"

text \<open>The result: whether the route changed, whether it was lost, and the route.\<close>

definition GetBestRoute_Update ::
  "(nat \<Rightarrow> nat) \<Rightarrow> RouteEntry list \<Rightarrow> int list \<Rightarrow> int list \<Rightarrow> int list \<Rightarrow> int \<Rightarrow> int \<Rightarrow> int \<Rightarrow> int \<Rightarrow> int list \<Rightarrow> RouteOut \<Rightarrow>
     (bool \<times> bool \<times> RouteOut) option" where
  "GetBestRoute_Update pick routeMatrix sourceRelays sourceRelayCost destRelays maxCost selectThreshold switchThreshold
       currentRouteNumRelays currentRouteRelays out =
     do {
       currentRouteCost \<leftarrow> GetCurrentRouteCost routeMatrix currentRouteNumRelays currentRouteRelays sourceRelays sourceRelayCost;
       if currentRouteCost < 0 then do {
         (_, out) \<leftarrow> GetRandomBestRoute pick routeMatrix sourceRelays sourceRelayCost destRelays maxCost selectThreshold out;
         Some (True, True, out)
       }
       else do {
         bestRouteCost \<leftarrow> GetBestRouteCost routeMatrix sourceRelays sourceRelayCost destRelays;
         if currentRouteCost > bestRouteCost + switchThreshold then do {
           (_, out) \<leftarrow> GetRandomBestRoute pick routeMatrix sourceRelays sourceRelayCost destRelays bestRouteCost selectThreshold out;
           Some (True, False, out)
         }
         else Some (False, False, \<lparr>OutCost = currentRouteCost, OutRelays = take (nat currentRouteNumRelays) currentRouteRelays\<rparr>)
       }
     }"

record RouteShader =
  DisableNetworkNext :: bool
  SelectionPercent :: int
  ShaderABTest :: bool
  AcceptableLatency :: int
  LatencyReductionThreshold :: int
  AcceptablePacketLoss :: rat
  BandwidthEnvelopeUpKbps :: int
  BandwidthEnvelopeDownKbps :: int
  RouteSelectThreshold :: int
  RouteSwitchThreshold :: int
  MaxLatencyTradeOff :: int
  ForceNext :: bool

definition NewRouteShader :: RouteShader where
  "NewRouteShader = \<lparr>DisableNetworkNext = False, SelectionPercent = 100, ShaderABTest = False, AcceptableLatency = 0,
     LatencyReductionThreshold = 10, AcceptablePacketLoss = 13421773 / 134217728, BandwidthEnvelopeUpKbps = 1024,
     BandwidthEnvelopeDownKbps = 1024, RouteSelectThreshold = 5, RouteSwitchThreshold = 10, MaxLatencyTradeOff = 20,
     ForceNext = False\<rparr>"

record RouteState =
  Next :: bool
  Veto :: bool
  Disabled :: bool
  NotSelected :: bool
  ABTest :: bool
  GroupA :: bool
  GroupB :: bool
  ForcedNext :: bool
  ReduceLatency :: bool
  ReducePacketLoss :: bool
  RouteLost :: bool
  NoRoute :: bool

definition EarlyOutDirect :: "u64 \<Rightarrow> RouteShader \<Rightarrow> RouteState \<Rightarrow> bool \<times> RouteState" where
  "EarlyOutDirect userId shader st =
     (if Disabled st then (True, st)
      else if Veto st then (True, st)
      else if NotSelected st then (True, st)
      else if GroupB st then (True, st)
      else if DisableNetworkNext shader then (True, st\<lparr>Disabled := True\<rparr>)
      else if SelectionPercent shader = 0 then (True, st\<lparr>NotSelected := True\<rparr>)
      else if userId mod 100 \<ge> of_int (SelectionPercent shader) then (True, st\<lparr>NotSelected := True\<rparr>)
      else if ShaderABTest shader then
        (if userId mod 2 = 1 then (True, st\<lparr>ABTest := True, GroupB := True\<rparr>) else (False, st\<lparr>ABTest := True, GroupA := True\<rparr>))
      else (False, st))"

definition safe_costs :: "int list \<Rightarrow> int list" where
  "safe_costs sourceRelayCost = map (\<lambda>c. if c \<le> 0 then 255 else c) sourceRelayCost"

text \<open>What to look for: the highest cost that is acceptable, with -1 for none, and whether latency or packet loss is to be reduced.\<close>

definition acceptable_cost :: "RouteShader \<Rightarrow> int \<Rightarrow> rat \<Rightarrow> int \<times> bool \<times> bool" where
  "acceptable_cost shader directLatency directPacketLoss =
     (let (maxCost, reduceLatency) =
        (if directLatency > AcceptableLatency shader then (i32 (directLatency - LatencyReductionThreshold shader), True) else (-1, False))
      in if directPacketLoss > AcceptablePacketLoss shader then (i32 (directLatency + MaxLatencyTradeOff shader), reduceLatency, True)
         else (maxCost, reduceLatency, False))"

text \<open>A decision returns the route state, the source relay costs, which the caller shares, and the route.\<close>

definition take_best_route ::
  "(nat \<Rightarrow> nat) \<Rightarrow> RouteEntry list \<Rightarrow> RouteShader \<Rightarrow> RouteState \<Rightarrow> int list \<Rightarrow> int list \<Rightarrow> int list \<Rightarrow> int \<times> bool \<times> bool \<Rightarrow>
     (bool \<times> RouteState \<times> int list \<times> RouteOut) option" where
  "take_best_route pick routeMatrix shader st sourceRelays sourceRelayCost destRelays = (\<lambda>(maxCost, reduceLatency, reducePacketLoss).
     do {
       (hasRoute, out) \<leftarrow> GetBestRoute_Initial pick routeMatrix sourceRelays sourceRelayCost destRelays maxCost (RouteSelectThreshold shader) no_out;
       if \<not> hasRoute then Some (False, st, sourceRelayCost, out)
       else Some (True, st\<lparr>Next := True, ReduceLatency := ReduceLatency st \<or> reduceLatency,
                           ReducePacketLoss := ReducePacketLoss st \<or> reducePacketLoss\<rparr>, sourceRelayCost, out)
     })"

definition MakeRouteDecision_TakeNetworkNext ::
  "(nat \<Rightarrow> nat) \<Rightarrow> u64 \<Rightarrow> RouteEntry list \<Rightarrow> RouteShader \<Rightarrow> RouteState \<Rightarrow> int \<Rightarrow> rat \<Rightarrow> int list \<Rightarrow> int list \<Rightarrow> int list \<Rightarrow> RouteOut \<Rightarrow>
     int \<Rightarrow> (bool \<times> RouteState \<times> int list \<times> RouteOut) option" where
  "MakeRouteDecision_TakeNetworkNext pick userId routeMatrix shader st directLatency directPacketLoss sourceRelays sourceRelayCost
       destRelays out sliceNumber =
     (let (earlyOut, st) = EarlyOutDirect userId shader st
      in if earlyOut then Some (False, st, sourceRelayCost, out)
         else if ForceNext shader then
           take_best_route pick routeMatrix shader (st\<lparr>ForcedNext := True\<rparr>) sourceRelays sourceRelayCost destRelays (MaxInt32, False, False)
         else if sliceNumber = 0 then Some (False, st, safe_costs sourceRelayCost, out)
         else take_best_route pick routeMatrix shader st sourceRelays (safe_costs sourceRelayCost) destRelays
                (acceptable_cost shader directLatency directPacketLoss))"

text \<open>Whether to stay, and whether the route is another.\<close>

definition MakeRouteDecision_StayOnNetworkNext_Internal ::
  "(nat \<Rightarrow> nat) \<Rightarrow> u64 \<Rightarrow> RouteEntry list \<Rightarrow> RouteShader \<Rightarrow> RouteState \<Rightarrow> int \<Rightarrow> int \<Rightarrow> int list \<Rightarrow> int list \<Rightarrow> int list \<Rightarrow> int list \<Rightarrow> RouteOut \<Rightarrow>
     (bool \<times> bool \<times> RouteState \<times> int list \<times> RouteOut) option" where
  "MakeRouteDecision_StayOnNetworkNext_Internal pick userId routeMatrix shader st directLatency currentRouteNumRelays currentRouteRelays
       sourceRelays sourceRelayCost destRelays out =
     (let (earlyOut, st) = EarlyOutDirect userId shader st
      in if earlyOut then Some (False, False, st, sourceRelayCost, out)
         else do {
           let sourceRelayCost = safe_costs sourceRelayCost;
           let maxCost = (if ForceNext shader then MaxInt32
              else let maxCost = i32 (directLatency - LatencyReductionThreshold shader)
                   in if ReducePacketLoss st then i32 (maxCost + MaxLatencyTradeOff shader) else maxCost);
           (routeSwitched, routeLost, best) \<leftarrow> GetBestRoute_Update pick routeMatrix sourceRelays sourceRelayCost destRelays maxCost
              (RouteSelectThreshold shader) (RouteSwitchThreshold shader) currentRouteNumRelays currentRouteRelays no_out;
           let st = st\<lparr>RouteLost := routeLost\<rparr>;
           if OutRelays best = [] then Some (False, False, st\<lparr>NoRoute := True\<rparr>, sourceRelayCost, out)
           else Some (True, routeSwitched, st, sourceRelayCost, best)
         })"

definition MakeRouteDecision_StayOnNetworkNext ::
  "(nat \<Rightarrow> nat) \<Rightarrow> u64 \<Rightarrow> RouteEntry list \<Rightarrow> RouteShader \<Rightarrow> RouteState \<Rightarrow> int \<Rightarrow> int \<Rightarrow> int list \<Rightarrow> int list \<Rightarrow> int list \<Rightarrow> int list \<Rightarrow> RouteOut \<Rightarrow>
     (bool \<times> bool \<times> RouteState \<times> int list \<times> RouteOut) option" where
  "MakeRouteDecision_StayOnNetworkNext pick userId routeMatrix shader st directLatency currentRouteNumRelays currentRouteRelays
       sourceRelays sourceRelayCost destRelays out =
     do {
       (stay, routeSwitched, st, sourceRelayCost, out) \<leftarrow> MakeRouteDecision_StayOnNetworkNext_Internal pick userId routeMatrix shader st
          directLatency currentRouteNumRelays currentRouteRelays sourceRelays sourceRelayCost destRelays out;
       Some (stay, routeSwitched, if Next st \<and> \<not> stay then st\<lparr>Next := False, Veto := True\<rparr> else st, sourceRelayCost, out)
     }"

text \<open>\<open>GetSessionScore\<close>: lower is better. \<open>uint32\<close> of a negative number wraps.\<close>

definition GetSessionScore :: "int \<Rightarrow> int \<Rightarrow> u32" where
  "GetSessionScore directRTT nextRTT =
     (if nextRTT > 0 then
        let improvement = max (i32 (directRTT - nextRTT)) 0;
            improvement = (if improvement > 254 then 254 else improvement)
        in of_int (254 - improvement)
      else
        let directRTT = (if directRTT > 999 - 255 then 999 - 255 else directRTT);
            score = 255 + of_int (i32 (999 - 255 - directRTT)) :: u32
        in if score < 255 then 255 else if score > 999 then 999 else score)"

definition route_ok :: "nat \<Rightarrow> Route \<Rightarrow> bool" where
  "route_ok n r \<longleftrightarrow> 0 \<le> RouteCost r \<and> RouteCost r < 255 \<and> 2 \<le> length (RouteRelays r) \<and> length (RouteRelays r) \<le> 5 \<and>
     (\<forall>x \<in> set (RouteRelays r). 0 \<le> x \<and> x < int n)"

definition entry_routes :: "RouteEntry list \<Rightarrow> int \<Rightarrow> int \<Rightarrow> Route list" where
  "entry_routes m s d = (case matrix_entry m s d of None \<Rightarrow> [] | Some e \<Rightarrow> EntryRoutes e)"

text \<open>A route matrix of n relays, as the optimizer makes it.\<close>

definition matrix_ok :: "nat \<Rightarrow> RouteEntry list \<Rightarrow> bool" where
  "matrix_ok n m \<longleftrightarrow>
     length m = TriMatrixLength n \<and>
     (\<forall>i j. j < i \<longrightarrow> i < n \<longrightarrow>
        (let rs = EntryRoutes (m ! TriMatrixIndex i j)
         in sorted (map RouteCost rs) \<and>
            (\<forall>r \<in> set rs. route_ok n r \<and> hd (RouteRelays r) = int i \<and> last (RouteRelays r) = int j)))"

text \<open>The source relays that can be routed through and the destination relays are relays of the matrix.\<close>

definition sources_ok :: "nat \<Rightarrow> int list \<Rightarrow> int list \<Rightarrow> bool" where
  "sources_ok n ss cs \<longleftrightarrow>
     length ss \<le> length cs \<and> (\<forall>(s, c) \<in> set (zip ss cs). c < 255 \<longrightarrow> 0 \<le> s \<and> s < int n \<and> 0 \<le> c)"

definition dests_ok :: "nat \<Rightarrow> int list \<Rightarrow> bool" where
  "dests_ok n ds \<longleftrightarrow> (\<forall>d \<in> set ds. 0 \<le> d \<and> d < int n)"

text \<open>A way to the server: over a source relay that can be routed through and a route of the matrix to a destination relay.\<close>

definition way :: "RouteEntry list \<Rightarrow> int list \<Rightarrow> int list \<Rightarrow> int list \<Rightarrow> int \<Rightarrow> int \<Rightarrow> int \<Rightarrow> Route \<Rightarrow> bool" where
  "way m ss cs ds s c d r \<longleftrightarrow> (s, c) \<in> set (zip ss cs) \<and> c < 255 \<and> d \<in> set ds \<and> s \<noteq> d \<and> r \<in> set (entry_routes m s d)"

definition best_of :: "int \<Rightarrow> int \<Rightarrow> int \<Rightarrow> Route \<Rightarrow> BestRoute" where
  "best_of s c d r = \<lparr>BestCost = c + RouteCost r, BestPrice = RoutePrice r, BestRelays = RouteRelays r, NeedToReverse = s < d\<rparr>"

text \<open>What a loop adds to the buffer: of the routes it is to collect all, or as many as fit.\<close>

definition collected :: "nat \<Rightarrow> BestRoute set \<Rightarrow> BestRoute list \<Rightarrow> bool \<Rightarrow> BestRoute list \<Rightarrow> bool" where
  "collected N W acc full acc' \<longleftrightarrow>
     set acc \<subseteq> set acc' \<and> set acc' \<subseteq> set acc \<union> W \<and> (full \<longleftrightarrow> length acc' = N) \<and> length acc' \<le> N \<and> (\<not> full \<longrightarrow> W \<subseteq> set acc')"

definition ways_within :: "RouteEntry list \<Rightarrow> int list \<Rightarrow> int list \<Rightarrow> int list \<Rightarrow> int \<Rightarrow> BestRoute set" where
  "ways_within m ss cs ds maxCost = {best_of s c d r |s c d r. way m ss cs ds s c d r \<and> c + RouteCost r \<le> maxCost}"

text \<open>The interface of \<open>math_rand.Intn\<close>.\<close>

definition picks :: "(nat \<Rightarrow> nat) \<Rightarrow> bool" where
  "picks pick \<longleftrightarrow> (\<forall>n. 0 < n \<longrightarrow> pick n < n)"

text \<open>A route over a source relay, its path from there to a destination relay, at a cost that is within the threshold of the best
  one and of the highest acceptable one. Both are compared without the bias, which is part of the best cost and of the result.\<close>

definition selected_way :: "RouteEntry list \<Rightarrow> int list \<Rightarrow> int list \<Rightarrow> int list \<Rightarrow> int \<Rightarrow> int \<Rightarrow> RouteOut \<Rightarrow> bool" where
  "selected_way m ss cs ds maxCost threshold out \<longleftrightarrow>
     (\<exists>s c d r. way m ss cs ds s c d r \<and> OutCost out = c + RouteCost r + CostBias \<and>
        OutRelays out = (if s < d then rev (RouteRelays r) else RouteRelays r) \<and>
        hd (OutRelays out) = s \<and> last (OutRelays out) = d \<and> 2 \<le> length (OutRelays out) \<and> length (OutRelays out) \<le> 5 \<and>
        c + RouteCost r \<le> maxCost + threshold \<and>
        (\<forall>s' c' d' r'. way m ss cs ds s' c' d' r' \<longrightarrow> c + RouteCost r \<le> c' + RouteCost r' + CostBias + threshold))"

text \<open>The threshold is a small number: its sum with the best cost does not wrap.\<close>

definition small :: "int \<Rightarrow> bool" where
  "small x \<longleftrightarrow> 0 \<le> x \<and> x \<le> 1000000000"

text \<open>The relays of the current route, in the order of the matrix.\<close>

definition oriented :: "int list \<Rightarrow> int list" where
  "oriented relays = (if hd relays < last relays then rev relays else relays)"

text \<open>The cost of the current route: -1 when it is not there any more, otherwise that of a route of the same hash and length.\<close>

definition current_way :: "RouteEntry list \<Rightarrow> int list \<Rightarrow> int list \<Rightarrow> int list \<Rightarrow> int \<Rightarrow> bool" where
  "current_way m ss cs relays cost \<longleftrightarrow>
     (\<exists>c r. (hd relays, c) \<in> set (zip ss cs) \<and> c < 255 \<and> hd relays \<noteq> last relays \<and>
        r \<in> set (entry_routes m (hd relays) (last relays)) \<and> RouteHashes r = RouteHash (oriented relays) \<and>
        length (RouteRelays r) = length relays \<and> cost = c + RouteCost r + CostBias)"

text \<open>States in which a session goes direct for good.\<close>

definition blocked :: "RouteState \<Rightarrow> bool" where
  "blocked st \<longleftrightarrow> Disabled st \<or> Veto st \<or> NotSelected st \<or> GroupB st"

text \<open>The settings are small numbers, and so is a latency.\<close>

definition shader_ok :: "RouteShader \<Rightarrow> bool" where
  "shader_ok shader \<longleftrightarrow> small (LatencyReductionThreshold shader) \<and> small (RouteSelectThreshold shader) \<and>
     small (RouteSwitchThreshold shader) \<and> small (MaxLatencyTradeOff shader)"

definition wanted_cost :: "RouteShader \<Rightarrow> int \<Rightarrow> rat \<Rightarrow> int" where
  "wanted_cost shader directLatency directPacketLoss =
     (if directPacketLoss > AcceptablePacketLoss shader then directLatency + MaxLatencyTradeOff shader
      else directLatency - LatencyReductionThreshold shader)"

text \<open>A route from a client: it starts at a relay the client can be routed through, ends at a destination relay, passes no relay
  twice, and its cost is the round trip time to the first relay, the links on the way, and the bias.\<close>

definition client_path :: "nat \<Rightarrow> u8 list \<Rightarrow> int list \<Rightarrow> int list \<Rightarrow> int list \<Rightarrow> RouteOut \<Rightarrow> bool" where
  "client_path n cost ss cs ds out \<longleftrightarrow>
     (\<exists>path c. OutRelays out = map int path \<and> distinct path \<and> set path \<subseteq> {..<n} \<and> 2 \<le> length path \<and> length path \<le> 5 \<and>
        (int (hd path), c) \<in> set (zip ss cs) \<and> c < 255 \<and> int (last path) \<in> set ds \<and>
        OutCost out = c + int (path_cost cost path) + CostBias)"

definition fresh_state :: RouteState where
  "fresh_state = \<lparr>Next = False, Veto = False, Disabled = False, NotSelected = False, ABTest = False, GroupA = False, GroupB = False,
     ForcedNext = False, ReduceLatency = False, ReducePacketLoss = False, RouteLost = False, NoRoute = False\<rparr>"

text \<open>\<open>DoPagination\<close>, \<open>DoPagination_Simple\<close>: the range of entries of a page, the page shown and the number of pages. Go's division and
  remainder of a length, which is not negative, are \<open>div\<close> and \<open>mod\<close>.\<close>

definition DoPagination :: "int \<Rightarrow> int \<Rightarrow> int \<times> int \<times> int \<times> int" where
  "DoPagination page len =
     (let numPages = (if len mod 100 \<noteq> 0 then len div 100 + 1 else len div 100)
      in if len > 100 then
           if page > 0 then
             let first = page * 100; final = (page + 1) * 100
             in if final > len then (len - 100, len, -1, numPages) else (first, final, page, numPages)
           else if page < 0 then
             let final = len - (- page) * 100; first = final - 100
             in if first < 0 then (0, 100, 0, numPages) else (first, final, page, numPages)
           else (0, 100, page, numPages)
         else (0, len, 0, numPages))"

definition DoPagination_Simple :: "int \<Rightarrow> int \<Rightarrow> int \<times> int \<times> int \<times> int" where
  "DoPagination_Simple page len =
     (let numPages = (if len mod 100 \<noteq> 0 then len div 100 + 1 else len div 100);
          numPages = (if numPages < 1 then 1 else numPages);
          page = (if page < 0 then 0 else page);
          page = (if page > numPages - 1 then numPages - 1 else page)
      in (page * 100, min ((page + 1) * 100) len, page, numPages))"

section \<open>Lemmas\<close>

declare reverse_loop.simps [simp del]

section \<open>Route entries\<close>

lemma i32_id [simp]: "-2147483648 \<le> x \<Longrightarrow> x < 2147483648 \<Longrightarrow> i32 x = x"
  by (simp add: i32_def)

lemma i32_range: "-2147483648 \<le> i32 x" "i32 x < 2147483648"
  using pos_mod_bound [of 4294967296 "x + 2147483648"] pos_mod_sign [of 4294967296 "x + 2147483648"] by (auto simp: i32_def)

lemma signed_index_nat: "signed_index (int i) (int j) = int (TriMatrixIndex i j)"
proof -
  have le: "k \<le> k * (k + 1) div 2" for k :: nat by (cases k) auto
  have d: "int k * (int k + 1) div 2 = int (k * (k + 1) div 2)" for k :: nat by (simp add: zdiv_int algebra_simps)
  show ?thesis using le [of i] le [of j] by (simp add: signed_index_def TriMatrixIndex_def d of_nat_diff)
qed

lemma signed_index_sym: "signed_index i j = signed_index j i"
  by (auto simp: signed_index_def)

lemma matrix_entry_cases:
  assumes "matrix_ok n m" "0 \<le> s" "s < int n" "0 \<le> d" "d < int n" "s \<noteq> d"
  shows "\<exists>e. matrix_entry m s d = Some e \<and> sorted (map RouteCost (EntryRoutes e)) \<and>
    (\<forall>r \<in> set (EntryRoutes e). route_ok n r \<and> hd (RouteRelays r) = max s d \<and> last (RouteRelays r) = min s d)"
proof -
  let ?i = "nat (max s d)" and ?j = "nat (min s d)"
  have ij: "?j < ?i" "?i < n" "max s d = int ?i" "min s d = int ?j" using assms by auto
  have "signed_index s d = int (TriMatrixIndex ?i ?j)"
    using signed_index_nat [of ?i ?j] signed_index_sym [of s d] ij(3,4) by (cases "s < d") (auto simp: max_def min_def)
  moreover have "TriMatrixIndex ?i ?j < length m" using TriMatrixIndex_less [OF ij(1,2)] assms(1) by (simp add: matrix_ok_def)
  ultimately have "matrix_entry m s d = Some (m ! TriMatrixIndex ?i ?j)" by (simp add: matrix_entry_def element_def)
  then show ?thesis using assms(1) ij unfolding matrix_ok_def Let_def by (metis (no_types, lifting))
qed

lemma entry_routes_ok:
  assumes "matrix_ok n m" "0 \<le> s" "s < int n" "0 \<le> d" "d < int n" "s \<noteq> d"
  shows "matrix_entry m s d \<noteq> None" "sorted (map RouteCost (entry_routes m s d))"
    "r \<in> set (entry_routes m s d) \<Longrightarrow> route_ok n r \<and> hd (RouteRelays r) = max s d \<and> last (RouteRelays r) = min s d"
  using matrix_entry_cases [OF assms] by (auto simp: entry_routes_def)

section \<open>The cost of the best route\<close>

lemma best_to_dests_spec:
  assumes m: "matrix_ok n m" and s: "0 \<le> s" "s < int n" "0 \<le> c" "c < 255" and ds: "dests_ok n ds"
  shows "\<exists>b. best_to_dests m s c ds best = Some b \<and> b \<le> best \<and>
    (\<forall>d \<in> set ds. s \<noteq> d \<longrightarrow> (\<forall>r \<in> set (entry_routes m s d). b \<le> c + RouteCost r)) \<and>
    (b = best \<or> (\<exists>d \<in> set ds. s \<noteq> d \<and> (\<exists>r \<in> set (entry_routes m s d). b = c + RouteCost r)))"
  using ds
proof (induction ds arbitrary: best)
  case Nil
  then show ?case by simp
next
  case (Cons d ds)
  have ds': "dests_ok n ds" and d: "0 \<le> d" "d < int n" using Cons.prems by (auto simp: dests_ok_def)
  show ?case
  proof (cases "s = d")
    case True
    then show ?thesis using Cons.IH [OF ds', of best] by auto
  next
    case False
    obtain e where e: "matrix_entry m s d = Some e" and so: "sorted (map RouteCost (EntryRoutes e))"
      and ok: "\<forall>r \<in> set (EntryRoutes e). route_ok n r"
      using matrix_entry_cases [OF m s(1,2) d False] by blast
    have er: "entry_routes m s d = EntryRoutes e" using e by (simp add: entry_routes_def)
    show ?thesis
    proof (cases "EntryRoutes e")
      case Nil
      then show ?thesis using Cons.IH [OF ds', of best] False e er by (auto simp: Let_def)
    next
      case (Cons r rs)
      have r: "0 \<le> RouteCost r" "RouteCost r < 255" using ok Cons by (auto simp: route_ok_def)
      then have i: "i32 (c + RouteCost r) = c + RouteCost r" using s by simp
      have le: "\<forall>x \<in> set (EntryRoutes e). RouteCost r \<le> RouteCost x" using so Cons by auto
      define best' where "best' = (if c + RouteCost r < best then c + RouteCost r else best)"
      have st: "best_to_dests m s c (d # ds) best = best_to_dests m s c ds best'"
        using False e Cons i by (simp add: best'_def Let_def)
      obtain b where b: "best_to_dests m s c ds best' = Some b" "b \<le> best'"
        "\<forall>d \<in> set ds. s \<noteq> d \<longrightarrow> (\<forall>r \<in> set (entry_routes m s d). b \<le> c + RouteCost r)"
        "b = best' \<or> (\<exists>d \<in> set ds. s \<noteq> d \<and> (\<exists>r \<in> set (entry_routes m s d). b = c + RouteCost r))"
        using Cons.IH [OF ds', of best'] by blast
      have b': "b \<le> best" "b \<le> c + RouteCost r" using b(2) by (auto simp: best'_def split: if_splits)
      have "\<forall>x \<in> set (entry_routes m s d). b \<le> c + RouteCost x" using le b'(2) er by fastforce
      moreover have "best' = best \<or> best' = c + RouteCost r \<and> r \<in> set (entry_routes m s d)" using er Cons by (simp add: best'_def)
      ultimately show ?thesis using b b'(1) st False by (metis list.set_intros(1,2) set_ConsD)
    qed
  qed
qed

lemma sources_ok_Cons:
  "sources_ok n (s # ss) (c # cs) \<longleftrightarrow> (c < 255 \<longrightarrow> 0 \<le> s \<and> s < int n \<and> 0 \<le> c) \<and> sources_ok n ss cs"
  "\<not> sources_ok n (s # ss) []"
  by (auto simp: sources_ok_def)

lemma way_Cons: "way m (s # ss) (c # cs) ds s' c' d r \<longleftrightarrow>
    s' = s \<and> c' = c \<and> c < 255 \<and> d \<in> set ds \<and> s \<noteq> d \<and> r \<in> set (entry_routes m s d) \<or> way m ss cs ds s' c' d r"
  "\<not> way m [] cs ds s' c' d r"
  by (auto simp: way_def)

lemma best_from_sources_spec:
  assumes m: "matrix_ok n m" and ss: "sources_ok n ss cs" and ds: "dests_ok n ds"
  shows "\<exists>b. best_from_sources m ss cs ds best = Some b \<and> b \<le> best \<and>
    (\<forall>s c d r. way m ss cs ds s c d r \<longrightarrow> b \<le> c + RouteCost r) \<and>
    (b = best \<or> (\<exists>s c d r. way m ss cs ds s c d r \<and> b = c + RouteCost r))"
  using ss
proof (induction ss arbitrary: cs best)
  case Nil
  then show ?case by (simp add: way_Cons)
next
  case (Cons s ss cs0)
  then obtain c cs where cs0: "cs0 = c # cs" by (cases cs0) (auto simp: sources_ok_Cons)
  have ss': "sources_ok n ss cs" using Cons.prems by (simp add: cs0 sources_ok_Cons)
  show ?case
  proof (cases "c \<ge> 255")
    case True
    then show ?thesis using Cons.IH [OF ss', of best] by (simp add: cs0 way_Cons)
  next
    case False
    then have s: "0 \<le> s" "s < int n" "0 \<le> c" "c < 255" using Cons.prems by (auto simp: cs0 sources_ok_Cons)
    obtain b where b: "best_to_dests m s c ds best = Some b" "b \<le> best"
      "\<forall>d \<in> set ds. s \<noteq> d \<longrightarrow> (\<forall>r \<in> set (entry_routes m s d). b \<le> c + RouteCost r)"
      "b = best \<or> (\<exists>d \<in> set ds. s \<noteq> d \<and> (\<exists>r \<in> set (entry_routes m s d). b = c + RouteCost r))"
      using best_to_dests_spec [OF m s ds, of best] by blast
    obtain b' where b': "best_from_sources m ss cs ds b = Some b'" "b' \<le> b"
      "\<forall>s c d r. way m ss cs ds s c d r \<longrightarrow> b' \<le> c + RouteCost r"
      "b' = b \<or> (\<exists>s c d r. way m ss cs ds s c d r \<and> b' = c + RouteCost r)"
      using Cons.IH [OF ss', of b] by blast
    have "best_from_sources m (s # ss) cs0 ds best = Some b'" using False b(1) b'(1) by (simp add: cs0)
    moreover have "b' \<le> best" using b(2) b'(2) by simp
    moreover have "\<forall>s' c' d r. way m (s # ss) cs0 ds s' c' d r \<longrightarrow> b' \<le> c' + RouteCost r"
      using b(3) b'(2,3) unfolding cs0 way_Cons by (meson order_trans)
    moreover have "b' = best \<or> (\<exists>s' c' d r. way m (s # ss) cs0 ds s' c' d r \<and> b' = c' + RouteCost r)"
      using b(4) b'(4) s(4) unfolding cs0 way_Cons by metis
    ultimately show ?thesis by blast
  qed
qed

text \<open>\<open>GetBestRouteCost\<close> is the least cost of all ways, plus the bias.\<close>

lemma matrix_empty: "matrix_ok n [] \<Longrightarrow> sources_ok n ss cs \<Longrightarrow> dests_ok n ds \<Longrightarrow> \<not> way [] ss cs ds s c d r"
  by (auto simp: way_def entry_routes_def matrix_entry_def element_def)

lemma GetBestRouteCost_spec:
  assumes m: "matrix_ok n m" and ss: "sources_ok n ss cs" and ds: "dests_ok n ds"
  shows "(\<forall>s c d r. \<not> way m ss cs ds s c d r) \<and> GetBestRouteCost m ss cs ds = Some MaxInt32 \<or>
    (\<exists>b. GetBestRouteCost m ss cs ds = Some (b + CostBias) \<and> 0 \<le> b \<and> b < 510 \<and>
      (\<exists>s c d r. way m ss cs ds s c d r \<and> b = c + RouteCost r) \<and>
      (\<forall>s c d r. way m ss cs ds s c d r \<longrightarrow> b \<le> c + RouteCost r))"
proof (cases "m = []")
  case True
  then show ?thesis using matrix_empty [of n ss cs ds] m ss ds by (simp add: GetBestRouteCost_def)
next
  case False
  obtain b where b: "best_from_sources m ss cs ds MaxInt32 = Some b" "b \<le> MaxInt32"
      "\<forall>s c d r. way m ss cs ds s c d r \<longrightarrow> b \<le> c + RouteCost r"
      "b = MaxInt32 \<or> (\<exists>s c d r. way m ss cs ds s c d r \<and> b = c + RouteCost r)"
    using best_from_sources_spec [OF m ss ds, of MaxInt32] by blast
  have range: "0 \<le> c + RouteCost r \<and> c + RouteCost r < 510" if "way m ss cs ds s c d r" for s c d r
  proof -
    have "0 \<le> s \<and> s < int n \<and> 0 \<le> c \<and> c < 255" "0 \<le> d \<and> d < int n" "s \<noteq> d" "r \<in> set (entry_routes m s d)"
      using that ss ds by (auto simp: way_def sources_ok_def dests_ok_def)
    then show ?thesis using entry_routes_ok(3) [OF m, of s d r] by (auto simp: route_ok_def)
  qed
  show ?thesis
  proof (cases "b = MaxInt32")
    case True
    then have "\<not> way m ss cs ds s c d r" for s c d r using b(3) range by fastforce
    then show ?thesis using b(1) False True by (simp add: GetBestRouteCost_def)
  next
    case n: False
    then obtain s c d r where w: "way m ss cs ds s c d r" "b = c + RouteCost r" using b(4) by blast
    then have "0 \<le> b" "b < 510" using range by auto
    moreover from this have "GetBestRouteCost m ss cs ds = Some (b + CostBias)"
      using b(1) False n by (simp add: GetBestRouteCost_def)
    ultimately show ?thesis using w b(3) by blast
  qed
qed

section \<open>The routes close to the best\<close>

lemma collected_none: "length acc < N \<Longrightarrow> W = {} \<Longrightarrow> collected N W acc False acc"
  by (auto simp: collected_def)

lemma collected_full: "collected N V acc True acc' \<Longrightarrow> V \<subseteq> W \<Longrightarrow> collected N W acc True acc'"
  by (auto simp: collected_def)

lemma collected_room: "collected N W acc False acc' \<Longrightarrow> length acc' < N"
  by (auto simp: collected_def)

lemma collected_trans: "collected N V acc False acc1 \<Longrightarrow> collected N W acc1 full acc2 \<Longrightarrow> collected N (V \<union> W) acc full acc2"
  unfolding collected_def by blast

lemma routes_of_entry_spec:
  assumes "length acc < N" "0 \<le> c" "c < 255" "\<forall>r \<in> set rs. route_ok n r" "sorted (map RouteCost rs)"
  shows "\<exists>full acc'. routes_of_entry maxCost N c (s < d) rs acc = Some (full, acc') \<and>
    collected N {best_of s c d r |r. r \<in> set rs \<and> c + RouteCost r \<le> maxCost} acc full acc'"
  using assms
proof (induction rs arbitrary: acc)
  case Nil
  then show ?case by (auto intro: collected_none)
next
  case (Cons r rs)
  let ?W = "\<lambda>rs. {best_of s c d r |r. r \<in> set rs \<and> c + RouteCost r \<le> maxCost}"
  have r: "0 \<le> RouteCost r" "RouteCost r < 255" using Cons.prems by (auto simp: route_ok_def)
  then have i: "i32 (RouteCost r + c) = c + RouteCost r" using Cons.prems by simp
  show ?case
  proof (cases "c + RouteCost r > maxCost")
    case True
    have "?W (r # rs) = {}" using True Cons.prems(5) by fastforce
    then show ?thesis using True i Cons.prems(1) by (auto simp: Let_def intro: collected_none)
  next
    case False
    let ?acc = "acc @ [best_of s c d r]"
    have b: "\<lparr>BestCost = c + RouteCost r, BestPrice = RoutePrice r, BestRelays = RouteRelays r, NeedToReverse = s < d\<rparr> = best_of s c d r"
      by (simp add: best_of_def)
    have st: "routes_of_entry maxCost N c (s < d) (r # rs) acc =
      (if length ?acc = N then Some (True, ?acc) else routes_of_entry maxCost N c (s < d) rs ?acc)"
      using False i Cons.prems(1) by (simp add: Let_def b)
    have w: "?W (r # rs) = insert (best_of s c d r) (?W rs)" using False by auto
    show ?thesis
    proof (cases "length ?acc = N")
      case True
      then show ?thesis unfolding st w by (auto simp: collected_def)
    next
      case n: False
      then obtain full acc' where a: "routes_of_entry maxCost N c (s < d) rs ?acc = Some (full, acc')" "collected N (?W rs) ?acc full acc'"
        using Cons.IH [of ?acc] Cons.prems by auto
      have "collected N {best_of s c d r} acc False ?acc" using n Cons.prems(1) by (auto simp: collected_def)
      then have "collected N (?W (r # rs)) acc full acc'" using collected_trans a(2) unfolding w by fastforce
      then show ?thesis using a(1) st n by simp
    qed
  qed
qed

lemma routes_to_dests_spec:
  assumes m: "matrix_ok n m" and s: "0 \<le> s" "s < int n" "0 \<le> c" "c < 255" and ds: "dests_ok n ds" and acc: "length acc < N"
  shows "\<exists>full acc'. routes_to_dests m maxCost N s c ds acc = Some (full, acc') \<and>
    collected N {best_of s c d r |d r. d \<in> set ds \<and> s \<noteq> d \<and> r \<in> set (entry_routes m s d) \<and> c + RouteCost r \<le> maxCost} acc full acc'"
  using ds acc
proof (induction ds arbitrary: acc)
  case Nil
  then show ?case by (auto intro: collected_none)
next
  case (Cons d ds)
  let ?W = "\<lambda>ds. {best_of s c d r |d r. d \<in> set ds \<and> s \<noteq> d \<and> r \<in> set (entry_routes m s d) \<and> c + RouteCost r \<le> maxCost}"
  have ds': "dests_ok n ds" and d: "0 \<le> d" "d < int n" using Cons.prems by (auto simp: dests_ok_def)
  show ?case
  proof (cases "s = d")
    case True
    then have "?W (d # ds) = ?W ds" by auto
    then show ?thesis using Cons.IH [OF ds' Cons.prems(2)] True by simp
  next
    case False
    let ?V = "{best_of s c d r |r. r \<in> set (entry_routes m s d) \<and> c + RouteCost r \<le> maxCost}"
    have w: "?W (d # ds) = ?V \<union> ?W ds" using False by auto
    obtain e where e: "matrix_entry m s d = Some e" "entry_routes m s d = EntryRoutes e"
      using entry_routes_ok(1) [OF m s(1,2) d False] by (auto simp: entry_routes_def)
    have "\<forall>r \<in> set (EntryRoutes e). route_ok n r" "sorted (map RouteCost (EntryRoutes e))"
      using entry_routes_ok(2,3) [OF m s(1,2) d False] e(2) by auto
    then obtain full acc1 where
      a: "routes_of_entry maxCost N c (s < d) (EntryRoutes e) acc = Some (full, acc1)" "collected N ?V acc full acc1"
      using routes_of_entry_spec [OF Cons.prems(2) s(3,4)] unfolding e(2) by blast
    show ?thesis
    proof (cases full)
      case True
      then have "collected N (?W (d # ds)) acc True acc1" using collected_full [of N ?V acc acc1 "?W (d # ds)"] a(2) w by auto
      then show ?thesis using True False e a(1) by (intro exI [of _ True] exI [of _ acc1]) simp
    next
      case n: False
      then have room: "length acc1 < N" using collected_room a(2) by simp
      obtain full2 acc2 where b: "routes_to_dests m maxCost N s c ds acc1 = Some (full2, acc2)" "collected N (?W ds) acc1 full2 acc2"
        using Cons.IH [OF ds' room] by blast
      have "collected N (?W (d # ds)) acc full2 acc2" using collected_trans [of N ?V acc acc1] a(2) b(2) n unfolding w by simp
      then show ?thesis using n False e a(1) b(1) by simp
    qed
  qed
qed

lemma routes_from_sources_spec:
  assumes m: "matrix_ok n m" and ss: "sources_ok n ss cs" and ds: "dests_ok n ds" and acc: "length acc < N"
  shows "\<exists>full acc'. routes_from_sources m maxCost N ss cs ds acc = Some (full, acc') \<and>
    collected N (ways_within m ss cs ds maxCost) acc full acc'"
  using ss acc
proof (induction ss arbitrary: cs acc)
  case Nil
  then show ?case by (auto simp: ways_within_def way_Cons intro: collected_none)
next
  case (Cons s ss cs0)
  then obtain c cs where cs0: "cs0 = c # cs" by (cases cs0) (auto simp: sources_ok_Cons)
  have ss': "sources_ok n ss cs" using Cons.prems by (simp add: cs0 sources_ok_Cons)
  show ?case
  proof (cases "c \<ge> 255")
    case True
    then have "ways_within m (s # ss) cs0 ds maxCost = ways_within m ss cs ds maxCost" by (simp add: ways_within_def cs0 way_Cons)
    then show ?thesis using Cons.IH [OF ss' Cons.prems(2)] True by (simp add: cs0)
  next
    case False
    then have s: "0 \<le> s" "s < int n" "0 \<le> c" "c < 255" using Cons.prems by (auto simp: cs0 sources_ok_Cons)
    let ?V = "{best_of s c d r |d r. d \<in> set ds \<and> s \<noteq> d \<and> r \<in> set (entry_routes m s d) \<and> c + RouteCost r \<le> maxCost}"
    have w: "ways_within m (s # ss) cs0 ds maxCost = ?V \<union> ways_within m ss cs ds maxCost"
      using s(4) unfolding ways_within_def cs0 way_Cons by blast
    obtain full acc1 where a: "routes_to_dests m maxCost N s c ds acc = Some (full, acc1)" "collected N ?V acc full acc1"
      using routes_to_dests_spec [OF m s ds Cons.prems(2)] by blast
    show ?thesis
    proof (cases full)
      case True
      then have "collected N (ways_within m (s # ss) cs0 ds maxCost) acc True acc1"
        using collected_full [of N ?V acc acc1] a(2) unfolding w by simp
      then show ?thesis using True False a(1) by (intro exI [of _ True] exI [of _ acc1]) (simp add: cs0)
    next
      case n: False
      then have room: "length acc1 < N" using collected_room a(2) by simp
      obtain full2 acc2 where b: "routes_from_sources m maxCost N ss cs ds acc1 = Some (full2, acc2)"
        "collected N (ways_within m ss cs ds maxCost) acc1 full2 acc2"
        using Cons.IH [OF ss' room] by blast
      have "collected N (ways_within m (s # ss) cs0 ds maxCost) acc full2 acc2"
        using collected_trans [of N ?V acc acc1] a(2) b(2) n unfolding w by simp
      then show ?thesis using n False a(1) b(1) by (simp add: cs0)
    qed
  qed
qed

lemma GetBestRoutes_spec:
  assumes m: "matrix_ok n m" and ss: "sources_ok n ss cs" and ds: "dests_ok n ds" and N: "0 < N"
  shows "\<exists>rs. GetBestRoutes m ss cs ds maxCost N = Some rs \<and> set rs \<subseteq> ways_within m ss cs ds maxCost \<and> length rs \<le> N \<and>
    (length rs < N \<longrightarrow> set rs = ways_within m ss cs ds maxCost) \<and> (ways_within m ss cs ds maxCost \<noteq> {} \<longrightarrow> rs \<noteq> [])"
proof (cases "m = []")
  case True
  then have "ways_within m ss cs ds maxCost = {}" using matrix_empty m ss ds by (auto simp: ways_within_def)
  then show ?thesis using True by (simp add: GetBestRoutes_def)
next
  case False
  obtain full rs where "routes_from_sources m maxCost N ss cs ds [] = Some (full, rs)"
    "collected N (ways_within m ss cs ds maxCost) [] full rs"
    using routes_from_sources_spec [OF m ss ds, of "[]" N maxCost] N by auto
  then show ?thesis using False N unfolding collected_def GetBestRoutes_def by fastforce
qed

section \<open>The selected route\<close>

lemma way_range:
  assumes m: "matrix_ok n m" and ss: "sources_ok n ss cs" and ds: "dests_ok n ds" and w: "way m ss cs ds s c d r"
  shows "0 \<le> c" "c < 255" "0 \<le> RouteCost r" "RouteCost r < 255" "s \<noteq> d" "2 \<le> length (RouteRelays r)" "length (RouteRelays r) \<le> 5"
    "hd (RouteRelays r) = max s d" "last (RouteRelays r) = min s d" "\<forall>x \<in> set (RouteRelays r). 0 \<le> x \<and> x < int n"
proof -
  have a: "0 \<le> s" "s < int n" "0 \<le> d" "d < int n" "s \<noteq> d" "r \<in> set (entry_routes m s d)" and c: "0 \<le> c" "c < 255"
    using w ss ds by (auto simp: way_def sources_ok_def dests_ok_def)
  then show "0 \<le> c" "c < 255" "0 \<le> RouteCost r" "RouteCost r < 255" "s \<noteq> d" "2 \<le> length (RouteRelays r)" "length (RouteRelays r) \<le> 5"
    "hd (RouteRelays r) = max s d" "last (RouteRelays r) = min s d" "\<forall>x \<in> set (RouteRelays r). 0 \<le> x \<and> x < int n"
    using entry_routes_ok(3) [OF m a] by (simp_all add: route_ok_def)
qed

lemma chosen_way:
  assumes ok: "matrix_ok n m" "sources_ok n ss cs" "dests_ok n ds" and w: "way m ss cs ds s c d r"
  shows "OutCost (chosen_route (best_of s c d r)) = c + RouteCost r + CostBias"
    "OutRelays (chosen_route (best_of s c d r)) = (if s < d then rev (RouteRelays r) else RouteRelays r)"
    "hd (OutRelays (chosen_route (best_of s c d r))) = s" "last (OutRelays (chosen_route (best_of s c d r))) = d"
    "2 \<le> length (OutRelays (chosen_route (best_of s c d r)))" "length (OutRelays (chosen_route (best_of s c d r))) \<le> 5"
  using way_range [OF ok w] by (auto simp: chosen_route_def best_of_def hd_rev last_rev)

text \<open>With a best cost of \<open>b\<close> plus the bias, the routes collected for the threshold.\<close>

lemma within_selected:
  assumes ok: "matrix_ok n m" "sources_ok n ss cs" "dests_ok n ds"
    and x: "x \<in> ways_within m ss cs ds (b + CostBias + threshold)" and b: "b + CostBias \<le> maxCost"
    and least: "\<forall>s c d r. way m ss cs ds s c d r \<longrightarrow> b \<le> c + RouteCost r"
  shows "selected_way m ss cs ds maxCost threshold (chosen_route x)"
proof -
  obtain s c d r where w: "way m ss cs ds s c d r" "c + RouteCost r \<le> b + CostBias + threshold" "x = best_of s c d r"
    using x by (auto simp: ways_within_def)
  have "\<forall>s' c' d' r'. way m ss cs ds s' c' d' r' \<longrightarrow> c + RouteCost r \<le> c' + RouteCost r' + CostBias + threshold"
    using least w(2) by fastforce
  then show ?thesis
    using w(1,2) b chosen_way [OF ok w(1)] unfolding selected_way_def w(3)
    by (intro exI [of _ s] exI [of _ c] exI [of _ d] exI [of _ r]) simp
qed

lemma lowest_price_fold:
  assumes "fold lowest_price_step rs (1000000, []) = (p, fs)"
  shows "p \<le> 1000000" "\<forall>r \<in> set rs. p \<le> BestPrice r" "fs = filter (\<lambda>r. BestPrice r = p) rs" "p < 1000000 \<Longrightarrow> fs \<noteq> []"
proof -
  have "p \<le> 1000000 \<and> (\<forall>r \<in> set rs. p \<le> BestPrice r) \<and> fs = filter (\<lambda>r. BestPrice r = p) rs \<and> (p < 1000000 \<longrightarrow> fs \<noteq> [])"
    using assms
  proof (induction rs arbitrary: p fs rule: rev_induct)
    case Nil
    then show ?case by simp
  next
    case (snoc r rs)
    obtain q gs where q: "fold lowest_price_step rs (1000000, []) = (q, gs)" by fastforce
    have IH: "q \<le> 1000000" "\<forall>r \<in> set rs. q \<le> BestPrice r" "gs = filter (\<lambda>r. BestPrice r = q) rs" "q < 1000000 \<longrightarrow> gs \<noteq> []"
      using snoc.IH [OF q] by auto
    have st: "(p, fs) = lowest_price_step r (q, gs)" using snoc.prems q by simp
    show ?case
    proof (cases "BestPrice r < q")
      case True
      then have "filter (\<lambda>x. BestPrice x = BestPrice r) rs = []" using IH(2) by (auto simp: filter_empty_conv)
      then show ?thesis using True st IH by (auto simp: lowest_price_step_def)
    next
      case False
      then have "p = q" "fs = (if BestPrice r = q then gs @ [r] else gs)" using st by (auto simp: lowest_price_step_def split: if_splits)
      then show ?thesis using False IH by auto
    qed
  qed
  then show "p \<le> 1000000" "\<forall>r \<in> set rs. p \<le> BestPrice r" "fs = filter (\<lambda>r. BestPrice r = p) rs" "p < 1000000 \<Longrightarrow> fs \<noteq> []" by auto
qed

lemma GetRandomBestRoute_spec:
  assumes ok: "matrix_ok n m" "sources_ok n ss cs" "dests_ok n ds" and p: "picks pick" and t: "small threshold"
  shows "\<exists>found out'. GetRandomBestRoute pick m ss cs ds maxCost threshold out = Some (found, out') \<and>
    (found \<longrightarrow> selected_way m ss cs ds maxCost threshold out') \<and> (\<not> found \<longrightarrow> OutRelays out' = OutRelays out) \<and>
    (found \<longleftrightarrow> maxCost \<noteq> -1 \<and> (\<exists>s c d r. way m ss cs ds s c d r \<and> c + RouteCost r + CostBias \<le> maxCost))"
  using GetBestRouteCost_spec [OF ok]
proof (elim disjE conjE exE)
  assume none: "\<forall>s c d r. \<not> way m ss cs ds s c d r" and g: "GetBestRouteCost m ss cs ds = Some MaxInt32"
  obtain rs where "GetBestRoutes m ss cs ds (i32 (MaxInt32 + threshold)) 1024 = Some rs"
    "set rs \<subseteq> ways_within m ss cs ds (i32 (MaxInt32 + threshold))"
    using GetBestRoutes_spec [OF ok, of 1024 "i32 (MaxInt32 + threshold)"] by auto
  then show ?thesis using none g by (auto simp: GetRandomBestRoute_def ways_within_def)
next
  fix b s c d r
  assume g: "GetBestRouteCost m ss cs ds = Some (b + CostBias)" and b: "0 \<le> b" "b < 510"
    and w: "way m ss cs ds s c d r" "b = c + RouteCost r" and least: "\<forall>s c d r. way m ss cs ds s c d r \<longrightarrow> b \<le> c + RouteCost r"
  have i: "i32 (b + CostBias + threshold) = b + CostBias + threshold" using b t by (simp add: small_def)
  obtain rs where rs: "GetBestRoutes m ss cs ds (b + CostBias + threshold) 1024 = Some rs"
    "set rs \<subseteq> ways_within m ss cs ds (b + CostBias + threshold)" "ways_within m ss cs ds (b + CostBias + threshold) \<noteq> {} \<longrightarrow> rs \<noteq> []"
    using GetBestRoutes_spec [OF ok, of 1024 "b + CostBias + threshold"] by auto
  have "best_of s c d r \<in> ways_within m ss cs ds (b + CostBias + threshold)"
    using w t unfolding ways_within_def small_def by fastforce
  then have ne: "rs \<noteq> []" using rs(3) by auto
  show ?thesis
  proof (cases "maxCost = -1 \<or> maxCost < b + CostBias")
    case True
    moreover have "\<not> (maxCost \<noteq> -1 \<and> (\<exists>s c d r. way m ss cs ds s c d r \<and> c + RouteCost r + CostBias \<le> maxCost))"
      using True least by fastforce
    ultimately show ?thesis using g by (auto simp: GetRandomBestRoute_def)
  next
    case False
    have "rs ! pick (length rs) \<in> ways_within m ss cs ds (b + CostBias + threshold)"
      using p ne rs(2) by (auto simp: picks_def)
    then have "selected_way m ss cs ds maxCost threshold (chosen_route (rs ! pick (length rs)))"
      using within_selected [OF ok _ _ least] False by simp
    moreover have "\<exists>s c d r. way m ss cs ds s c d r \<and> c + RouteCost r + CostBias \<le> maxCost" using w False by fastforce
    ultimately show ?thesis using False g rs(1) ne i by (intro exI [of _ True]) (simp add: GetRandomBestRoute_def)
  qed
qed

lemma GetRandomBestRoute_LowestPrice_spec:
  assumes ok: "matrix_ok n m" "sources_ok n ss cs" "dests_ok n ds" and p: "picks pick" and t: "small threshold"
  shows "\<exists>found out'. GetRandomBestRoute_LowestPrice pick m ss cs ds maxCost threshold out = Some (found, out') \<and>
    (found \<longrightarrow> maxCost \<noteq> -1 \<and> selected_way m ss cs ds maxCost threshold out') \<and>
    (\<not> found \<longrightarrow> OutRelays out' = OutRelays out \<and> (out' = out \<or> 0 \<le> OutCost out'))"
  using GetBestRouteCost_spec [OF ok]
proof (elim disjE conjE exE)
  assume none: "\<forall>s c d r. \<not> way m ss cs ds s c d r" and g: "GetBestRouteCost m ss cs ds = Some MaxInt32"
  obtain rs where "GetBestRoutes m ss cs ds (i32 (MaxInt32 + threshold)) 1024 = Some rs"
    "set rs \<subseteq> ways_within m ss cs ds (i32 (MaxInt32 + threshold))"
    using GetBestRoutes_spec [OF ok, of 1024 "i32 (MaxInt32 + threshold)"] by auto
  then show ?thesis using none g by (auto simp: GetRandomBestRoute_LowestPrice_def ways_within_def)
next
  fix b s c d r
  assume g: "GetBestRouteCost m ss cs ds = Some (b + CostBias)" and b: "0 \<le> b" "b < 510"
    and least: "\<forall>s c d r. way m ss cs ds s c d r \<longrightarrow> b \<le> c + RouteCost r"
  have i: "i32 (b + CostBias + threshold) = b + CostBias + threshold" using b t by (simp add: small_def)
  obtain rs where rs: "GetBestRoutes m ss cs ds (b + CostBias + threshold) 1024 = Some rs"
    "set rs \<subseteq> ways_within m ss cs ds (b + CostBias + threshold)"
    using GetBestRoutes_spec [OF ok, of 1024 "b + CostBias + threshold"] by auto
  obtain q fs where f: "fold lowest_price_step rs (1000000, []) = (q, fs)" by fastforce
  show ?thesis
  proof (cases "maxCost = -1 \<or> maxCost < b + CostBias \<or> rs = [] \<or> q \<ge> 255")
    case True
    have e: "GetRandomBestRoute_LowestPrice pick m ss cs ds maxCost threshold out =
      Some (False, if maxCost \<noteq> -1 \<and> maxCost < b + CostBias then out\<lparr>OutCost := b + CostBias\<rparr> else out)"
      using True g rs(1) i f by (simp add: GetRandomBestRoute_LowestPrice_def) blast
    show ?thesis unfolding e using b(1) by (intro exI [of _ False]) simp
  next
    case False
    have "fs \<noteq> []" "set fs \<subseteq> set rs" using lowest_price_fold [OF f] False by auto
    then have "fs ! pick (length fs) \<in> ways_within m ss cs ds (b + CostBias + threshold)"
      using p rs(2) by (metis length_greater_0_conv nth_mem picks_def subsetD)
    then have "selected_way m ss cs ds maxCost threshold (chosen_route (fs ! pick (length fs)))"
      using within_selected [OF ok _ _ least] False by simp
    then show ?thesis using False g rs(1) i f by (auto simp: GetRandomBestRoute_LowestPrice_def)
  qed
qed

lemma selected_route_range:
  assumes ok: "matrix_ok n m" "sources_ok n ss cs" "dests_ok n ds" and w: "selected_way m ss cs ds maxCost threshold out"
  shows "\<forall>x \<in> set (OutRelays out). 0 \<le> x \<and> x < int n" "2 \<le> length (OutRelays out)" "length (OutRelays out) \<le> 5" "0 \<le> OutCost out"
proof -
  obtain s c d r where w: "way m ss cs ds s c d r" "OutCost out = c + RouteCost r + CostBias"
    "OutRelays out = (if s < d then rev (RouteRelays r) else RouteRelays r)"
    using w unfolding selected_way_def by blast
  show "\<forall>x \<in> set (OutRelays out). 0 \<le> x \<and> x < int n" "2 \<le> length (OutRelays out)" "length (OutRelays out) \<le> 5" "0 \<le> OutCost out"
    using way_range [OF ok w(1)] w(2,3) by auto
qed

section \<open>The current route\<close>

lemma reverse_loop_nth:
  assumes "j < length xs \<or> j = 0"
  shows "length (reverse_loop i j xs) = length xs \<and>
    (\<forall>k < length xs. reverse_loop i j xs ! k = (if i \<le> k \<and> k \<le> j then xs ! (i + j - k) else xs ! k))"
  using assms
proof (induction i j xs rule: reverse_loop.induct)
  case (1 i j xs)
  show ?case
  proof (cases "i < j")
    case True
    let ?xs = "xs[i := xs ! j, j := xs ! i]"
    have j: "j < length xs" using 1(2) True by auto
    have IH: "length (reverse_loop (i + 1) (j - 1) ?xs) = length xs"
      "\<forall>k < length xs. reverse_loop (i + 1) (j - 1) ?xs ! k = (if i + 1 \<le> k \<and> k \<le> j - 1 then ?xs ! (i + 1 + (j - 1) - k) else ?xs ! k)"
      using 1(1) [OF True, unfolded length_list_update, OF disjI1] j by simp_all
    have e: "reverse_loop i j xs = reverse_loop (i + 1) (j - 1) ?xs" using True by (subst reverse_loop.simps) simp
    have "reverse_loop i j xs ! k = (if i \<le> k \<and> k \<le> j then xs ! (i + j - k) else xs ! k)" if k: "k < length xs" for k
    proof (cases "i + 1 \<le> k \<and> k \<le> j - 1")
      case True
      then have "i + 1 + (j - 1) - k = i + j - k" "i + j - k \<noteq> i" "i + j - k \<noteq> j" using \<open>i < j\<close> by auto
      then show ?thesis using IH(2) k True \<open>i < j\<close> unfolding e by (auto simp: nth_list_update)
    next
      case False
      then have "k = i \<or> k = j \<or> \<not> (i \<le> k \<and> k \<le> j)" by auto
      then show ?thesis using IH(2) k False \<open>i < j\<close> j unfolding e by (auto simp: nth_list_update)
    qed
    then show ?thesis using IH(1) e by simp
  next
    case False
    then have "reverse_loop i j xs = xs" by (subst reverse_loop.simps) simp
    moreover have "i + j - k = k" if "i \<le> k" "k \<le> j" for k using that False by auto
    ultimately show ?thesis by auto
  qed
qed

lemma ReverseRoute_rev: "ReverseRoute xs = rev xs"
proof (rule nth_equalityI)
  have l: "length xs - 1 < length xs \<or> length xs - 1 = 0" by auto
  note r = reverse_loop_nth [OF l, of 0]
  show "length (ReverseRoute xs) = length (rev xs)" using r by (simp add: ReverseRoute_def)
  fix k assume "k < length (ReverseRoute xs)"
  then show "ReverseRoute xs ! k = rev xs ! k" using r by (auto simp: ReverseRoute_def rev_nth)
qed

lemma source_cost_cases:
  assumes "length ss \<le> length cs"
  shows "\<exists>c. source_cost_of relay ss cs = Some c \<and> (c = 1000 \<or> (relay, c) \<in> set (zip ss cs))"
  using assms
proof (induction ss arbitrary: cs)
  case (Cons s ss)
  then obtain c cs' where "cs = c # cs'" by (cases cs) auto
  then show ?case using Cons by auto
qed simp

lemma orient_route_eq:
  assumes "0 < k" "k \<le> length relays"
  shows "\<exists>xs. orient_route (int k) relays = Some xs \<and> take k xs = oriented (take k relays) \<and>
    xs ! 0 = hd (oriented (take k relays)) \<and> xs ! (k - 1) = last (oriented (take k relays))"
proof -
  let ?t = "take k relays"
  have ne: "?t \<noteq> []" "relays \<noteq> []" using assms by auto
  have f: "relays ! 0 = hd ?t" "relays ! (k - 1) = last ?t"
    using assms ne by (simp_all add: hd_conv_nth last_conv_nth)
  have el: "element relays 0 = Some (hd ?t)" "element relays (int k - 1) = Some (last ?t)"
    using assms f ne by (auto simp: element_def nat_diff_distrib)
  show ?thesis
  proof (cases "hd ?t < last ?t")
    case True
    have "(rev ?t @ drop k relays) ! 0 = last ?t" "(rev ?t @ drop k relays) ! (k - 1) = hd ?t"
      using assms ne by (auto simp: nth_append rev_nth last_conv_nth hd_conv_nth)
    then show ?thesis using True el ne assms by (simp add: orient_route_def oriented_def ReverseRoute_rev hd_rev last_rev)
  next
    case False
    then show ?thesis using el f by (simp add: orient_route_def oriented_def)
  qed
qed

lemma GetCurrentRouteCost_spec:
  assumes m: "matrix_ok n m" and ss: "sources_ok n ss cs" and k: "k \<le> length relays"
    and rel: "\<forall>x \<in> set (take k relays). 0 \<le> x \<and> x < int n"
  shows "\<exists>cost. GetCurrentRouteCost m (int k) relays ss cs = Some cost \<and>
    (cost = -1 \<or> 3 \<le> cost \<and> cost < 513 \<and> 0 < k \<and> current_way m ss cs (take k relays) cost)"
proof (cases "k = 0 \<or> m = []")
  case True
  then show ?thesis by (auto simp: GetCurrentRouteCost_def)
next
  case False
  let ?t = "take k relays"
  have ne: "?t \<noteq> []" using False k by auto
  have first: "element relays 0 = Some (hd ?t)" using ne by (auto simp: element_def hd_conv_nth)
  obtain c where c: "source_cost_of (hd ?t) ss cs = Some c" "c = 1000 \<or> (hd ?t, c) \<in> set (zip ss cs)"
    using source_cost_cases [of ss cs "hd ?t"] ss by (auto simp: sources_ok_def)
  obtain xs where xs: "orient_route (int k) relays = Some xs" "take k xs = oriented ?t"
    "xs ! 0 = hd (oriented ?t)" "xs ! (k - 1) = last (oriented ?t)"
    using orient_route_eq [of k relays] False k by auto
  show ?thesis
  proof (cases "c \<ge> 255 \<or> hd ?t = last ?t")
    case True
    then have "c \<ge> 255 \<or> xs ! 0 = xs ! (k - 1)" using xs ne by (auto simp: oriented_def)
    then show ?thesis using True False first c(1) xs(1) by (auto simp: GetCurrentRouteCost_def nat_diff_distrib)
  next
    case n: False
    have rng: "0 \<le> hd ?t" "hd ?t < int n" "0 \<le> last ?t" "last ?t < int n" "hd ?t \<noteq> last ?t"
      using rel hd_in_set [OF ne] last_in_set [OF ne] n by blast+
    have s: "signed_index (xs ! 0) (xs ! (k - 1)) = signed_index (hd ?t) (last ?t)"
      using xs(3,4) ne signed_index_sym by (auto simp: oriented_def hd_rev last_rev)
    then have me: "matrix_entry m (xs ! 0) (xs ! (k - 1)) = matrix_entry m (hd ?t) (last ?t)" by (simp add: matrix_entry_def)
    obtain e where e: "matrix_entry m (hd ?t) (last ?t) = Some e" "entry_routes m (hd ?t) (last ?t) = EntryRoutes e"
      using entry_routes_ok(1) [OF m rng] by (auto simp: entry_routes_def)
    have d: "xs ! 0 \<noteq> xs ! (k - 1)" using xs(3,4) rng(5) ne by (auto simp: oriented_def hd_rev last_rev)
    let ?f = "find (\<lambda>r. RouteHashes r = RouteHash (oriented ?t) \<and> int (length (RouteRelays r)) = int k) (EntryRoutes e)"
    have g: "GetCurrentRouteCost m (int k) relays ss cs =
        Some (case ?f of None \<Rightarrow> -1 | Some r \<Rightarrow> i32 (i32 (c + RouteCost r) + CostBias))"
      using False n first c(1) xs(1,2) d me e(1) by (simp add: GetCurrentRouteCost_def nat_diff_distrib Let_def)
    show ?thesis
    proof (cases ?f)
      case None
      then show ?thesis using g by simp
    next
      case (Some r)
      then have r: "r \<in> set (EntryRoutes e)" "RouteHashes r = RouteHash (oriented ?t)" "length (RouteRelays r) = k"
        by (auto simp: find_Some_iff)
      have "route_ok n r" using entry_routes_ok(3) [OF m rng] r(1) e(2) by simp
      moreover have "(hd ?t, c) \<in> set (zip ss cs)" "c < 255" "0 \<le> c" using c(2) n ss by (auto simp: sources_ok_def)
      ultimately show ?thesis using g Some r e(2) False k rng(5) unfolding current_way_def
        by (intro exI [of _ "c + RouteCost r + CostBias"]) (auto simp: route_ok_def)
    qed
  qed
qed

lemma GetBestRoute_Update_spec:
  assumes ok: "matrix_ok n m" "sources_ok n ss cs" "dests_ok n ds" and p: "picks pick" and t: "small threshold" "small switch"
    and k: "k \<le> length relays" "\<forall>x \<in> set (take k relays). 0 \<le> x \<and> x < int n"
  shows "\<exists>changed lost out'. GetBestRoute_Update pick m ss cs ds maxCost threshold switch (int k) relays out = Some (changed, lost, out') \<and>
    (lost \<longrightarrow> changed \<and> (OutRelays out' = OutRelays out \<or> selected_way m ss cs ds maxCost threshold out')) \<and>
    (changed \<and> \<not> lost \<longrightarrow> (\<exists>best. GetBestRouteCost m ss cs ds = Some best \<and> selected_way m ss cs ds best threshold out')) \<and>
    (\<not> changed \<longrightarrow> 0 < k \<and> OutRelays out' = take k relays \<and> current_way m ss cs (take k relays) (OutCost out') \<and>
       3 \<le> OutCost out' \<and> OutCost out' < 513)"
proof -
  obtain cost where c: "GetCurrentRouteCost m (int k) relays ss cs = Some cost"
    "cost = -1 \<or> 3 \<le> cost \<and> cost < 513 \<and> 0 < k \<and> current_way m ss cs (take k relays) cost"
    using GetCurrentRouteCost_spec [OF ok(1,2) k] by blast
  show ?thesis
  proof (cases "cost < 0")
    case True
    obtain found out' where "GetRandomBestRoute pick m ss cs ds maxCost threshold out = Some (found, out')"
      "found \<longrightarrow> selected_way m ss cs ds maxCost threshold out'" "\<not> found \<longrightarrow> OutRelays out' = OutRelays out"
      using GetRandomBestRoute_spec [OF ok p t(1), of maxCost out] by blast
    then show ?thesis using c(1) True by (cases found) (auto simp: GetBestRoute_Update_def)
  next
    case False
    then have cost: "3 \<le> cost" "cost < 513" "0 < k" "current_way m ss cs (take k relays) cost" using c(2) by auto
    from GetBestRouteCost_spec [OF ok] obtain best where best: "GetBestRouteCost m ss cs ds = Some best"
      "best = MaxInt32 \<or> 3 \<le> best \<and> (\<exists>s c d r. way m ss cs ds s c d r \<and> c + RouteCost r + CostBias \<le> best)" by force
    show ?thesis
    proof (cases "cost > best + switch")
      case True
      then have b: "best \<noteq> MaxInt32" using cost t(2) by (auto simp: small_def)
      obtain found out' where "GetRandomBestRoute pick m ss cs ds best threshold out = Some (found, out')"
        "found \<longrightarrow> selected_way m ss cs ds best threshold out'"
        "found \<longleftrightarrow> best \<noteq> -1 \<and> (\<exists>s c d r. way m ss cs ds s c d r \<and> c + RouteCost r + CostBias \<le> best)"
        using GetRandomBestRoute_spec [OF ok p t(1), of best out] by blast
      moreover from this have found using best(2) b by auto
      ultimately show ?thesis using c(1) True False best(1) by (auto simp: GetBestRoute_Update_def)
    next
      case n: False
      then show ?thesis using c(1) False best(1) cost by (auto simp: GetBestRoute_Update_def)
    qed
  qed
qed

section \<open>Route decisions\<close>

text \<open>The optimizer makes well-formed matrices.\<close>

lemma Optimize_matrix_ok: "matrix_ok n (Optimize n cost relayPrice d)"
proof -
  have "route_ok n r \<and> hd (RouteRelays r) = int i \<and> last (RouteRelays r) = int j" if "exact_route n cost relayPrice i j r" for i j r
  proof -
    from that obtain path where p: "RouteRelays r = map int path" "RouteCost r = int (path_cost cost path)" "path_cost cost path < 255"
      "hd path = i" "last path = j" "2 \<le> length path" "length path \<le> 5" "set path \<subseteq> {..<n}" unfolding exact_route_def by blast
    moreover from this have "path \<noteq> []" by auto
    ultimately show ?thesis by (auto simp: route_ok_def hd_map last_map)
  qed
  then show ?thesis
    using Optimize_entry_routes(4,6) [of _ _ n cost relayPrice d] unfolding matrix_ok_def length_Optimize Let_def by blast
qed

lemma EarlyOutDirect_result:
  assumes "EarlyOutDirect u shader st = (early, st')"
  shows "early \<longleftrightarrow> blocked st'" "blocked st \<Longrightarrow> st' = st" "Next st' = Next st" "Veto st' = Veto st"
    "ReducePacketLoss st' = ReducePacketLoss st" "ForcedNext st' = ForcedNext st"
  using assms by (auto simp: EarlyOutDirect_def blocked_def split: if_splits)

lemma length_safe_costs [simp]: "length (safe_costs cs) = length cs"
  by (simp add: safe_costs_def)

lemma zip_safe: "(s, c) \<in> set (zip ss (safe_costs cs)) \<Longrightarrow> c < 255 \<Longrightarrow> 0 < c \<and> (s, c) \<in> set (zip ss cs)"
  by (auto simp: safe_costs_def zip_map2 split: if_splits)

lemma safe_sources: "sources_ok n ss cs \<Longrightarrow> sources_ok n ss (safe_costs cs)"
  using zip_safe by (fastforce simp: sources_ok_def safe_costs_def)

lemma acceptable_cost_cases:
  assumes "shader_ok shader" "small directLatency" "acceptable_cost shader directLatency loss = (maxCost, latency, packetLoss)" "maxCost \<noteq> -1"
  shows "maxCost = wanted_cost shader directLatency loss" "latency \<or> packetLoss"
    "latency \<longleftrightarrow> directLatency > AcceptableLatency shader" "packetLoss \<longleftrightarrow> loss > AcceptablePacketLoss shader"
  using assms by (auto simp: acceptable_cost_def wanted_cost_def shader_ok_def small_def split: if_splits)

lemma take_best_route_spec:
  assumes ok: "matrix_ok n m" "sources_ok n ss cs" "dests_ok n ds" and p: "picks pick" and t: "shader_ok shader"
  shows "\<exists>taken st' out. take_best_route pick m shader st ss cs ds (maxCost, latency, loss) = Some (taken, st', cs, out) \<and>
    (\<not> taken \<longrightarrow> st' = st \<and> OutRelays out = [] \<and> 0 \<le> OutCost out) \<and>
    (taken \<longrightarrow> maxCost \<noteq> -1 \<and> selected_way m ss cs ds maxCost (RouteSelectThreshold shader) out \<and>
       st' = st\<lparr>Next := True, ReduceLatency := ReduceLatency st \<or> latency, ReducePacketLoss := ReducePacketLoss st \<or> loss\<rparr>)"
proof -
  have s: "small (RouteSelectThreshold shader)" using t by (simp add: shader_ok_def)
  obtain found out where f: "GetRandomBestRoute_LowestPrice pick m ss cs ds maxCost (RouteSelectThreshold shader) no_out = Some (found, out)"
    "found \<longrightarrow> maxCost \<noteq> -1 \<and> selected_way m ss cs ds maxCost (RouteSelectThreshold shader) out"
    "\<not> found \<longrightarrow> OutRelays out = OutRelays no_out \<and> (out = no_out \<or> 0 \<le> OutCost out)"
    using GetRandomBestRoute_LowestPrice_spec [OF ok p s, of maxCost no_out] by blast
  show ?thesis
  proof (cases found)
    case True
    then show ?thesis using f by (intro exI [of _ True]) (simp add: take_best_route_def GetBestRoute_Initial_def)
  next
    case False
    moreover from this have "OutRelays out = []" "0 \<le> OutCost out" using f(3) by (auto simp: no_out_def)
    ultimately show ?thesis using f(1) by (intro exI [of _ False]) (simp add: take_best_route_def GetBestRoute_Initial_def)
  qed
qed

text \<open>The decision to take a route.\<close>

lemma take_decision:
  assumes ok: "matrix_ok n m" "sources_ok n ss cs" "dests_ok n ds" and p: "picks pick" and t: "shader_ok shader" "small directLatency"
  shows "\<exists>taken st' cs' out'.
    MakeRouteDecision_TakeNetworkNext pick userId m shader st directLatency loss ss cs ds out sliceNumber = Some (taken, st', cs', out') \<and>
    (\<not> taken \<longrightarrow> Next st' = Next st \<and> Veto st' = Veto st \<and> (blocked st \<longrightarrow> st' = st) \<and> (OutRelays out' = [] \<and> 0 \<le> OutCost out' \<or> out' = out)) \<and>
    (taken \<longrightarrow> \<not> blocked st \<and> \<not> blocked st' \<and> Next st' \<and> (cs' = cs \<or> cs' = safe_costs cs) \<and>
       (if ForceNext shader then selected_way m ss cs' ds MaxInt32 (RouteSelectThreshold shader) out'
        else sliceNumber \<noteq> 0 \<and> (directLatency > AcceptableLatency shader \<or> loss > AcceptablePacketLoss shader) \<and>
          selected_way m ss cs' ds (wanted_cost shader directLatency loss) (RouteSelectThreshold shader) out'))"
proof -
  obtain early st1 where e: "EarlyOutDirect userId shader st = (early, st1)" by fastforce
  note er = EarlyOutDirect_result [OF e]
  consider "early" | "\<not> early" "ForceNext shader" | "\<not> early" "\<not> ForceNext shader" "sliceNumber = 0" | "\<not> early" "\<not> ForceNext shader" "sliceNumber \<noteq> 0"
    by blast
  then show ?thesis
  proof cases
    case 1
    then show ?thesis using er by (auto simp: MakeRouteDecision_TakeNetworkNext_def e)
  next
    case 2
    let ?st = "st1\<lparr>ForcedNext := True\<rparr>"
    obtain taken st' out' where b: "take_best_route pick m shader ?st ss cs ds (MaxInt32, False, False) = Some (taken, st', cs, out')"
      "\<not> taken \<longrightarrow> st' = ?st \<and> OutRelays out' = [] \<and> 0 \<le> OutCost out'"
      "taken \<longrightarrow> selected_way m ss cs ds MaxInt32 (RouteSelectThreshold shader) out' \<and>
         st' = ?st\<lparr>Next := True, ReduceLatency := ReduceLatency ?st \<or> False, ReducePacketLoss := ReducePacketLoss ?st \<or> False\<rparr>"
      using take_best_route_spec [OF ok p t(1), of ?st MaxInt32 False False] by blast
    have nb: "\<not> blocked st1" "\<not> blocked st" using 2 er by auto
    show ?thesis using b 2 er nb ok(2) by (cases taken) (auto simp: MakeRouteDecision_TakeNetworkNext_def e blocked_def)
  next
    case 3
    then show ?thesis using er by (auto simp: MakeRouteDecision_TakeNetworkNext_def e blocked_def)
  next
    case 4
    obtain mc lat pl where a: "acceptable_cost shader directLatency loss = (mc, lat, pl)" by (metis prod_cases3)
    obtain taken st' out' where b: "take_best_route pick m shader st1 ss (safe_costs cs) ds (mc, lat, pl) = Some (taken, st', safe_costs cs, out')"
      "\<not> taken \<longrightarrow> st' = st1 \<and> OutRelays out' = [] \<and> 0 \<le> OutCost out'"
      "taken \<longrightarrow> mc \<noteq> -1 \<and> selected_way m ss (safe_costs cs) ds mc (RouteSelectThreshold shader) out' \<and>
         st' = st1\<lparr>Next := True, ReduceLatency := ReduceLatency st1 \<or> lat, ReducePacketLoss := ReducePacketLoss st1 \<or> pl\<rparr>"
      using take_best_route_spec [OF ok(1) safe_sources [OF ok(2)] ok(3) p t(1), of st1 mc lat pl] by blast
    have nb: "\<not> blocked st1" "\<not> blocked st" using 4 er by auto
    show ?thesis
    proof (cases taken)
      case True
      then show ?thesis using b 4 er nb safe_sources [OF ok(2)] acceptable_cost_cases [OF t a]
        by (auto simp: MakeRouteDecision_TakeNetworkNext_def e a blocked_def)
    next
      case False
      then show ?thesis using b 4 er nb by (auto simp: MakeRouteDecision_TakeNetworkNext_def e a)
    qed
  qed
qed

text \<open>The decision to stay on a route.\<close>

lemma stay_decision:
  assumes ok: "matrix_ok n m" "sources_ok n ss cs" "dests_ok n ds" and p: "picks pick" and t: "shader_ok shader"
    and k: "k \<le> length relays" "\<forall>x \<in> set (take k relays). 0 \<le> x \<and> x < int n"
  shows "\<exists>stay switched st' cs' out'.
    MakeRouteDecision_StayOnNetworkNext pick userId m shader st directLatency (int k) relays ss cs ds out =
      Some (stay, switched, st', cs', out') \<and>
    (stay \<longrightarrow> \<not> blocked st \<and> \<not> blocked st' \<and> Next st' = Next st \<and> cs' = safe_costs cs \<and>
       (if switched then \<exists>maxCost. selected_way m ss cs' ds maxCost (RouteSelectThreshold shader) out'
        else 0 < k \<and> OutRelays out' = take k relays \<and> current_way m ss cs' (take k relays) (OutCost out') \<and>
          3 \<le> OutCost out' \<and> OutCost out' < 513)) \<and>
    (\<not> stay \<longrightarrow> \<not> switched \<and> out' = out \<and> \<not> Next st' \<and> (Veto st' \<longleftrightarrow> Veto st \<or> Next st) \<and> (blocked st \<longrightarrow> blocked st'))"
proof -
  obtain early st1 where e: "EarlyOutDirect userId shader st = (early, st1)" by fastforce
  note er = EarlyOutDirect_result [OF e]
  show ?thesis
  proof (cases early)
    case True
    then show ?thesis using er by (auto simp: MakeRouteDecision_StayOnNetworkNext_def MakeRouteDecision_StayOnNetworkNext_Internal_def e blocked_def)
  next
    case False
    define maxCost where "maxCost = (if ForceNext shader then MaxInt32
       else let maxCost = i32 (directLatency - LatencyReductionThreshold shader)
            in if ReducePacketLoss st1 then i32 (maxCost + MaxLatencyTradeOff shader) else maxCost)"
    have s: "small (RouteSelectThreshold shader)" "small (RouteSwitchThreshold shader)" using t by (auto simp: shader_ok_def)
    have ss: "sources_ok n ss (safe_costs cs)" by (rule safe_sources [OF ok(2)])
    obtain changed lost best where u: "GetBestRoute_Update pick m ss (safe_costs cs) ds maxCost (RouteSelectThreshold shader)
        (RouteSwitchThreshold shader) (int k) relays no_out = Some (changed, lost, best)"
      "lost \<longrightarrow> changed \<and> (OutRelays best = OutRelays no_out \<or> selected_way m ss (safe_costs cs) ds maxCost (RouteSelectThreshold shader) best)"
      "changed \<and> \<not> lost \<longrightarrow> (\<exists>b. selected_way m ss (safe_costs cs) ds b (RouteSelectThreshold shader) best)"
      "\<not> changed \<longrightarrow> 0 < k \<and> OutRelays best = take k relays \<and> current_way m ss (safe_costs cs) (take k relays) (OutCost best) \<and>
         3 \<le> OutCost best \<and> OutCost best < 513"
      using GetBestRoute_Update_spec [OF ok(1) ss ok(3) p s k, of maxCost no_out] by blast
    have st: "MakeRouteDecision_StayOnNetworkNext_Internal pick userId m shader st directLatency (int k) relays ss cs ds out =
      (if OutRelays best = [] then Some (False, False, st1\<lparr>RouteLost := lost, NoRoute := True\<rparr>, safe_costs cs, out)
       else Some (True, changed, st1\<lparr>RouteLost := lost\<rparr>, safe_costs cs, best))"
      using False u(1) unfolding maxCost_def by (simp add: MakeRouteDecision_StayOnNetworkNext_Internal_def e Let_def)
    have nb: "\<not> blocked st1" "\<not> blocked st" using False er by auto
    show ?thesis
    proof (cases "OutRelays best = []")
      case True
      then show ?thesis using st er nb by (auto simp: MakeRouteDecision_StayOnNetworkNext_def blocked_def)
    next
      case ne: False
      then have "changed \<longrightarrow> (\<exists>b. selected_way m ss (safe_costs cs) ds b (RouteSelectThreshold shader) best)"
        using u(2,3) by (auto simp: no_out_def)
      then show ?thesis using ne u(4) st er nb ss by (auto simp: MakeRouteDecision_StayOnNetworkNext_def blocked_def)
    qed
  qed
qed

section \<open>Decisions over the optimizer's matrix\<close>

lemma path_cost_snoc: "path_cost cost (xs @ [a, b]) = path_cost cost (xs @ [a]) + link cost a b"
proof (induction xs)
  case (Cons x xs)
  then show ?case by (cases xs) auto
qed simp

lemma path_cost_rev: "path_cost cost (rev xs) = path_cost cost xs"
proof (induction cost xs rule: path_cost.induct)
  case (1 cost a b rest)
  then show ?case using path_cost_snoc [of cost "rev rest" b a] link_sym [of cost a b] by simp
qed simp_all

lemma selected_client_path:
  assumes w: "selected_way (Optimize n cost relayPrice dest) ss cs' ds maxCost threshold out"
    and ss: "sources_ok n ss cs" and ds: "dests_ok n ds" and cs': "cs' = cs \<or> cs' = safe_costs cs"
  shows "client_path n cost ss cs ds out" "OutCost out \<le> maxCost + threshold + CostBias"
proof -
  let ?m = "Optimize n cost relayPrice dest"
  obtain s c d r where w: "way ?m ss cs' ds s c d r" "OutCost out = c + RouteCost r + CostBias"
    "OutRelays out = (if s < d then rev (RouteRelays r) else RouteRelays r)" "hd (OutRelays out) = s" "last (OutRelays out) = d"
    "c + RouteCost r \<le> maxCost + threshold"
    using w unfolding selected_way_def by blast
  have "(s, c) \<in> set (zip ss cs')" and c: "c < 255" using w(1) by (simp_all add: way_def)
  then have sc: "(s, c) \<in> set (zip ss cs)" "c < 255" using cs' zip_safe [of s c ss cs] by auto
  have rng: "0 \<le> s" "s < int n" "0 \<le> d" "d < int n" "s \<noteq> d" and dd: "d \<in> set ds" and r: "r \<in> set (entry_routes ?m s d)"
    using sc ss ds w(1) by (auto simp: sources_ok_def dests_ok_def way_def)
  let ?i = "nat (max s d)" and ?j = "nat (min s d)"
  have ij: "?j < ?i" "?i < n" using rng by auto
  have "signed_index s d = int (TriMatrixIndex ?i ?j)"
    using signed_index_nat [of ?i ?j] signed_index_sym [of s d] rng by (cases "s < d") (auto simp: max_def min_def)
  then have "entry_routes ?m s d = EntryRoutes (?m ! TriMatrixIndex ?i ?j)"
    using TriMatrixIndex_less [OF ij] by (simp add: entry_routes_def matrix_entry_def element_def length_Optimize)
  then have "exact_route n cost relayPrice ?i ?j r" using Optimize_entry_routes(6) [OF ij] r by simp
  then obtain path where p: "RouteRelays r = map int path" "RouteCost r = int (path_cost cost path)"
    "distinct path" "2 \<le> length path" "length path \<le> 5" "set path \<subseteq> {..<n}" unfolding exact_route_def by blast
  let ?path = "if s < d then rev path else path"
  have ne: "?path \<noteq> []" using p(4) by auto
  have o: "OutRelays out = map int ?path" using w(3) p(1) by (simp add: rev_map)
  then have h: "int (hd ?path) = s" "int (last ?path) = d" using w(4,5) ne by (auto simp: hd_map last_map)
  show "client_path n cost ss cs ds out"
    unfolding client_path_def
    using o h sc dd p w(2) by (intro exI [of _ ?path] exI [of _ c]) (simp add: path_cost_rev)
  show "OutCost out \<le> maxCost + threshold + CostBias" using w(2,6) by simp
qed

text \<open>C9. Route decisions over a matrix of the optimizer. Both decisions come to a result without a panic. A session that is vetoed,
  disabled, not selected or in group B takes no route. A route that is taken or switched to leads from a relay near the client to one of
  the server over at most five relays without a loop, at the exact cost of its links. Unless forced, none is taken on the first slice or
  when the direct connection is acceptable, and its cost is bounded by the direct latency: lower by the threshold for latency
  reduction, or higher by the trade-off for packet loss, up to the selection threshold and the bias. A session that leaves its route is
  vetoed.\<close>

theorem route_decisions_are_sound:
  assumes ss: "sources_ok n ss cs" "dests_ok n ds" and p: "picks pick" and t: "shader_ok shader" "small directLatency"
    and k: "k \<le> length relays" "\<forall>x \<in> set (take k relays). 0 \<le> x \<and> x < int n"
  shows "(\<exists>taken st' cs' out'.
      MakeRouteDecision_TakeNetworkNext pick userId (Optimize n cost relayPrice dest) shader st directLatency loss ss cs ds out sliceNumber =
        Some (taken, st', cs', out') \<and>
      (taken \<longrightarrow> \<not> blocked st \<and> Next st' \<and> client_path n cost ss cs ds out' \<and>
         (\<not> ForceNext shader \<longrightarrow> sliceNumber \<noteq> 0 \<and> (directLatency > AcceptableLatency shader \<or> loss > AcceptablePacketLoss shader) \<and>
            OutCost out' \<le> wanted_cost shader directLatency loss + RouteSelectThreshold shader + CostBias))) \<and>
    (\<exists>stay switched st' cs' out'.
      MakeRouteDecision_StayOnNetworkNext pick userId (Optimize n cost relayPrice dest) shader st directLatency (int k) relays ss cs ds out =
        Some (stay, switched, st', cs', out') \<and>
      (stay \<longrightarrow> \<not> blocked st \<and> (if switched then client_path n cost ss cs ds out' else OutRelays out' = take k relays)) \<and>
      (\<not> stay \<longrightarrow> \<not> Next st' \<and> (Next st \<longrightarrow> Veto st')))"
proof (rule conjI, goal_cases)
  case 1
  obtain taken st' cs' out' where "MakeRouteDecision_TakeNetworkNext pick userId (Optimize n cost relayPrice dest) shader st directLatency loss
      ss cs ds out sliceNumber = Some (taken, st', cs', out')" and
    "taken \<longrightarrow> \<not> blocked st \<and> \<not> blocked st' \<and> Next st' \<and> (cs' = cs \<or> cs' = safe_costs cs) \<and>
       (if ForceNext shader then selected_way (Optimize n cost relayPrice dest) ss cs' ds MaxInt32 (RouteSelectThreshold shader) out'
        else sliceNumber \<noteq> 0 \<and> (directLatency > AcceptableLatency shader \<or> loss > AcceptablePacketLoss shader) \<and>
          selected_way (Optimize n cost relayPrice dest) ss cs' ds (wanted_cost shader directLatency loss) (RouteSelectThreshold shader) out')"
    using take_decision [OF Optimize_matrix_ok ss p t] by blast
  then show ?case using selected_client_path [OF _ ss] by (cases taken; cases "ForceNext shader") auto
next
  case 2
  show ?case
    using stay_decision [OF Optimize_matrix_ok [of n cost relayPrice dest] ss p t(1) k,
        where userId = userId and st = st and directLatency = directLatency and out = out]
      selected_client_path [OF _ ss]
    by (elim exE conjE) (rule exI, rule exI, rule exI, rule exI, rule exI, rule conjI, assumption, auto split: if_splits)
qed

lemma triangle_taken:
  "map_option (\<lambda>(taken, st, cs, out). (taken, OutCost out, OutRelays out))
     (MakeRouteDecision_TakeNetworkNext (\<lambda>_. 0) 4 (Optimize 3 triangle_costs [1, 2, 3] None) NewRouteShader fresh_state 200 0
       [1] [20] [0] no_out 1) = Some (True, 93, [1, 2, 0])"
  by code_simp

theorem route_decisions_are_sound_witness:
  "\<exists>st' cs' out'. MakeRouteDecision_TakeNetworkNext (\<lambda>_. 0) 4 (Optimize 3 triangle_costs [1, 2, 3] None) NewRouteShader fresh_state 200 0
      [1] [20] [0] no_out 1 = Some (True, st', cs', out') \<and>
     Next st' \<and> client_path 3 triangle_costs [1] [20] [0] out' \<and> OutCost out' \<le> 198"
proof -
  have "sources_ok 3 [1] [20]" "dests_ok 3 [0]" "picks (\<lambda>_. 0)" "shader_ok NewRouteShader" "small 200"
    by (simp_all add: sources_ok_def dests_ok_def picks_def shader_ok_def small_def NewRouteShader_def)
  moreover have "wanted_cost NewRouteShader 200 0 + RouteSelectThreshold NewRouteShader + CostBias = 198"
    by (simp add: wanted_cost_def NewRouteShader_def)
  moreover have "\<not> ForceNext NewRouteShader" by (simp add: NewRouteShader_def)
  ultimately show ?thesis
    using route_decisions_are_sound [of 3 "[1]" "[20]" "[0]" "\<lambda>_. 0" NewRouteShader 200 0 "[]" 4 triangle_costs "[1, 2, 3]" None fresh_state 0 no_out 1]
      triangle_taken by auto
qed

section \<open>Scores and pages\<close>

text \<open>Every page is a range of the entries of at most a hundred.\<close>

lemma DoPagination_range:
  assumes "0 \<le> len" "DoPagination page len = (first, final, out, pages)"
  shows "0 \<le> first" "first \<le> final" "final \<le> len" "final - first \<le> 100" "len > 100 \<Longrightarrow> final - first = 100"
  using assms by (auto simp: DoPagination_def Let_def split: if_splits)

lemma DoPagination_Simple_range:
  assumes "0 \<le> len" "DoPagination_Simple page len = (first, final, out, pages)"
  shows "0 \<le> first" "first \<le> final" "final \<le> len" "final - first \<le> 100" "0 \<le> out" "out < pages" "0 < len \<Longrightarrow> first < final"
proof -
  define p where "p = (if len mod 100 \<noteq> 0 then len div 100 + 1 else len div 100)"
  obtain k r where k: "len div 100 = k" "len mod 100 = r" "len = 100 * k + r" "0 \<le> r" "r < 100"
    using that [of "len div 100" "len mod 100"] by simp
  have p: "0 < len \<longrightarrow> 1 \<le> p \<and> (p - 1) * 100 < len" "len = 0 \<longrightarrow> p = 0" "0 \<le> p" "len \<le> p * 100"
    using k assms(1) by (auto simp: p_def)
  define np where "np = (if p < 1 then 1 else p)"
  define q where "q = (let page = if page < 0 then 0 else page in if page > np - 1 then np - 1 else page)"
  have "DoPagination_Simple page len = (q * 100, min ((q + 1) * 100) len, q, np)"
    unfolding DoPagination_Simple_def p_def [symmetric] by (simp add: Let_def q_def np_def)
  then have q: "first = q * 100" "final = min ((q + 1) * 100) len" "out = q" "pages = np" using assms(2) by auto
  have np: "1 \<le> np" "0 \<le> q" "q \<le> np - 1" by (auto simp: q_def np_def Let_def)
  show "0 \<le> first" "final - first \<le> 100" "final \<le> len" "0 \<le> out" "out < pages" using q np by auto
  have "q * 100 \<le> len \<and> (0 < len \<longrightarrow> q * 100 < len)"
  proof (cases "len = 0")
    case True
    then show ?thesis using np p by (simp add: np_def)
  next
    case False
    then have "q \<le> p - 1" "(p - 1) * 100 < len" using np(3) p assms(1) by (auto simp: np_def)
    then show ?thesis by auto
  qed
  then show "first \<le> final" "0 < len \<Longrightarrow> first < final" using q by auto
qed

text \<open>Scores are in the range of the buckets.\<close>

lemma GetSessionScore_range: "GetSessionScore directRTT nextRTT \<le> 999"
proof (cases "nextRTT > 0")
  case True
  define improvement where "improvement = (let x = max (i32 (directRTT - nextRTT)) 0 in if x > 254 then 254 else x)"
  have "0 \<le> 254 - improvement" "254 - improvement \<le> 254" by (auto simp: improvement_def Let_def)
  then have "uint (of_int (254 - improvement) :: u32) = 254 - improvement" 
    unfolding uint_word_of_int_eq by (intro take_bit_int_eq_self) auto
  moreover have "GetSessionScore directRTT nextRTT = of_int (254 - improvement)"
    using True by (simp add: GetSessionScore_def improvement_def Let_def)
  ultimately show ?thesis using \<open>254 - improvement \<le> 254\<close> by (simp add: word_le_def)
next
  case False
  then show ?thesis by (auto simp: GetSessionScore_def Let_def)
qed

end
