(* ===== verification/Session_Update.thy ===== *)
theory Session_Update
  imports Core_Selection Core_Tokens
begin

text \<open>
  The session update handler of the server backend, \<open>modules/handlers/session_update.go\<close> and \<open>sdk_handlers.go\<close>: every ten seconds
  it takes the session data the game server sends back, filters the relays, decides on a route, writes the tokens and returns the
  session data for the next slice. The signature, the serializer of session data and the rounding of floating point numbers are
  parameters, the messages to portal and analytics are left out. The lemmas follow the handler step by step; the properties are that
  it never panics, keeps session data well-formed, and never routes a session again that was blocked.
\<close>

section \<open>Definitions\<close>

text \<open>\<open>modules/packets/sdk_packets.go\<close>: what the backend remembers of a session. It is sent to the SDK with every response and comes
  back with the next request. The coordinates are kept as the bits of their \<open>float32\<close>.\<close>

record SDK_SessionData =
  sd_Version :: u32
  sd_SessionId :: u64
  sd_SessionVersion :: u32
  sd_SliceNumber :: u32
  sd_ExpireTimestamp :: u64
  sd_Latitude :: u32
  sd_Longitude :: u32
  sd_RouteChanged :: bool
  sd_RouteNumRelays :: int
  sd_RouteCost :: int
  sd_RouteRelayIds :: "u64 list"
  sd_RouteState :: RouteState
  sd_WriteSummary :: bool
  sd_WroteSummary :: bool
  sd_ShouldSendClientRelaysToPortal :: bool
  sd_ShouldSendServerRelaysToPortal :: bool
  sd_SentClientRelaysToPortal :: bool
  sd_SentServerRelaysToPortal :: bool
  sd_PrevPacketsSentClientToServer :: u64
  sd_PrevPacketsSentServerToClient :: u64
  sd_PrevPacketsLostClientToServer :: u64
  sd_PrevPacketsLostServerToClient :: u64
  sd_PrevPacketsOutOfOrderClientToServer :: u64
  sd_PrevPacketsOutOfOrderServerToClient :: u64
  sd_NextEnvelopeBytesUpSum :: u64
  sd_NextEnvelopeBytesDownSum :: u64
  sd_DurationOnNext :: u32
  sd_StartTimestamp :: u64
  sd_Error :: u64
  sd_BestScore :: u32
  sd_BestDirectRTT :: u32
  sd_BestNextRTT :: u32
  sd_ExcludeClientRelay :: "bool list"
  sd_ExcludeServerRelay :: "bool list"
  sd_LikelyVPNOrCrossRegion :: bool
  sd_NoClientRelays :: bool
  sd_NoServerRelays :: bool
  sd_AllClientRelaysAreZero :: bool

definition zero_route_state :: RouteState where
  "zero_route_state = \<lparr>Next = False, Veto = False, Disabled = False, NotSelected = False, ABTest = False, GroupA = False, GroupB = False,
     ForcedNext = False, ReduceLatency = False, ReducePacketLoss = False, RouteLost = False, NoRoute = False\<rparr>"

text \<open>The zero value of the struct.\<close>

definition zero_session_data :: SDK_SessionData where
  "zero_session_data = \<lparr>sd_Version = 0, sd_SessionId = 0, sd_SessionVersion = 0, sd_SliceNumber = 0, sd_ExpireTimestamp = 0,
     sd_Latitude = 0, sd_Longitude = 0, sd_RouteChanged = False, sd_RouteNumRelays = 0, sd_RouteCost = 0,
     sd_RouteRelayIds = replicate 5 0, sd_RouteState = zero_route_state, sd_WriteSummary = False, sd_WroteSummary = False,
     sd_ShouldSendClientRelaysToPortal = False, sd_ShouldSendServerRelaysToPortal = False, sd_SentClientRelaysToPortal = False,
     sd_SentServerRelaysToPortal = False, sd_PrevPacketsSentClientToServer = 0, sd_PrevPacketsSentServerToClient = 0,
     sd_PrevPacketsLostClientToServer = 0, sd_PrevPacketsLostServerToClient = 0, sd_PrevPacketsOutOfOrderClientToServer = 0,
     sd_PrevPacketsOutOfOrderServerToClient = 0, sd_NextEnvelopeBytesUpSum = 0, sd_NextEnvelopeBytesDownSum = 0,
     sd_DurationOnNext = 0, sd_StartTimestamp = 0, sd_Error = 0, sd_BestScore = 0, sd_BestDirectRTT = 0, sd_BestNextRTT = 0,
     sd_ExcludeClientRelay = replicate 16 False, sd_ExcludeServerRelay = replicate 8 False, sd_LikelyVPNOrCrossRegion = False,
     sd_NoClientRelays = False, sd_NoServerRelays = False, sd_AllClientRelaysAreZero = False\<rparr>"

text \<open>The request, as far as the handler looks at it. Of the arrays the first \<open>NumClientRelays\<close> and \<open>NumServerRelays\<close> entries are kept.\<close>

record SDK_SessionUpdateRequest =
  rq_SessionId :: u64
  rq_SliceNumber :: u32
  rq_SessionDataBytes :: nat
  rq_SessionData :: bytes
  rq_SessionDataSignature :: bytes
  rq_ClientAddress :: udp_addr
  rq_ClientRoutePublicKey :: bytes
  rq_ServerRoutePublicKey :: bytes
  rq_UserHash :: u64
  rq_Next :: bool
  rq_FallbackToDirect :: bool
  rq_ClientPingTimedOut :: bool
  rq_ClientRelayPingsHaveChanged :: bool
  rq_ServerRelayPingsHaveChanged :: bool
  rq_DirectRTT :: rat
  rq_DirectMaxPacketLossSeen :: rat
  rq_NextRTT :: rat
  rq_ClientRelayIds :: "u64 list"
  rq_ClientRelayRTT :: "int list"
  rq_ClientRelayPacketLoss :: "rat list"
  rq_ServerRelayIds :: "u64 list"
  rq_ServerRelayRTT :: "int list"
  rq_ServerRelayJitter :: "int list"
  rq_ServerRelayPacketLoss :: "rat list"
  rq_PacketsSentClientToServer :: u64
  rq_PacketsSentServerToClient :: u64
  rq_PacketsLostClientToServer :: u64
  rq_PacketsLostServerToClient :: u64
  rq_PacketsOutOfOrderClientToServer :: u64
  rq_PacketsOutOfOrderServerToClient :: u64
  rq_JitterClientToServer :: rat
  rq_JitterServerToClient :: rat

datatype route_type = SDK_RouteTypeDirect | SDK_RouteTypeNew | SDK_RouteTypeContinue

record SDK_SessionUpdateResponse =
  rs_SessionId :: u64
  rs_SliceNumber :: u32
  rs_RouteType :: route_type
  rs_NumTokens :: int
  rs_Tokens :: bytes
  rs_Multipath :: bool
  rs_SessionData :: bytes
  rs_SessionDataSignature :: bytes

text \<open>What the handler uses besides: the time, the route matrix, the database and the buyer, the keys and the randomness of this request,
  the cryptography, the bit stream of \<open>serialize.go\<close> applied to session data, and the rounding of \<open>float64\<close> and \<open>float32\<close>.\<close>

record session_env =
  env_now :: u64
  env_verify :: "bytes \<Rightarrow> bytes \<Rightarrow> bool"
  env_sign :: "bytes \<Rightarrow> bytes"
  env_decode :: "bytes \<Rightarrow> SDK_SessionData option"
  env_encode :: "SDK_SessionData \<Rightarrow> bytes option"
  env_DatacenterExists :: bool
  env_DatacenterEnabled :: bool
  env_RouteShader :: RouteShader
  env_CreatedAt :: u64
  env_RelayIds :: "u64 list"
  env_RelayIdToIndex :: "u64 \<Rightarrow> int option"
  env_RouteEntries :: "RouteEntry list"
  env_Relays :: "route_node list"
  env_From :: udp_addr
  env_GenerateRemote :: "bytes \<Rightarrow> bytes"
  env_aead :: go_aead
  env_nonces :: "nat \<Rightarrow> bytes"
  env_privateKey :: bytes
  env_pick :: "nat \<Rightarrow> nat"
  env_round64 :: "rat \<Rightarrow> rat"
  env_round32 :: "rat \<Rightarrow> rat"
  env_PortalNextSessionsOnly :: bool

text \<open>The state of the handler. The flags for tests and the messages to the portal and to analytics are left out.\<close>

record SessionUpdateState =
  su_Input :: SDK_SessionData
  su_Output :: SDK_SessionData
  su_Request :: SDK_SessionUpdateRequest
  su_Response :: SDK_SessionUpdateResponse
  su_RealPacketLoss :: rat
  su_RealJitter :: rat
  su_RealOutOfOrder :: rat
  su_DestRelays :: "int list"
  su_SourceRelays :: "int list"
  su_SourceRelayRTT :: "int list"
  su_Error :: u64

definition SessionError_FallbackToDirect :: u64 where "SessionError_FallbackToDirect = 0x1"

definition SessionError_UnknownDatacenter :: u64 where "SessionError_UnknownDatacenter = 0x4"

definition SessionError_DatacenterNotEnabled :: u64 where "SessionError_DatacenterNotEnabled = 0x8"

definition SessionError_StaleRouteMatrix :: u64 where "SessionError_StaleRouteMatrix = 0x10"

definition SessionError_Aborted :: u64 where "SessionError_Aborted = 0x20"

definition SessionError_SessionDataSignatureCheckFailed :: u64 where "SessionError_SessionDataSignatureCheckFailed = 0x40"

definition SessionError_FailedToReadSessionData :: u64 where "SessionError_FailedToReadSessionData = 0x80"

definition SessionError_BadSessionId :: u64 where "SessionError_BadSessionId = 0x100"

definition SessionError_BadSliceNumber :: u64 where "SessionError_BadSliceNumber = 0x200"

definition SessionError_NoRouteRelays :: u64 where "SessionError_NoRouteRelays = 0x1000"

definition SessionError_RouteRelayNoLongerExists :: u64 where "SessionError_RouteRelayNoLongerExists = 0x2000"

definition SessionError_RouteNoLongerExists :: u64 where "SessionError_RouteNoLongerExists = 0x4000"

definition SessionError_FailedToWriteSessionData :: u64 where "SessionError_FailedToWriteSessionData = 0x10000"

definition flag_error :: "u64 \<Rightarrow> SessionUpdateState \<Rightarrow> SessionUpdateState" where
  "flag_error e state = state\<lparr>su_Error := su_Error state OR e\<rparr>"

definition upd_input :: "(SDK_SessionData \<Rightarrow> SDK_SessionData) \<Rightarrow> SessionUpdateState \<Rightarrow> SessionUpdateState" where
  "upd_input f state = state\<lparr>su_Input := f (su_Input state)\<rparr>"

definition upd_output :: "(SDK_SessionData \<Rightarrow> SDK_SessionData) \<Rightarrow> SessionUpdateState \<Rightarrow> SessionUpdateState" where
  "upd_output f state = state\<lparr>su_Output := f (su_Output state)\<rparr>"

text \<open>\<open>int32\<close> of a \<open>float32\<close> that fits drops the fraction.\<close>

definition trunc_float :: "rat \<Rightarrow> int" where
  "trunc_float x = (if x \<ge> 0 then \<lfloor>x\<rfloor> else \<lceil>x\<rceil>)"

definition SessionUpdate_ReadSessionData :: "session_env \<Rightarrow> SessionUpdateState \<Rightarrow> bool \<times> SessionUpdateState" where
  "SessionUpdate_ReadSessionData env state =
     (let rq = su_Request state
      in if \<not> env_verify env (take (rq_SessionDataBytes rq) (rq_SessionData rq)) (rq_SessionDataSignature rq)
         then (False, flag_error SessionError_SessionDataSignatureCheckFailed state)
         else case env_decode env (rq_SessionData rq) of
           None \<Rightarrow> (False, flag_error SessionError_FailedToReadSessionData state)
         | Some d \<Rightarrow> (True, state\<lparr>su_Input := d\<rparr>))"

definition update_scores :: "SDK_SessionUpdateRequest \<Rightarrow> SDK_SessionData \<Rightarrow> SDK_SessionData" where
  "update_scores rq d =
     (if rq_SliceNumber rq \<ge> 1 then
        let score = GetSessionScore (trunc_float (rq_DirectRTT rq)) (trunc_float (rq_NextRTT rq))
        in if score \<le> sd_BestScore d then
             let direct = of_int (trunc_float (rq_DirectRTT rq)); nxt = of_int (trunc_float (rq_NextRTT rq))
             in d\<lparr>sd_BestScore := score, sd_BestDirectRTT := (if direct > 1000 then 1000 else direct),
                  sd_BestNextRTT := (if nxt > 1000 then 1000 else nxt)\<rparr>
           else d
      else d\<lparr>sd_BestScore := 999\<rparr>)"

text \<open>The result of \<open>Pre\<close> is whether the handler is done. The matrix is stale after thirty seconds.\<close>

definition SessionUpdate_Pre :: "session_env \<Rightarrow> SessionUpdateState \<Rightarrow> bool \<times> SessionUpdateState" where
  "SessionUpdate_Pre env state =
     (let rq = su_Request state;
          (ok, state) = (if rq_SliceNumber rq \<noteq> 0 then SessionUpdate_ReadSessionData env state else (True, state))
      in if \<not> ok then (True, state)
         else
           let state = upd_input (update_scores rq) state
           in if rq_FallbackToDirect rq then (True, flag_error SessionError_FallbackToDirect state)
              else if rq_ClientPingTimedOut rq then (True, state)
              else if env_CreatedAt env + 30 < env_now env then (True, flag_error SessionError_StaleRouteMatrix state)
              else
                let state = (if env_DatacenterExists env then state else flag_error SessionError_UnknownDatacenter state);
                    state = (if env_DatacenterEnabled env then state else flag_error SessionError_DatacenterNotEnabled state)
                in (False, state))"

definition SessionUpdate_NewSession :: "session_env \<Rightarrow> SessionUpdateState \<Rightarrow> SessionUpdateState" where
  "SessionUpdate_NewSession env state =
     (let d = su_Input state;
          input = d\<lparr>sd_Version := 8, sd_SessionId := rq_SessionId (su_Request state), sd_SliceNumber := 0, sd_StartTimestamp := env_now env,
            sd_ExpireTimestamp := env_now env, sd_RouteState := (sd_RouteState d)\<lparr>ABTest := ShaderABTest (env_RouteShader env)\<rparr>\<rparr>
      in state\<lparr>su_Input := input,
           su_Output := input\<lparr>sd_SliceNumber := sd_SliceNumber input + 1, sd_ExpireTimestamp := sd_ExpireTimestamp input + 10 * 2 + 5\<rparr>\<rparr>)"

text \<open>A percentage in floating point: both counters are rounded, their quotient, and the product.\<close>

definition real_percent :: "session_env \<Rightarrow> u64 \<Rightarrow> u64 \<Rightarrow> rat" where
  "real_percent env part whole =
     (if whole \<noteq> 0
      then env_round32 env (env_round32 env (env_round64 env (env_round64 env (of_nat (unat part)) / env_round64 env (of_nat (unat whole)))) * 100)
      else 0)"

definition SessionUpdate_ExistingSession :: "session_env \<Rightarrow> SessionUpdateState \<Rightarrow> SessionUpdateState" where
  "SessionUpdate_ExistingSession env state =
     (let input = su_Input state; rq = su_Request state
      in if sd_SessionId input \<noteq> rq_SessionId rq then flag_error SessionError_BadSessionId state
         else if sd_SliceNumber input \<noteq> rq_SliceNumber rq then flag_error SessionError_BadSliceNumber state
         else
           let shader = env_RouteShader env;
               out = input\<lparr>sd_SliceNumber := sd_SliceNumber input + 1, sd_ExpireTimestamp := sd_ExpireTimestamp input + 10\<rparr>;
               out = (if rq_Next rq then
                 out\<lparr>sd_NextEnvelopeBytesUpSum := sd_NextEnvelopeBytesUpSum out + of_int (BandwidthEnvelopeUpKbps shader) * 1000 * 10 div 8,
                     sd_NextEnvelopeBytesDownSum := sd_NextEnvelopeBytesDownSum out + of_int (BandwidthEnvelopeDownKbps shader) * 1000 * 10 div 8\<rparr>
                 else out);
               sentUp = rq_PacketsSentClientToServer rq - sd_PrevPacketsSentClientToServer input;
               sentDown = rq_PacketsSentServerToClient rq - sd_PrevPacketsSentServerToClient input;
               lossUp = real_percent env (rq_PacketsLostClientToServer rq - sd_PrevPacketsLostClientToServer input) sentUp;
               lossDown = real_percent env (rq_PacketsLostServerToClient rq - sd_PrevPacketsLostServerToClient input) sentDown;
               orderUp = real_percent env (rq_PacketsOutOfOrderClientToServer rq - sd_PrevPacketsOutOfOrderClientToServer input) sentUp;
               orderDown = real_percent env (rq_PacketsOutOfOrderServerToClient rq - sd_PrevPacketsOutOfOrderServerToClient input) sentDown;
               jitterUp = (if rq_JitterClientToServer rq > 1000 then 1000 else rq_JitterClientToServer rq);
               jitterDown = (if rq_JitterServerToClient rq > 1000 then 1000 else rq_JitterServerToClient rq)
           in state\<lparr>su_Output := out,
                su_RealPacketLoss := (if lossDown > lossUp then lossDown else lossUp),
                su_RealOutOfOrder := (if orderDown > orderUp then orderDown else orderUp),
                su_Request := rq\<lparr>rq_JitterClientToServer := jitterUp, rq_JitterServerToClient := jitterDown\<rparr>,
                su_RealJitter := (if jitterDown > jitterUp then jitterDown else jitterUp)\<rparr>)"

text \<open>Flags that are set when the client's relays change: the session looks like a VPN, has no usable relay, or only zeros.\<close>

definition note_client_relays :: "int list \<Rightarrow> rat list \<Rightarrow> bool list \<Rightarrow> SDK_SessionData \<Rightarrow> SDK_SessionData" where
  "note_client_relays latency loss exclude d =
     (let relays = zip latency (zip loss exclude);
          foundNonZeroRelay = list_ex (\<lambda>(l, p, x). l \<noteq> 0 \<or> p \<noteq> 0) relays;
          foundValidRelay = list_ex (\<lambda>(l, p, x). \<not> x) relays;
          foundLowLatency = list_ex (\<lambda>(l, p, x). \<not> x \<and> l \<le> 60) relays
      in d\<lparr>sd_LikelyVPNOrCrossRegion := sd_LikelyVPNOrCrossRegion d \<or> \<not> foundLowLatency \<and> foundValidRelay,
           sd_NoClientRelays := sd_NoClientRelays d \<or> \<not> foundValidRelay,
           sd_AllClientRelaysAreZero := sd_AllClientRelaysAreZero d \<or> \<not> foundNonZeroRelay\<rparr>)"

definition SessionUpdate_UpdateClientRelays :: "session_env \<Rightarrow> SessionUpdateState \<Rightarrow> SessionUpdateState option" where
  "SessionUpdate_UpdateClientRelays env state =
     (if su_Error state AND SessionError_DatacenterNotEnabled \<noteq> 0 then Some state
      else do {
        let rq = su_Request state;
        let state = (if rq_ClientRelayPingsHaveChanged rq then
          let (exclude, loss) = FilterSourceRelays (rq_DirectMaxPacketLossSeen rq) (rq_ClientRelayIds rq) (rq_ClientRelayRTT rq)
                (rq_ClientRelayPacketLoss rq) (sd_ExcludeClientRelay (su_Output state))
          in upd_output (note_client_relays (rq_ClientRelayRTT rq) loss exclude \<circ> (\<lambda>d. d\<lparr>sd_ExcludeClientRelay := exclude\<rparr>))
               (state\<lparr>su_Request := rq\<lparr>rq_ClientRelayPacketLoss := loss\<rparr>\<rparr>)
          else state);
        relays \<leftarrow> ReframeSourceRelays (env_RelayIdToIndex env) (rq_ClientRelayIds rq) (rq_ClientRelayRTT rq)
          (sd_ExcludeClientRelay (su_Output state));
        Some (state\<lparr>su_SourceRelays := map fst relays, su_SourceRelayRTT := map snd relays\<rparr>)
      })"

definition SessionUpdate_UpdateServerRelays :: "session_env \<Rightarrow> SessionUpdateState \<Rightarrow> SessionUpdateState option" where
  "SessionUpdate_UpdateServerRelays env state =
     (if su_Error state AND SessionError_DatacenterNotEnabled \<noteq> 0 then Some state
      else do {
        let rq = su_Request state;
        let state = (if rq_ServerRelayPingsHaveChanged rq then
          let exclude = FilterDestRelays (rq_ServerRelayRTT rq) (rq_ServerRelayJitter rq) (rq_ServerRelayPacketLoss rq)
                (sd_ExcludeServerRelay (su_Output state));
              foundValidRelay = list_ex Not (take (length (rq_ServerRelayIds rq)) exclude)
          in upd_output (\<lambda>d. d\<lparr>sd_ExcludeServerRelay := exclude, sd_NoServerRelays := sd_NoServerRelays d \<or> \<not> foundValidRelay\<rparr>) state
          else state);
        relays \<leftarrow> ReframeDestRelays (env_RelayIdToIndex env) (rq_ServerRelayIds rq) (sd_ExcludeServerRelay (su_Output state));
        Some (state\<lparr>su_DestRelays := relays\<rparr>)
      })"

text \<open>The nodes of a route: the client without its port, the relays as the database has them, the server.\<close>

definition end_node :: "udp_addr \<Rightarrow> bytes \<Rightarrow> route_node" where
  "end_node address key = \<lparr>publicAddress = address, hasInternalAddress = False, internalAddress = No_Addr, internalGroup = 0,
     seller = 0, secretKey = key\<rparr>"

definition without_port :: "udp_addr \<Rightarrow> udp_addr" where
  "without_port a = (case a of No_Addr \<Rightarrow> No_Addr | IPv4 ip _ \<Rightarrow> IPv4 ip 0 | IPv6 ip _ \<Rightarrow> IPv6 ip 0)"

definition those :: "'a option list \<Rightarrow> 'a list option" where
  "those xs = (if None \<in> set xs then None else Some (map the xs))"

definition route_nodes :: "session_env \<Rightarrow> SDK_SessionUpdateRequest \<Rightarrow> int list \<Rightarrow> route_node list option" where
  "route_nodes env rq routeRelays =
     do {
       relays \<leftarrow> those (map (element (env_Relays env)) routeRelays);
       Some (end_node (without_port (rq_ClientAddress rq)) (env_GenerateRemote env (rq_ClientRoutePublicKey rq)) # relays @
             [end_node (env_From env) (env_GenerateRemote env (rq_ServerRoutePublicKey rq))])
     }"

definition SessionUpdate_BuildNextTokens :: "session_env \<Rightarrow> SessionUpdateState \<Rightarrow> int list \<Rightarrow> SessionUpdateState option" where
  "SessionUpdate_BuildNextTokens env state routeRelays =
     do {
       let state = upd_output (\<lambda>d. d\<lparr>sd_SessionVersion := sd_SessionVersion d + 1\<rparr>) state;
       let out = su_Output state;
       nodes \<leftarrow> route_nodes env (su_Request state) routeRelays;
       let tokens = WriteRouteTokens (env_aead env) (env_nonces env) (env_privateKey env) (sd_ExpireTimestamp out) (sd_SessionId out)
         (ucast (sd_SessionVersion out)) (of_int (BandwidthEnvelopeUpKbps (env_RouteShader env)))
         (of_int (BandwidthEnvelopeDownKbps (env_RouteShader env))) nodes (replicate (length nodes * 111) 0);
       Some (state\<lparr>su_Response := (su_Response state)\<lparr>rs_RouteType := SDK_RouteTypeNew, rs_NumTokens := int (length nodes),
         rs_Tokens := tokens\<rparr>\<rparr>)
     }"

definition SessionUpdate_BuildContinueTokens :: "session_env \<Rightarrow> SessionUpdateState \<Rightarrow> int list \<Rightarrow> SessionUpdateState option" where
  "SessionUpdate_BuildContinueTokens env state routeRelays =
     do {
       let out = su_Output state;
       nodes \<leftarrow> route_nodes env (su_Request state) routeRelays;
       let tokens = WriteContinueTokens (env_aead env) (env_nonces env) (sd_ExpireTimestamp out) (sd_SessionId out)
         (ucast (sd_SessionVersion out)) (map secretKey nodes) (replicate (length nodes * 57) 0);
       Some (state\<lparr>su_Response := (su_Response state)\<lparr>rs_RouteType := SDK_RouteTypeContinue, rs_NumTokens := int (length nodes),
         rs_Tokens := tokens\<rparr>\<rparr>)
     }"

definition veto_session :: "u64 \<Rightarrow> SessionUpdateState \<Rightarrow> SessionUpdateState" where
  "veto_session e state =
     flag_error e (upd_output (\<lambda>d. d\<lparr>sd_RouteState := (sd_RouteState d)\<lparr>Next := False, Veto := True\<rparr>\<rparr>) state)"

text \<open>The end of a decision: the route is stored in terms of relay ids, its cost cut off at 255.\<close>

definition store_route :: "session_env \<Rightarrow> SessionUpdateState \<Rightarrow> bool \<Rightarrow> RouteOut \<Rightarrow> SessionUpdateState option" where
  "store_route env state routeChanged out =
     do {
       ids \<leftarrow> those (map (element (env_RelayIds env)) (OutRelays out));
       Some (upd_output (\<lambda>d. d\<lparr>sd_RouteCost := (if OutCost out > 255 then 255 else OutCost out), sd_RouteChanged := routeChanged,
           sd_RouteNumRelays := int (length (OutRelays out)), sd_RouteRelayIds := overwrite 0 ids (sd_RouteRelayIds d)\<rparr>)
         (state\<lparr>su_Response := (su_Response state)\<lparr>rs_Multipath := True\<rparr>\<rparr>))
     }"

definition decide_take :: "session_env \<Rightarrow> SessionUpdateState \<Rightarrow> SessionUpdateState option" where
  "decide_take env state =
     do {
       let rq = su_Request state;
       (taken, st, costs, out) \<leftarrow> MakeRouteDecision_TakeNetworkNext (env_pick env) (rq_UserHash rq) (env_RouteEntries env) (env_RouteShader env)
         (sd_RouteState (su_Output state)) (trunc_float (rq_DirectRTT rq)) (su_RealPacketLoss state) (su_SourceRelays state)
         (su_SourceRelayRTT state) (su_DestRelays state) no_out (sint (rq_SliceNumber rq));
       let state = upd_output (\<lambda>d. d\<lparr>sd_RouteState := st\<rparr>) (state\<lparr>su_SourceRelayRTT := costs\<rparr>);
       state \<leftarrow> (if taken then SessionUpdate_BuildNextTokens env state (OutRelays out) else Some state);
       store_route env state False out
     }"

definition decide_stay :: "session_env \<Rightarrow> SessionUpdateState \<Rightarrow> SessionUpdateState option" where
  "decide_stay env state =
     do {
       let rq = su_Request state;
       let out = su_Output state;
       if \<not> (0 \<le> sd_RouteNumRelays out \<and> nat (sd_RouteNumRelays out) \<le> length (sd_RouteRelayIds out)) then None
       else do {
         (found, relays) \<leftarrow> ReframeRoute (env_RelayIdToIndex env) (take (nat (sd_RouteNumRelays out)) (sd_RouteRelayIds out)) 0 (replicate 5 0);
         let (state, relays) = (if found then (state, relays) else (flag_error SessionError_RouteRelayNoLongerExists state, replicate 5 0));
         (stay, routeChanged, st, costs, route) \<leftarrow> MakeRouteDecision_StayOnNetworkNext (env_pick env) (rq_UserHash rq) (env_RouteEntries env)
           (env_RouteShader env) (sd_RouteState out) (trunc_float (rq_DirectRTT rq)) (sd_RouteNumRelays out) relays (su_SourceRelays state)
           (su_SourceRelayRTT state) (su_DestRelays state) no_out;
         let state = upd_output (\<lambda>d. d\<lparr>sd_RouteState := st\<rparr>) (state\<lparr>su_SourceRelayRTT := costs\<rparr>);
         state \<leftarrow> (if stay then
             if routeChanged then SessionUpdate_BuildNextTokens env state (OutRelays route)
             else SessionUpdate_BuildContinueTokens env state (OutRelays route)
           else Some (if NoRoute st then flag_error SessionError_RouteNoLongerExists state else state));
         store_route env state routeChanged route
       }
     }"

definition SessionUpdate_MakeRouteDecision :: "session_env \<Rightarrow> SessionUpdateState \<Rightarrow> SessionUpdateState option" where
  "SessionUpdate_MakeRouteDecision env state =
     (let input = su_Input state
      in if Next (sd_RouteState input) \<and> sd_RouteNumRelays input = 0 then Some (veto_session SessionError_NoRouteRelays state)
         else if \<not> Next (sd_RouteState input) then decide_take env state
         else if \<not> rq_Next (su_Request state) then Some (veto_session SessionError_Aborted state)
         else decide_stay env state)"

text \<open>The summary is written once, at the end of the session.\<close>

definition update_summary :: "SDK_SessionUpdateRequest \<Rightarrow> SDK_SessionData \<Rightarrow> SDK_SessionData" where
  "update_summary rq d =
     (if rq_ClientPingTimedOut rq \<or> rq_FallbackToDirect rq then
        if \<not> sd_WroteSummary d \<and> \<not> sd_WriteSummary d then d\<lparr>sd_WriteSummary := True\<rparr>
        else if sd_WriteSummary d \<and> \<not> sd_WroteSummary d then d\<lparr>sd_WroteSummary := True, sd_WriteSummary := False\<rparr>
        else d
      else d)"

definition update_portal :: "session_env \<Rightarrow> SessionUpdateState \<Rightarrow> SessionUpdateState" where
  "update_portal env state =
     (let rq = su_Request state; wanted = (\<not> env_PortalNextSessionsOnly env \<or> Next (sd_RouteState (su_Output state)));
          state = (if rq_ClientRelayPingsHaveChanged rq
            then upd_input (\<lambda>d. d\<lparr>sd_SentClientRelaysToPortal := False\<rparr>)
                   (upd_output (\<lambda>d. d\<lparr>sd_ShouldSendClientRelaysToPortal := True, sd_SentClientRelaysToPortal := False\<rparr>) state) else state);
          state = (if \<not> sd_SentClientRelaysToPortal (su_Input state) \<and> sd_ShouldSendClientRelaysToPortal (su_Output state) \<and> wanted
            then upd_output (\<lambda>d. d\<lparr>sd_SentClientRelaysToPortal := True\<rparr>) state else state);
          state = (if rq_ServerRelayPingsHaveChanged rq
            then upd_input (\<lambda>d. d\<lparr>sd_SentServerRelaysToPortal := False\<rparr>)
                   (upd_output (\<lambda>d. d\<lparr>sd_ShouldSendServerRelaysToPortal := True, sd_SentServerRelaysToPortal := False\<rparr>) state) else state)
      in if \<not> sd_SentServerRelaysToPortal (su_Input state) \<and> sd_ShouldSendServerRelaysToPortal (su_Output state) \<and> wanted
         then upd_output (\<lambda>d. d\<lparr>sd_SentServerRelaysToPortal := True\<rparr>) state else state)"

definition store_counters :: "SDK_SessionUpdateRequest \<Rightarrow> SDK_SessionData \<Rightarrow> SDK_SessionData" where
  "store_counters rq d =
     d\<lparr>sd_PrevPacketsSentClientToServer := rq_PacketsSentClientToServer rq,
       sd_PrevPacketsSentServerToClient := rq_PacketsSentServerToClient rq,
       sd_PrevPacketsLostClientToServer := rq_PacketsLostClientToServer rq,
       sd_PrevPacketsLostServerToClient := rq_PacketsLostServerToClient rq,
       sd_PrevPacketsOutOfOrderClientToServer := rq_PacketsOutOfOrderClientToServer rq,
       sd_PrevPacketsOutOfOrderServerToClient := rq_PacketsOutOfOrderServerToClient rq\<rparr>"

definition SessionUpdate_Post :: "session_env \<Rightarrow> SessionUpdateState \<Rightarrow> SessionUpdateState" where
  "SessionUpdate_Post env state =
     (let state = update_portal env state;
          state = upd_output (\<lambda>d. d\<lparr>sd_Error := sd_Error (su_Input state) OR su_Error state\<rparr>) state;
          state = (if Next (sd_RouteState (su_Input state))
            then upd_output (\<lambda>d. d\<lparr>sd_DurationOnNext := sd_DurationOnNext d + 10\<rparr>) state else state);
          state = upd_output (\<lambda>d. (update_summary (su_Request state) (store_counters (su_Request state) d))\<lparr>sd_Version := 8\<rparr>) state
      in case env_encode env (su_Output state) of
           None \<Rightarrow> flag_error SessionError_FailedToWriteSessionData state
         | Some data \<Rightarrow> state\<lparr>su_Response := (su_Response state)\<lparr>rs_SessionData := data, rs_SessionDataSignature := env_sign env data\<rparr>\<rparr>)"

definition initial_state :: "SDK_SessionUpdateRequest \<Rightarrow> SessionUpdateState" where
  "initial_state rq =
     \<lparr>su_Input = zero_session_data, su_Output = zero_session_data, su_Request = rq,
      su_Response = \<lparr>rs_SessionId = rq_SessionId rq, rs_SliceNumber = rq_SliceNumber rq, rs_RouteType = SDK_RouteTypeDirect, rs_NumTokens = 0, rs_Tokens = [], rs_Multipath = False, rs_SessionData = [],
        rs_SessionDataSignature = []\<rparr>,
      su_RealPacketLoss = 0, su_RealJitter = 0, su_RealOutOfOrder = 0, su_DestRelays = [], su_SourceRelays = [], su_SourceRelayRTT = [],
      su_Error = 0\<rparr>"

text \<open>\<open>modules/handlers/sdk_handlers.go\<close>: the handler of a session update request.\<close>

definition SDK_ProcessSessionUpdateRequestPacket :: "session_env \<Rightarrow> SDK_SessionUpdateRequest \<Rightarrow> SessionUpdateState option" where
  "SDK_ProcessSessionUpdateRequestPacket env rq =
     (let (done, state) = SessionUpdate_Pre env (initial_state rq)
      in if done then Some (SessionUpdate_Post env (state\<lparr>su_Output := su_Input state\<rparr>))
         else do {
           let state = (if rq_SliceNumber rq = 0 then SessionUpdate_NewSession env state else SessionUpdate_ExistingSession env state);
           state \<leftarrow> SessionUpdate_UpdateClientRelays env state;
           state \<leftarrow> SessionUpdate_UpdateServerRelays env state;
           state \<leftarrow> SessionUpdate_MakeRouteDecision env state;
           Some (SessionUpdate_Post env state)
         })"

text \<open>What the serializer of session data requires, and that a session on a route has one and is not blocked.\<close>

definition session_ok :: "SDK_SessionData \<Rightarrow> bool" where
  "session_ok d \<longleftrightarrow>
     0 \<le> sd_RouteNumRelays d \<and> sd_RouteNumRelays d \<le> 5 \<and> length (sd_RouteRelayIds d) = 5 \<and>
     0 \<le> sd_RouteCost d \<and> sd_RouteCost d \<le> 255 \<and>
     sd_BestScore d \<le> 999 \<and> sd_BestDirectRTT d \<le> 1000 \<and> sd_BestNextRTT d \<le> 1000 \<and>
     length (sd_ExcludeClientRelay d) = 16 \<and> length (sd_ExcludeServerRelay d) = 8 \<and>
     (Next (sd_RouteState d) \<longrightarrow> \<not> blocked (sd_RouteState d) \<and> 2 \<le> sd_RouteNumRelays d)"

text \<open>A request: its parallel arrays have the same lengths within their limits, the direct round trip time is a small number.\<close>

definition request_ok :: "SDK_SessionUpdateRequest \<Rightarrow> bool" where
  "request_ok rq \<longleftrightarrow>
     length (rq_ClientRelayIds rq) \<le> 16 \<and> length (rq_ClientRelayRTT rq) = length (rq_ClientRelayIds rq) \<and>
     length (rq_ClientRelayPacketLoss rq) = length (rq_ClientRelayIds rq) \<and>
     length (rq_ServerRelayIds rq) \<le> 8 \<and> length (rq_ServerRelayRTT rq) = length (rq_ServerRelayIds rq) \<and>
     length (rq_ServerRelayJitter rq) = length (rq_ServerRelayIds rq) \<and>
     length (rq_ServerRelayPacketLoss rq) = length (rq_ServerRelayIds rq) \<and>
     small (trunc_float (rq_DirectRTT rq))"

text \<open>The route matrix of n relays that the database knows.\<close>

definition env_ok :: "nat \<Rightarrow> session_env \<Rightarrow> bool" where
  "env_ok n env \<longleftrightarrow>
     matrix_ok n (env_RouteEntries env) \<and> shader_ok (env_RouteShader env) \<and> picks (env_pick env) \<and>
     length (env_RelayIds env) = n \<and> n \<le> length (env_Relays env) \<and>
     (\<forall>i k. env_RelayIdToIndex env i = Some k \<longrightarrow> 0 \<le> k \<and> k < int n) \<and> 0 < n"

text \<open>The session data a request brings, if it can be read.\<close>

definition brought :: "session_env \<Rightarrow> SDK_SessionUpdateRequest \<Rightarrow> SDK_SessionData option" where
  "brought env rq =
     (if rq_SliceNumber rq = 0 then Some zero_session_data
      else if env_verify env (take (rq_SessionDataBytes rq) (rq_SessionData rq)) (rq_SessionDataSignature rq)
      then env_decode env (rq_SessionData rq) else None)"

text \<open>What the steps up to the decision keep: the input, the response and the route of the output.\<close>

definition keeps_route :: "SessionUpdateState \<Rightarrow> SessionUpdateState \<Rightarrow> bool" where
  "keeps_route s s' \<longleftrightarrow>
     su_Input s' = su_Input s \<and> su_Response s' = su_Response s \<and> rq_Next (su_Request s') = rq_Next (su_Request s) \<and>
     request_ok (su_Request s') \<and> session_ok (su_Output s') \<and>
     sd_RouteState (su_Output s') = sd_RouteState (su_Output s) \<and> sd_RouteNumRelays (su_Output s') = sd_RouteNumRelays (su_Output s)"

text \<open>The answer to a request: direct, or the tokens of the client, two to five relays and the server.\<close>

definition answer_ok :: "SDK_SessionUpdateResponse \<Rightarrow> bool" where
  "answer_ok r \<longleftrightarrow> (rs_RouteType r = SDK_RouteTypeDirect \<longrightarrow> rs_NumTokens r = 0 \<and> rs_Tokens r = []) \<and>
     (rs_RouteType r \<noteq> SDK_RouteTypeDirect \<longrightarrow> 4 \<le> rs_NumTokens r \<and> rs_NumTokens r \<le> 7)"

definition relays_ok :: "nat \<Rightarrow> int list \<Rightarrow> bool" where
  "relays_ok n rs \<longleftrightarrow> (\<forall>x \<in> set rs. 0 \<le> x \<and> x < int n) \<and> 2 \<le> length rs \<and> length rs \<le> 5"

text \<open>Writing tokens changes the session version and the response only.\<close>

definition same_but_tokens :: "SessionUpdateState \<Rightarrow> SessionUpdateState \<Rightarrow> bool" where
  "same_but_tokens s s' \<longleftrightarrow>
     (\<exists>v. su_Output s' = (su_Output s)\<lparr>sd_SessionVersion := v\<rparr>) \<and> su_Input s' = su_Input s \<and> su_Request s' = su_Request s"

text \<open>The part of the session data that is not the route.\<close>

definition base_ok :: "SDK_SessionData \<Rightarrow> bool" where
  "base_ok d \<longleftrightarrow>
     length (sd_RouteRelayIds d) = 5 \<and> sd_BestScore d \<le> 999 \<and> sd_BestDirectRTT d \<le> 1000 \<and> sd_BestNextRTT d \<le> 1000 \<and>
     length (sd_ExcludeClientRelay d) = 16 \<and> length (sd_ExcludeServerRelay d) = 8"

text \<open>The state a decision starts from.\<close>

definition ready :: "nat \<Rightarrow> SessionUpdateState \<Rightarrow> bool" where
  "ready n s \<longleftrightarrow> session_ok (su_Output s) \<and> request_ok (su_Request s) \<and> sources_ok n (su_SourceRelays s) (su_SourceRelayRTT s) \<and>
     dests_ok n (su_DestRelays s) \<and> rs_RouteType (su_Response s) = SDK_RouteTypeDirect \<and> answer_ok (su_Response s)"

text \<open>What it comes to.\<close>

definition decided :: "SessionUpdateState \<Rightarrow> SessionUpdateState \<Rightarrow> bool" where
  "decided s s' \<longleftrightarrow> session_ok (su_Output s') \<and> answer_ok (su_Response s') \<and>
     (rs_RouteType (su_Response s') \<noteq> SDK_RouteTypeDirect \<longrightarrow> \<not> blocked (sd_RouteState (su_Output s')) \<and> \<not> blocked (sd_RouteState (su_Output s))) \<and>
     (blocked (sd_RouteState (su_Output s)) \<longrightarrow> blocked (sd_RouteState (su_Output s'))) \<and>
     (Next (sd_RouteState (su_Output s')) \<longrightarrow> rs_RouteType (su_Response s') \<noteq> SDK_RouteTypeDirect) \<and>
     (Next (sd_RouteState (su_Output s)) \<longrightarrow> Next (sd_RouteState (su_Output s')) \<or> Veto (sd_RouteState (su_Output s')))"

text \<open>The session a request goes on with: a new one, or the session data it brings, signed by the backend and of this session and
  slice.\<close>

definition resumes :: "session_env \<Rightarrow> SDK_SessionUpdateRequest \<Rightarrow> SDK_SessionData \<Rightarrow> bool" where
  "resumes env rq d \<longleftrightarrow> brought env rq = Some d \<and>
     (rq_SliceNumber rq \<noteq> 0 \<longrightarrow> sd_SessionId d = rq_SessionId rq \<and> sd_SliceNumber d = rq_SliceNumber rq)"

text \<open>The result of a session update on a session with state \<open>st\<close>.\<close>

definition updated :: "RouteState \<Rightarrow> SessionUpdateState \<Rightarrow> bool" where
  "updated st s \<longleftrightarrow> session_ok (su_Output s) \<and> answer_ok (su_Response s) \<and>
     (rs_RouteType (su_Response s) \<noteq> SDK_RouteTypeDirect \<longrightarrow> \<not> blocked (sd_RouteState (su_Output s)) \<and> \<not> blocked st) \<and>
     (blocked st \<longrightarrow> blocked (sd_RouteState (su_Output s))) \<and>
     (Next st \<longrightarrow> Next (sd_RouteState (su_Output s)) \<or> Veto (sd_RouteState (su_Output s)))"

text \<open>A session over its requests: each goes on with the data of the last response. Routes, relays and settings may change in between.\<close>

inductive session_run :: "SDK_SessionData \<Rightarrow> route_type list \<Rightarrow> SDK_SessionData \<Rightarrow> bool" where
  run_start: "session_run d [] d"
| run_update: "session_run d ts d' \<Longrightarrow> env_ok n env \<Longrightarrow> request_ok rq \<Longrightarrow> resumes env rq d' \<Longrightarrow>
    SDK_ProcessSessionUpdateRequestPacket env rq = Some s \<Longrightarrow>
    session_run d (ts @ [rs_RouteType (su_Response s)]) (su_Output s)"

inductive_cases run_updateE: "session_run d (ts @ [t]) d'"

definition example_relay :: "u8 \<Rightarrow> route_node" where
  "example_relay i = end_node (IPv4 [10, 0, 0, i] 40000) (replicate 32 i)"

definition example_env :: "SDK_SessionData \<Rightarrow> session_env" where
  "example_env d = \<lparr>env_now = 1000, env_verify = (\<lambda>_ _. True), env_sign = (\<lambda>_. replicate 64 0), env_decode = (\<lambda>_. Some d),
     env_encode = (\<lambda>_. Some []), env_DatacenterExists = True, env_DatacenterEnabled = True, env_RouteShader = NewRouteShader,
     env_CreatedAt = 990, env_RelayIds = [11, 22, 33],
     env_RelayIdToIndex = (\<lambda>i. if i = 11 then Some 0 else if i = 22 then Some 1 else if i = 33 then Some 2 else None),
     env_RouteEntries = Optimize 3 triangle_costs [1, 2, 3] None, env_Relays = map example_relay [1, 2, 3],
     env_From = IPv4 [10, 0, 0, 9] 50000, env_GenerateRemote = (\<lambda>_. replicate 32 0),
     env_aead = \<lparr>Seal = (\<lambda>_ _ _. []), Open = (\<lambda>_ _ _. None)\<rparr>, env_nonces = (\<lambda>_. []), env_privateKey = [], env_pick = (\<lambda>_. 0),
     env_round64 = (\<lambda>x. x), env_round32 = (\<lambda>x. x), env_PortalNextSessionsOnly = False\<rparr>"

definition example_request :: SDK_SessionUpdateRequest where
  "example_request = \<lparr>rq_SessionId = 7, rq_SliceNumber = 1, rq_SessionDataBytes = 0, rq_SessionData = [], rq_SessionDataSignature = [],
     rq_ClientAddress = IPv4 [10, 0, 0, 8] 30000, rq_ClientRoutePublicKey = [], rq_ServerRoutePublicKey = [], rq_UserHash = 4,
     rq_Next = False, rq_FallbackToDirect = False, rq_ClientPingTimedOut = False, rq_ClientRelayPingsHaveChanged = True,
     rq_ServerRelayPingsHaveChanged = True, rq_DirectRTT = 200, rq_DirectMaxPacketLossSeen = 0, rq_NextRTT = 0,
     rq_ClientRelayIds = [22], rq_ClientRelayRTT = [20], rq_ClientRelayPacketLoss = [0], rq_ServerRelayIds = [11], rq_ServerRelayRTT = [1],
     rq_ServerRelayJitter = [0], rq_ServerRelayPacketLoss = [0], rq_PacketsSentClientToServer = 100, rq_PacketsSentServerToClient = 100,
     rq_PacketsLostClientToServer = 0, rq_PacketsLostServerToClient = 0, rq_PacketsOutOfOrderClientToServer = 0,
     rq_PacketsOutOfOrderServerToClient = 0, rq_JitterClientToServer = 0, rq_JitterServerToClient = 0\<rparr>"

definition example_session :: "u64 \<Rightarrow> SDK_SessionData" where
  "example_session i = zero_session_data\<lparr>sd_Version := 8, sd_SessionId := i, sd_SliceNumber := 1, sd_ExpireTimestamp := 1025, sd_BestScore := 999\<rparr>"

definition vetoed_session :: SDK_SessionData where
  "vetoed_session = (example_session 7)\<lparr>sd_RouteState := zero_route_state\<lparr>Veto := True\<rparr>\<rparr>"

section \<open>Well-formed session data\<close>

lemma zero_session_ok: "session_ok zero_session_data" "\<not> Next (sd_RouteState zero_session_data)" "\<not> blocked zero_route_state"
  by (simp_all add: session_ok_def zero_session_data_def zero_route_state_def blocked_def)

lemma update_scores_ok: "session_ok d \<Longrightarrow> session_ok (update_scores rq d)"
  using GetSessionScore_range [of "trunc_float (rq_DirectRTT rq)" "trunc_float (rq_NextRTT rq)"]
  by (auto simp: session_ok_def update_scores_def Let_def)

lemma update_scores_route [simp]: "sd_RouteState (update_scores rq d) = sd_RouteState d"
    "sd_SessionId (update_scores rq d) = sd_SessionId d" "sd_SliceNumber (update_scores rq d) = sd_SliceNumber d"
    "sd_RouteNumRelays (update_scores rq d) = sd_RouteNumRelays d"
  by (simp_all add: update_scores_def Let_def)

text \<open>What \<open>Pre\<close> leaves: the session data of the request with new scores, nothing else touched but the error flags.\<close>

lemma Pre_result:
  assumes "SessionUpdate_Pre env (initial_state rq) = (done, s)"
  shows "su_Output s = zero_session_data" "su_Request s = rq" "su_Response s = su_Response (initial_state rq)"
    "su_SourceRelays s = []" "su_SourceRelayRTT s = []" "su_DestRelays s = []"
    "brought env rq = None \<Longrightarrow> done \<and> su_Input s = zero_session_data"
    "brought env rq = Some d \<Longrightarrow> su_Input s = update_scores rq d"
  using assms
  by (auto simp: SessionUpdate_Pre_def SessionUpdate_ReadSessionData_def brought_def Let_def initial_state_def flag_error_def upd_input_def
      split: if_splits option.splits prod.splits)

section \<open>The steps before the decision\<close>

lemma keeps_route_trans: "keeps_route s s1 \<Longrightarrow> keeps_route s1 s2 \<Longrightarrow> keeps_route s s2"
  by (simp add: keeps_route_def)

lemma length_flag_where [simp]: "length (flag_where bad xs flags) = length flags"
proof -
  have "length (fold (\<lambda>(i, x) flags. if bad x then flags[i := True] else flags) ys flags) = length flags" for ys flags
    by (induction ys arbitrary: flags) (auto split: prod.splits)
  then show ?thesis by (simp add: flag_where_def)
qed

lemma ReframeSourceRelays_ok:
  assumes "\<forall>i k. toIndex i = Some k \<longrightarrow> 0 \<le> k \<and> k < int n" "length ids \<le> length latencies" "length ids \<le> length excludes"
  shows "\<exists>rs. ReframeSourceRelays toIndex ids latencies excludes = Some rs \<and> sources_ok n (map fst rs) (map snd rs)"
  using assms(2,3)
proof (induction ids arbitrary: latencies excludes)
  case Nil
  then show ?case by (simp add: sources_ok_def)
next
  case (Cons i ids)
  obtain l ls where l: "latencies = l # ls" using Cons.prems(1) by (cases latencies) auto
  obtain e es where e: "excludes = e # es" using Cons.prems(2) by (cases excludes) auto
  obtain rs where rs: "ReframeSourceRelays toIndex ids ls es = Some rs" "sources_ok n (map fst rs) (map snd rs)"
    using Cons.IH [of ls es] Cons.prems l e by auto
  obtain x c where x: "reframe_source toIndex i l e = (x, c)" by fastforce
  have "c < 255 \<longrightarrow> 0 \<le> x \<and> x < int n \<and> 0 \<le> c"
    using x assms(1) by (auto simp: reframe_source_def split: if_splits option.splits)
  then show ?case using rs l e x by (simp add: sources_ok_Cons)
qed

lemma ReframeDestRelays_ok:
  assumes "\<forall>i k. toIndex i = Some k \<longrightarrow> 0 \<le> k \<and> k < int n" "length ids \<le> length excludes"
  shows "\<exists>rs. ReframeDestRelays toIndex ids excludes = Some rs \<and> dests_ok n rs"
  using assms(2)
proof (induction ids arbitrary: excludes)
  case Nil
  then show ?case by (simp add: dests_ok_def)
next
  case (Cons i ids)
  obtain e es where e: "excludes = e # es" using Cons.prems by (cases excludes) auto
  obtain rs where rs: "ReframeDestRelays toIndex ids es = Some rs" "dests_ok n rs" using Cons.IH [of es] Cons.prems e by auto
  then show ?case using assms(1) e by (auto simp: dests_ok_def split: option.splits)
qed

lemma ReframeRoute_ok:
  assumes "\<forall>i k. toIndex i = Some k \<longrightarrow> 0 \<le> k \<and> k < int n" "i + length ids \<le> length out" "\<forall>x \<in> set out. 0 \<le> x \<and> x < int n"
  shows "\<exists>found out'. ReframeRoute toIndex ids i out = Some (found, out') \<and> length out' = length out \<and> (\<forall>x \<in> set out'. 0 \<le> x \<and> x < int n)"
  using assms(2,3)
proof (induction ids arbitrary: i out)
  case (Cons a ids)
  show ?case
  proof (cases "toIndex a")
    case None
    then show ?thesis using Cons.prems by (intro exI [of _ False]) simp
  next
    case (Some k)
    have "set (out[i := k]) \<subseteq> insert k (set out)" "0 \<le> k" "k < int n"
      using Some assms(1) set_update_subset_insert [of out i k] by auto
    then have "\<forall>x \<in> set (out[i := k]). 0 \<le> x \<and> x < int n" using Cons.prems(2) by auto
    then show ?thesis using Cons.IH [of "i + 1" "out[i := k]"] Cons.prems(1) Some by simp
  qed
qed (auto intro: exI [of _ True])

lemma ExistingSession_keeps:
  fixes env
  assumes "session_ok (su_Input s)" "su_Output s = zero_session_data" "request_ok (su_Request s)"
  defines "s' \<equiv> SessionUpdate_ExistingSession env s"
  shows "su_Input s' = su_Input s" "su_Response s' = su_Response s" "rq_Next (su_Request s') = rq_Next (su_Request s)"
    "request_ok (su_Request s')" "session_ok (su_Output s')" "su_SourceRelays s' = su_SourceRelays s"
    "su_SourceRelayRTT s' = su_SourceRelayRTT s" "su_DestRelays s' = su_DestRelays s"
    "sd_SessionId (su_Input s) = rq_SessionId (su_Request s) \<Longrightarrow> sd_SliceNumber (su_Input s) = rq_SliceNumber (su_Request s) \<Longrightarrow>
      sd_RouteState (su_Output s') = sd_RouteState (su_Input s) \<and> sd_RouteNumRelays (su_Output s') = sd_RouteNumRelays (su_Input s)"
    "\<not> (sd_SessionId (su_Input s) = rq_SessionId (su_Request s) \<and> sd_SliceNumber (su_Input s) = rq_SliceNumber (su_Request s)) \<Longrightarrow>
      su_Output s' = zero_session_data"
  using assms(1-3) zero_session_ok
  by (auto simp: s'_def SessionUpdate_ExistingSession_def flag_error_def Let_def session_ok_def request_ok_def)

lemma NewSession_keeps:
  fixes env
  assumes "session_ok (su_Input s)" "\<not> Next (sd_RouteState (su_Input s))"
  defines "s' \<equiv> SessionUpdate_NewSession env s"
  shows "su_Response s' = su_Response s" "su_Request s' = su_Request s" "session_ok (su_Input s')" "session_ok (su_Output s')"
    "\<not> Next (sd_RouteState (su_Input s'))" "su_SourceRelays s' = su_SourceRelays s" "su_SourceRelayRTT s' = su_SourceRelayRTT s"
    "su_DestRelays s' = su_DestRelays s"
  using assms(1,2) by (auto simp: s'_def SessionUpdate_NewSession_def Let_def session_ok_def)

lemma note_client_relays_keeps [simp]:
  "session_ok (note_client_relays latency loss exclude d) = session_ok d"
  "sd_RouteState (note_client_relays latency loss exclude d) = sd_RouteState d"
  "sd_RouteNumRelays (note_client_relays latency loss exclude d) = sd_RouteNumRelays d"
  "sd_ExcludeClientRelay (note_client_relays latency loss exclude d) = sd_ExcludeClientRelay d"
  by (simp_all add: note_client_relays_def Let_def session_ok_def)

lemma session_ok_excludes:
  "session_ok d \<Longrightarrow> length x = 16 \<Longrightarrow> session_ok (d\<lparr>sd_ExcludeClientRelay := x\<rparr>)"
  "session_ok d \<Longrightarrow> length x = 8 \<Longrightarrow> session_ok (d\<lparr>sd_ExcludeServerRelay := x, sd_NoServerRelays := b\<rparr>)"
  by (simp_all add: session_ok_def)

lemma FilterSourceRelays_lengths:
  "FilterSourceRelays direct ids latency loss flags = (exclude, loss') \<Longrightarrow> length exclude = length flags \<and> length loss' = length loss"
  by (auto simp: FilterSourceRelays_def Let_def)

lemma UpdateClientRelays_ok:
  assumes env: "env_ok n env" and rq: "request_ok (su_Request s)" and out: "session_ok (su_Output s)"
    and ss: "sources_ok n (su_SourceRelays s) (su_SourceRelayRTT s)"
  shows "\<exists>s'. SessionUpdate_UpdateClientRelays env s = Some s' \<and> keeps_route s s' \<and>
    sources_ok n (su_SourceRelays s') (su_SourceRelayRTT s') \<and> su_DestRelays s' = su_DestRelays s"
proof (cases "su_Error s AND SessionError_DatacenterNotEnabled \<noteq> 0")
  case True
  then show ?thesis using assms by (simp add: SessionUpdate_UpdateClientRelays_def keeps_route_def)
next
  case False
  let ?rq = "su_Request s"
  define s1 where "s1 = (if rq_ClientRelayPingsHaveChanged ?rq then
          let (exclude, loss) = FilterSourceRelays (rq_DirectMaxPacketLossSeen ?rq) (rq_ClientRelayIds ?rq) (rq_ClientRelayRTT ?rq)
                (rq_ClientRelayPacketLoss ?rq) (sd_ExcludeClientRelay (su_Output s))
          in upd_output (note_client_relays (rq_ClientRelayRTT ?rq) loss exclude \<circ> (\<lambda>d. d\<lparr>sd_ExcludeClientRelay := exclude\<rparr>))
               (s\<lparr>su_Request := ?rq\<lparr>rq_ClientRelayPacketLoss := loss\<rparr>\<rparr>)
          else s)"
  have k: "keeps_route s s1" "length (sd_ExcludeClientRelay (su_Output s1)) = 16" "su_DestRelays s1 = su_DestRelays s"
  proof -
    obtain exclude loss where f: "FilterSourceRelays (rq_DirectMaxPacketLossSeen ?rq) (rq_ClientRelayIds ?rq) (rq_ClientRelayRTT ?rq)
        (rq_ClientRelayPacketLoss ?rq) (sd_ExcludeClientRelay (su_Output s)) = (exclude, loss)" by fastforce
    have l: "length exclude = 16" "length loss = length (rq_ClientRelayPacketLoss ?rq)" "length (sd_ExcludeClientRelay (su_Output s)) = 16"
      using FilterSourceRelays_lengths [OF f] out by (auto simp: session_ok_def)
    have r: "request_ok (?rq\<lparr>rq_ClientRelayPacketLoss := loss\<rparr>)" using rq l(2) by (simp add: request_ok_def)
    show "keeps_route s s1" "length (sd_ExcludeClientRelay (su_Output s1)) = 16" "su_DestRelays s1 = su_DestRelays s"
      using rq out l r session_ok_excludes(1) [OF out l(1)] by (simp_all add: s1_def f keeps_route_def upd_output_def)
  qed
  obtain rs where rs: "ReframeSourceRelays (env_RelayIdToIndex env) (rq_ClientRelayIds ?rq) (rq_ClientRelayRTT ?rq)
      (sd_ExcludeClientRelay (su_Output s1)) = Some rs" "sources_ok n (map fst rs) (map snd rs)"
    using ReframeSourceRelays_ok [of "env_RelayIdToIndex env" n "rq_ClientRelayIds ?rq" "rq_ClientRelayRTT ?rq"
        "sd_ExcludeClientRelay (su_Output s1)"] env rq k(2) by (auto simp: env_ok_def request_ok_def)
  have "SessionUpdate_UpdateClientRelays env s = Some (s1\<lparr>su_SourceRelays := map fst rs, su_SourceRelayRTT := map snd rs\<rparr>)"
    using False rs(1) unfolding s1_def SessionUpdate_UpdateClientRelays_def by (simp add: Let_def)
  then show ?thesis using k rs(2) by (simp add: keeps_route_def)
qed

lemma UpdateServerRelays_ok:
  assumes env: "env_ok n env" and rq: "request_ok (su_Request s)" and out: "session_ok (su_Output s)" and ds: "dests_ok n (su_DestRelays s)"
  shows "\<exists>s'. SessionUpdate_UpdateServerRelays env s = Some s' \<and> keeps_route s s' \<and> dests_ok n (su_DestRelays s') \<and>
    su_SourceRelays s' = su_SourceRelays s \<and> su_SourceRelayRTT s' = su_SourceRelayRTT s"
proof (cases "su_Error s AND SessionError_DatacenterNotEnabled \<noteq> 0")
  case True
  then show ?thesis using assms by (simp add: SessionUpdate_UpdateServerRelays_def keeps_route_def)
next
  case False
  let ?rq = "su_Request s"
  define s1 where "s1 = (if rq_ServerRelayPingsHaveChanged ?rq then
          let exclude = FilterDestRelays (rq_ServerRelayRTT ?rq) (rq_ServerRelayJitter ?rq) (rq_ServerRelayPacketLoss ?rq)
                (sd_ExcludeServerRelay (su_Output s));
              foundValidRelay = list_ex Not (take (length (rq_ServerRelayIds ?rq)) exclude)
          in upd_output (\<lambda>d. d\<lparr>sd_ExcludeServerRelay := exclude, sd_NoServerRelays := sd_NoServerRelays d \<or> \<not> foundValidRelay\<rparr>) s
          else s)"
  have k: "keeps_route s s1" "length (sd_ExcludeServerRelay (su_Output s1)) = 8" "su_SourceRelays s1 = su_SourceRelays s"
    "su_SourceRelayRTT s1 = su_SourceRelayRTT s"
  proof -
    have l: "length (FilterDestRelays (rq_ServerRelayRTT ?rq) (rq_ServerRelayJitter ?rq) (rq_ServerRelayPacketLoss ?rq)
        (sd_ExcludeServerRelay (su_Output s))) = 8" "length (sd_ExcludeServerRelay (su_Output s)) = 8"
      using out by (simp_all add: FilterDestRelays_def Let_def session_ok_def)
    show "keeps_route s s1" "length (sd_ExcludeServerRelay (su_Output s1)) = 8" "su_SourceRelays s1 = su_SourceRelays s"
      "su_SourceRelayRTT s1 = su_SourceRelayRTT s"
      using rq out l session_ok_excludes(2) [OF out l(1)] by (simp_all add: s1_def keeps_route_def upd_output_def Let_def)
  qed
  obtain rs where rs: "ReframeDestRelays (env_RelayIdToIndex env) (rq_ServerRelayIds ?rq) (sd_ExcludeServerRelay (su_Output s1)) = Some rs"
    "dests_ok n rs"
    using ReframeDestRelays_ok [of "env_RelayIdToIndex env" n "rq_ServerRelayIds ?rq" "sd_ExcludeServerRelay (su_Output s1)"]
      env rq k(2) by (auto simp: env_ok_def request_ok_def)
  have "SessionUpdate_UpdateServerRelays env s = Some (s1\<lparr>su_DestRelays := rs\<rparr>)"
    using False rs(1) unfolding s1_def SessionUpdate_UpdateServerRelays_def by (simp add: Let_def)
  then show ?thesis using k rs(2) by (simp add: keeps_route_def)
qed

section \<open>The decision\<close>

lemma those_elements:
  "\<forall>x \<in> set rs. 0 \<le> x \<and> x < int (length xs) \<Longrightarrow> \<exists>ys. those (map (element xs) rs) = Some ys \<and> length ys = length rs"
  by (force simp: those_def element_def image_iff)

lemma route_nodes_ok:
  assumes "env_ok n env" "relays_ok n rs"
  shows "\<exists>nodes. route_nodes env rq rs = Some nodes \<and> 4 \<le> length nodes \<and> length nodes \<le> 7"
proof -
  have "\<forall>x \<in> set rs. 0 \<le> x \<and> x < int (length (env_Relays env))" using assms by (fastforce simp: env_ok_def relays_ok_def)
  then show ?thesis using those_elements [of rs "env_Relays env"] assms(2) by (auto simp: route_nodes_def relays_ok_def)
qed

lemma BuildNextTokens_ok:
  assumes "env_ok n env" "relays_ok n rs"
  shows "\<exists>s'. SessionUpdate_BuildNextTokens env s rs = Some s' \<and> same_but_tokens s s' \<and> answer_ok (su_Response s') \<and>
    rs_RouteType (su_Response s') = SDK_RouteTypeNew"
  using route_nodes_ok [OF assms, of "su_Request s"]
  by (auto simp: SessionUpdate_BuildNextTokens_def upd_output_def same_but_tokens_def answer_ok_def Let_def)

lemma BuildContinueTokens_ok:
  assumes "env_ok n env" "relays_ok n rs"
  shows "\<exists>s'. SessionUpdate_BuildContinueTokens env s rs = Some s' \<and> same_but_tokens s s' \<and> answer_ok (su_Response s') \<and>
    rs_RouteType (su_Response s') = SDK_RouteTypeContinue"
  using route_nodes_ok [OF assms, of "su_Request s"]
  by (auto simp: SessionUpdate_BuildContinueTokens_def same_but_tokens_def answer_ok_def Let_def intro!: exI [of _ "sd_SessionVersion (su_Output s)"])

lemma session_ok_base: "session_ok d \<Longrightarrow> base_ok d"
  by (simp add: session_ok_def base_ok_def)

lemma base_ok_updates [simp]:
  "base_ok (d\<lparr>sd_SessionVersion := v\<rparr>) = base_ok d" "base_ok (d\<lparr>sd_RouteState := st\<rparr>) = base_ok d"
  by (simp_all add: base_ok_def)

lemma store_route_ok:
  assumes env: "env_ok n env" and base: "base_ok (su_Output s)" and out: "0 \<le> OutCost out"
    and rs: "OutRelays out = [] \<and> \<not> Next (sd_RouteState (su_Output s)) \<or>
      relays_ok n (OutRelays out) \<and> \<not> blocked (sd_RouteState (su_Output s))"
  shows "\<exists>s'. store_route env s changed out = Some s' \<and> session_ok (su_Output s') \<and> su_Input s' = su_Input s \<and>
    sd_RouteState (su_Output s') = sd_RouteState (su_Output s) \<and> rs_RouteType (su_Response s') = rs_RouteType (su_Response s) \<and>
    (answer_ok (su_Response s') = answer_ok (su_Response s))"
proof -
  have "\<forall>x \<in> set (OutRelays out). 0 \<le> x \<and> x < int (length (env_RelayIds env))" "length (OutRelays out) \<le> 5"
    using rs env by (auto simp: relays_ok_def env_ok_def)
  then obtain ids where ids: "those (map (element (env_RelayIds env)) (OutRelays out)) = Some ids" "length ids = length (OutRelays out)"
    using those_elements by blast
  then show ?thesis using base out rs \<open>length (OutRelays out) \<le> 5\<close>
    by (auto simp: store_route_def upd_output_def session_ok_def base_ok_def answer_ok_def relays_ok_def overwrite_def)
qed

lemma current_way_length: "current_way m ss cs relays cost \<Longrightarrow> relays \<noteq> [] \<Longrightarrow> 2 \<le> length relays"
  by (cases relays; cases "tl relays") (auto simp: current_way_def)

lemma decide_take_ok:
  assumes env: "env_ok n env" and s: "ready n s" and nn: "\<not> Next (sd_RouteState (su_Output s))"
  shows "\<exists>s'. decide_take env s = Some s' \<and> su_Input s' = su_Input s \<and> decided s s'"
proof -
  let ?st = "sd_RouteState (su_Output s)" and ?rq = "su_Request s"
  have m: "matrix_ok n (env_RouteEntries env)" "picks (env_pick env)" "shader_ok (env_RouteShader env)" using env by (auto simp: env_ok_def)
  have ss: "sources_ok n (su_SourceRelays s) (su_SourceRelayRTT s)" "dests_ok n (su_DestRelays s)" using s by (auto simp: ready_def)
  have rtt: "small (trunc_float (rq_DirectRTT ?rq))" using s by (auto simp: ready_def request_ok_def)
  obtain taken st cs out where d: "MakeRouteDecision_TakeNetworkNext (env_pick env) (rq_UserHash ?rq) (env_RouteEntries env) (env_RouteShader env)
         ?st (trunc_float (rq_DirectRTT ?rq)) (su_RealPacketLoss s) (su_SourceRelays s)
         (su_SourceRelayRTT s) (su_DestRelays s) no_out (sint (rq_SliceNumber ?rq)) = Some (taken, st, cs, out)"
    and no: "\<not> taken \<longrightarrow> Next st = Next ?st \<and> Veto st = Veto ?st \<and> (blocked ?st \<longrightarrow> st = ?st) \<and> (OutRelays out = [] \<and> 0 \<le> OutCost out \<or> out = no_out)"
    and yes: "taken \<longrightarrow> \<not> blocked ?st \<and> \<not> blocked st \<and> (\<exists>cs' mc t. (cs' = su_SourceRelayRTT s \<or> cs' = safe_costs (su_SourceRelayRTT s)) \<and>
        selected_way (env_RouteEntries env) (su_SourceRelays s) cs' (su_DestRelays s) mc t out)"
    using take_decision [OF m(1) ss m(2,3) rtt, of "rq_UserHash ?rq" ?st "su_RealPacketLoss s" no_out "sint (rq_SliceNumber ?rq)"]
    by (elim exE conjE) (metis (no_types, lifting))
  define s1 where "s1 = upd_output (\<lambda>d. d\<lparr>sd_RouteState := st\<rparr>) (s\<lparr>su_SourceRelayRTT := cs\<rparr>)"
  have s1: "sd_RouteState (su_Output s1) = st" "base_ok (su_Output s1)" "su_Input s1 = su_Input s" "su_Response s1 = su_Response s"
    using s session_ok_base by (auto simp: s1_def upd_output_def ready_def)
  show ?thesis
  proof (cases taken)
    case False
    have "OutRelays out = []" "0 \<le> OutCost out" using no False by (auto simp: no_out_def)
    then obtain s' where "store_route env s1 False out = Some s'" "session_ok (su_Output s')" "su_Input s' = su_Input s1"
      "sd_RouteState (su_Output s') = st" "rs_RouteType (su_Response s') = rs_RouteType (su_Response s1)" "answer_ok (su_Response s')"
      using store_route_ok [OF env s1(2), of out False] no nn False s1 s by (auto simp: ready_def)
    then show ?thesis using d False no nn s1 s unfolding decide_take_def s1_def [symmetric]
      by (auto simp: Let_def s1_def [symmetric] decided_def ready_def)
  next
    case True
    then obtain cs' mc t where w: "cs' = su_SourceRelayRTT s \<or> cs' = safe_costs (su_SourceRelayRTT s)"
      "selected_way (env_RouteEntries env) (su_SourceRelays s) cs' (su_DestRelays s) mc t out" using yes by blast
    then have "sources_ok n (su_SourceRelays s) cs'" using ss(1) safe_sources by auto
    note r = selected_route_range [OF m(1) this ss(2) w(2)]
    then have rel: "relays_ok n (OutRelays out)" by (simp add: relays_ok_def)
    obtain s2 where s2: "SessionUpdate_BuildNextTokens env s1 (OutRelays out) = Some s2" "same_but_tokens s1 s2" "answer_ok (su_Response s2)"
      "rs_RouteType (su_Response s2) = SDK_RouteTypeNew" using BuildNextTokens_ok [OF env rel] by blast
    have o2: "sd_RouteState (su_Output s2) = st" "base_ok (su_Output s2)" "su_Input s2 = su_Input s"
      using s2(2) s1 by (auto simp: same_but_tokens_def)
    obtain s' where "store_route env s2 False out = Some s'" "session_ok (su_Output s')" "su_Input s' = su_Input s2"
      "sd_RouteState (su_Output s') = st" "rs_RouteType (su_Response s') = rs_RouteType (su_Response s2)" "answer_ok (su_Response s')"
      using store_route_ok [OF env o2(2) r(4), of False] yes True rel o2(1) s2(3) by auto
    then show ?thesis using d True yes nn o2 s2 unfolding decide_take_def
      by (auto simp: Let_def s1_def [symmetric] decided_def)
  qed
qed

lemma decide_stay_ok:
  assumes env: "env_ok n env" and s: "ready n s"
  shows "\<exists>s'. decide_stay env s = Some s' \<and> su_Input s' = su_Input s \<and> decided s s'"
proof -
  let ?d = "su_Output s" and ?rq = "su_Request s"
  let ?st = "sd_RouteState ?d"
  define k where "k = nat (sd_RouteNumRelays ?d)"
  have k: "sd_RouteNumRelays ?d = int k" "k \<le> 5" "length (sd_RouteRelayIds ?d) = 5"
    using s by (auto simp: k_def ready_def session_ok_def)
  have m: "matrix_ok n (env_RouteEntries env)" "picks (env_pick env)" "shader_ok (env_RouteShader env)" "0 < n"
    and idx: "\<forall>i k. env_RelayIdToIndex env i = Some k \<longrightarrow> 0 \<le> k \<and> k < int n" using env by (auto simp: env_ok_def)
  have ss: "sources_ok n (su_SourceRelays s) (su_SourceRelayRTT s)" "dests_ok n (su_DestRelays s)" using s by (auto simp: ready_def)
  obtain found xs where f: "ReframeRoute (env_RelayIdToIndex env) (take k (sd_RouteRelayIds ?d)) 0 (replicate 5 0) = Some (found, xs)"
    "length xs = 5" "\<forall>x \<in> set xs. 0 \<le> x \<and> x < int n"
    using ReframeRoute_ok [OF idx, of 0 "take k (sd_RouteRelayIds ?d)" "replicate 5 0"] k m(4) by auto
  define relays where "relays = (if found then xs else replicate 5 0)"
  have rel: "k \<le> length relays" "\<forall>x \<in> set (take k relays). 0 \<le> x \<and> x < int n" "length (take k relays) = k"
    using f k m(4) by (auto simp: relays_def dest: in_set_takeD)
  obtain stay switched st cs out where d: "MakeRouteDecision_StayOnNetworkNext (env_pick env) (rq_UserHash ?rq) (env_RouteEntries env)
      (env_RouteShader env) ?st (trunc_float (rq_DirectRTT ?rq)) (int k) relays (su_SourceRelays s) (su_SourceRelayRTT s) (su_DestRelays s) no_out =
      Some (stay, switched, st, cs, out)"
    and yes: "stay \<longrightarrow> \<not> blocked ?st \<and> \<not> blocked st \<and> Next st = Next ?st \<and> cs = safe_costs (su_SourceRelayRTT s) \<and>
       (if switched then \<exists>mc. selected_way (env_RouteEntries env) (su_SourceRelays s) cs (su_DestRelays s) mc (RouteSelectThreshold (env_RouteShader env)) out
        else 0 < k \<and> OutRelays out = take k relays \<and>
          current_way (env_RouteEntries env) (su_SourceRelays s) cs (take k relays) (OutCost out) \<and> 3 \<le> OutCost out \<and> OutCost out < 513)"
    and no: "\<not> stay \<longrightarrow> \<not> switched \<and> out = no_out \<and> \<not> Next st \<and> (Veto st \<longleftrightarrow> Veto ?st \<or> Next ?st) \<and> (blocked ?st \<longrightarrow> blocked st)"
    using stay_decision [OF m(1) ss m(2,3) rel(1,2), of "rq_UserHash ?rq" ?st "trunc_float (rq_DirectRTT ?rq)" no_out] by blast
  define s0 where "s0 = (if found then s else flag_error SessionError_RouteRelayNoLongerExists s)"
  have s0: "su_SourceRelays s0 = su_SourceRelays s" "su_SourceRelayRTT s0 = su_SourceRelayRTT s" "su_DestRelays s0 = su_DestRelays s"
    "su_Output s0 = ?d" "su_Input s0 = su_Input s" "su_Response s0 = su_Response s"
    by (simp_all add: s0_def flag_error_def)
  define s1 where "s1 = upd_output (\<lambda>d. d\<lparr>sd_RouteState := st\<rparr>) (s0\<lparr>su_SourceRelayRTT := cs\<rparr>)"
  define s2 where "s2 = (if stay then if switched then SessionUpdate_BuildNextTokens env s1 (OutRelays out)
      else SessionUpdate_BuildContinueTokens env s1 (OutRelays out)
    else Some (if NoRoute st then flag_error SessionError_RouteNoLongerExists s1 else s1))"
  have s1: "sd_RouteState (su_Output s1) = st" "base_ok (su_Output s1)" "su_Input s1 = su_Input s" "su_Response s1 = su_Response s"
    using s s0 session_ok_base by (auto simp: s1_def upd_output_def ready_def)
  have st: "decide_stay env s = s2 \<bind> (\<lambda>state. store_route env state switched out)"
    using k f(1) d s0 unfolding decide_stay_def s2_def s1_def s0_def relays_def
    by (cases found) (simp_all add: Let_def k_def [symmetric])
  show ?thesis
  proof (cases stay)
    case False
    then have o: "OutRelays out = []" "0 \<le> OutCost out" using no by (auto simp: no_out_def)
    obtain s' where s': "s2 = Some s'" "su_Output s' = su_Output s1" "su_Input s' = su_Input s" "su_Response s' = su_Response s"
      using False s1 by (auto simp: s2_def flag_error_def)
    obtain s'' where "store_route env s' switched out = Some s''" "session_ok (su_Output s'')" "su_Input s'' = su_Input s'"
      "sd_RouteState (su_Output s'') = st" "rs_RouteType (su_Response s'') = rs_RouteType (su_Response s')" "answer_ok (su_Response s'')"
      using store_route_ok [OF env, of s' out switched] o no False s1 s' s by (auto simp: ready_def)
    then show ?thesis using st s' no False s by (auto simp: decided_def ready_def)
  next
    case True
    have safe: "sources_ok n (su_SourceRelays s) cs" using yes True safe_sources [OF ss(1)] by auto
    have ro: "relays_ok n (OutRelays out) \<and> 0 \<le> OutCost out"
    proof (cases switched)
      case True
      then show ?thesis using yes \<open>stay\<close> selected_route_range [OF m(1) safe ss(2)] by (auto simp: relays_ok_def)
    next
      case False
      then have c: "0 < k" "OutRelays out = take k relays" "0 \<le> OutCost out"
        "current_way (env_RouteEntries env) (su_SourceRelays s) cs (take k relays) (OutCost out)" using yes \<open>stay\<close> by auto
      moreover have "take k relays \<noteq> []" using c(1) rel(3) by auto
      ultimately show ?thesis using current_way_length [OF c(4)] rel k(2) by (simp add: relays_ok_def)
    qed
    obtain s' where s': "s2 = Some s'" "same_but_tokens s1 s'" "answer_ok (su_Response s')" "rs_RouteType (su_Response s') \<noteq> SDK_RouteTypeDirect"
      using BuildNextTokens_ok [OF env, of "OutRelays out" s1] BuildContinueTokens_ok [OF env, of "OutRelays out" s1] ro True
      by (cases switched) (auto simp: s2_def)
    have o2: "sd_RouteState (su_Output s') = st" "base_ok (su_Output s')" "su_Input s' = su_Input s"
      using s'(2) s1 by (auto simp: same_but_tokens_def)
    obtain s'' where "store_route env s' switched out = Some s''" "session_ok (su_Output s'')" "su_Input s'' = su_Input s'"
      "sd_RouteState (su_Output s'') = st" "rs_RouteType (su_Response s'') = rs_RouteType (su_Response s')" "answer_ok (su_Response s'')"
      using store_route_ok [OF env o2(2), of out switched] ro yes True o2(1) s'(3) by auto
    then show ?thesis using st s' yes True o2 by (auto simp: decided_def)
  qed
qed

lemma veto_session_decided:
  assumes "ready n s"
  shows "su_Input (veto_session e s) = su_Input s" "decided s (veto_session e s)"
  using assms by (auto simp: veto_session_def flag_error_def upd_output_def decided_def ready_def session_ok_def blocked_def)

lemma MakeRouteDecision_ok:
  assumes env: "env_ok n env" and s: "ready n s"
    and nn: "\<not> Next (sd_RouteState (su_Input s)) \<Longrightarrow> \<not> Next (sd_RouteState (su_Output s))"
  shows "\<exists>s'. SessionUpdate_MakeRouteDecision env s = Some s' \<and> su_Input s' = su_Input s \<and> decided s s'"
  using decide_take_ok [OF env s] decide_stay_ok [OF env s] veto_session_decided [OF s] nn
  by (auto simp: SessionUpdate_MakeRouteDecision_def Let_def)

section \<open>The whole handler\<close>

lemma update_portal_keeps:
  "session_ok (su_Output (update_portal env s)) = session_ok (su_Output s)"
  "sd_RouteState (su_Output (update_portal env s)) = sd_RouteState (su_Output s)"
  "su_Response (update_portal env s) = su_Response s" "sd_RouteState (su_Input (update_portal env s)) = sd_RouteState (su_Input s)"
  by (simp_all add: update_portal_def Let_def upd_input_def upd_output_def session_ok_def)

lemma update_summary_keeps:
  "session_ok (update_summary rq d) = session_ok d" "sd_RouteState (update_summary rq d) = sd_RouteState d"
  by (simp_all add: update_summary_def session_ok_def)

lemma store_counters_keeps:
  "session_ok (store_counters rq d) = session_ok d" "sd_RouteState (store_counters rq d) = sd_RouteState d"
  by (simp_all add: store_counters_def session_ok_def)

lemma session_ok_bookkeeping:
  "session_ok (d\<lparr>sd_Error := e\<rparr>) = session_ok d" "session_ok (d\<lparr>sd_DurationOnNext := t\<rparr>) = session_ok d"
  "session_ok (d\<lparr>sd_Version := v\<rparr>) = session_ok d"
  by (simp_all add: session_ok_def)

lemmas bookkeeping = update_portal_keeps update_summary_keeps store_counters_keeps session_ok_bookkeeping

lemma Post_keeps:
  "session_ok (su_Output (SessionUpdate_Post env s)) = session_ok (su_Output s)"
  "sd_RouteState (su_Output (SessionUpdate_Post env s)) = sd_RouteState (su_Output s)"
  "rs_RouteType (su_Response (SessionUpdate_Post env s)) = rs_RouteType (su_Response s)"
  "answer_ok (su_Response (SessionUpdate_Post env s)) = answer_ok (su_Response s)"
  by (simp_all add: SessionUpdate_Post_def Let_def upd_output_def flag_error_def bookkeeping answer_ok_def split: option.splits)

lemma decided_updated: "decided s s' \<Longrightarrow> updated (sd_RouteState (su_Output s)) (SessionUpdate_Post env s')"
  by (simp add: decided_def updated_def Post_keeps)

lemma initial_answer: "answer_ok (su_Response (initial_state rq))" "rs_RouteType (su_Response (initial_state rq)) = SDK_RouteTypeDirect"
  by (simp_all add: initial_state_def answer_ok_def)

lemma new_session_ready:
  assumes s: "su_Request s = rq" "su_Response s = su_Response (initial_state rq)" "su_SourceRelays s = []" "su_SourceRelayRTT s = []"
      "su_DestRelays s = []" "su_Input s = update_scores rq zero_session_data" and rq: "request_ok rq"
  shows "ready n (SessionUpdate_NewSession env s)" "\<not> Next (sd_RouteState (su_Input (SessionUpdate_NewSession env s)))"
    "\<not> Next (sd_RouteState (su_Output (SessionUpdate_NewSession env s)))"
    "\<not> blocked (sd_RouteState (su_Output (SessionUpdate_NewSession env s)))"
proof -
  have z: "session_ok (su_Input s)" "\<not> Next (sd_RouteState (su_Input s))" "\<not> blocked (sd_RouteState (su_Input s))"
    using zero_session_ok update_scores_ok [of zero_session_data rq] s(6) by (simp_all add: zero_session_data_def)
  note k = NewSession_keeps [OF z(1,2), of env]
  show "ready n (SessionUpdate_NewSession env s)"
    using k s rq by (simp add: ready_def sources_ok_def dests_ok_def initial_answer)
  show "\<not> Next (sd_RouteState (su_Input (SessionUpdate_NewSession env s)))" by (rule k(5))
  show "\<not> Next (sd_RouteState (su_Output (SessionUpdate_NewSession env s)))"
    "\<not> blocked (sd_RouteState (su_Output (SessionUpdate_NewSession env s)))"
    using z(2,3) by (simp_all add: SessionUpdate_NewSession_def Let_def blocked_def)
qed

lemma existing_session_ready:
  assumes s: "su_Output s = zero_session_data" "su_Request s = rq" "su_Response s = su_Response (initial_state rq)"
      "su_SourceRelays s = []" "su_SourceRelayRTT s = []" "su_DestRelays s = []" and rq: "request_ok rq"
    and d: "su_Input s = update_scores rq d" "session_ok d"
  shows "ready n (SessionUpdate_ExistingSession env s)"
    "\<not> Next (sd_RouteState (su_Input (SessionUpdate_ExistingSession env s))) \<Longrightarrow>
      \<not> Next (sd_RouteState (su_Output (SessionUpdate_ExistingSession env s)))"
    "sd_SessionId d = rq_SessionId rq \<Longrightarrow> sd_SliceNumber d = rq_SliceNumber rq \<Longrightarrow>
      sd_RouteState (su_Output (SessionUpdate_ExistingSession env s)) = sd_RouteState d"
proof -
  have i: "session_ok (su_Input s)" using update_scores_ok d by simp
  note k = ExistingSession_keeps [OF i s(1), of env, unfolded s(2), OF rq]
  show "ready n (SessionUpdate_ExistingSession env s)"
    using k s by (simp add: ready_def sources_ok_def dests_ok_def initial_answer)
  show "sd_SessionId d = rq_SessionId rq \<Longrightarrow> sd_SliceNumber d = rq_SliceNumber rq \<Longrightarrow>
      sd_RouteState (su_Output (SessionUpdate_ExistingSession env s)) = sd_RouteState d"
    using k(9) d(1) by simp
  show "\<not> Next (sd_RouteState (su_Output (SessionUpdate_ExistingSession env s)))"
    if "\<not> Next (sd_RouteState (su_Input (SessionUpdate_ExistingSession env s)))"
    using that k(1,9,10) zero_session_ok(2) by metis
qed

text \<open>From a prepared session to the response.\<close>

lemma handler_rest:
  assumes env: "env_ok n env" and s: "ready n s"
    and nn: "\<not> Next (sd_RouteState (su_Input s)) \<Longrightarrow> \<not> Next (sd_RouteState (su_Output s))"
  shows "\<exists>s1 s2 s3. SessionUpdate_UpdateClientRelays env s = Some s1 \<and> SessionUpdate_UpdateServerRelays env s1 = Some s2 \<and>
    SessionUpdate_MakeRouteDecision env s2 = Some s3 \<and> updated (sd_RouteState (su_Output s)) (SessionUpdate_Post env s3)"
proof -
  obtain s1 where s1: "SessionUpdate_UpdateClientRelays env s = Some s1" "keeps_route s s1"
    "sources_ok n (su_SourceRelays s1) (su_SourceRelayRTT s1)" "su_DestRelays s1 = su_DestRelays s"
    using UpdateClientRelays_ok [OF env] s by (auto simp: ready_def)
  obtain s2 where s2: "SessionUpdate_UpdateServerRelays env s1 = Some s2" "keeps_route s1 s2" "dests_ok n (su_DestRelays s2)"
    "su_SourceRelays s2 = su_SourceRelays s1" "su_SourceRelayRTT s2 = su_SourceRelayRTT s1"
    using UpdateServerRelays_ok [OF env, of s1] s s1 by (auto simp: ready_def keeps_route_def)
  have k: "keeps_route s s2" using keeps_route_trans s1(2) s2(2) .
  have r: "ready n s2" using k s s1 s2 by (simp add: ready_def keeps_route_def)
  have nn2: "\<not> Next (sd_RouteState (su_Input s2)) \<Longrightarrow> \<not> Next (sd_RouteState (su_Output s2))" using k nn by (simp add: keeps_route_def)
  obtain s3 where "SessionUpdate_MakeRouteDecision env s2 = Some s3" "decided s2 s3" using MakeRouteDecision_ok [OF env r nn2] by blast
  then show ?thesis using s1(1) s2(1) decided_updated [of s2 s3 env] k by (auto simp: keeps_route_def)
qed

lemma early_out_updated:
  assumes "session_ok d" "su_Response s = su_Response (initial_state rq)" "su_Input s = update_scores rq d"
  shows "updated (sd_RouteState d) (SessionUpdate_Post env (s\<lparr>su_Output := su_Input s\<rparr>))"
proof -
  have "session_ok (update_scores rq d)" by (rule update_scores_ok [OF assms(1)])
  moreover have "blocked (sd_RouteState d) \<longrightarrow> \<not> Next (sd_RouteState d)" using assms(1) by (auto simp: session_ok_def)
  ultimately show ?thesis using assms(2,3) by (simp add: updated_def Post_keeps initial_answer)
qed

text \<open>What every request leads to, and what one that goes on with a session leads to.\<close>

lemma session_update:
  assumes env: "env_ok n env" and rq: "request_ok rq" and data: "\<forall>d. brought env rq = Some d \<longrightarrow> session_ok d"
  shows "\<exists>s. SDK_ProcessSessionUpdateRequestPacket env rq = Some s \<and> session_ok (su_Output s) \<and> answer_ok (su_Response s) \<and>
    (\<forall>d. resumes env rq d \<longrightarrow> updated (sd_RouteState d) s)"
proof -
  obtain early s where pre: "SessionUpdate_Pre env (initial_state rq) = (early, s)" by fastforce
  note p = Pre_result [OF pre]
  show ?thesis
  proof (cases early)
    case True
    let ?s = "SessionUpdate_Post env (s\<lparr>su_Output := su_Input s\<rparr>)"
    have e: "SDK_ProcessSessionUpdateRequestPacket env rq = Some ?s"
      using True pre by (simp add: SDK_ProcessSessionUpdateRequestPacket_def)
    show ?thesis
    proof (cases "brought env rq")
      case None
      then show ?thesis using e p zero_session_ok by (simp add: Post_keeps resumes_def initial_answer)
    next
      case (Some d)
      then have "updated (sd_RouteState d) ?s" using early_out_updated p(3,8) data by blast
      then show ?thesis using e Some by (auto simp: updated_def resumes_def)
    qed
  next
    case False
    then obtain d where d: "brought env rq = Some d" "su_Input s = update_scores rq d" "session_ok d"
      using p(7,8) data by (cases "brought env rq") auto
    define s0 where "s0 = (if rq_SliceNumber rq = 0 then SessionUpdate_NewSession env s else SessionUpdate_ExistingSession env s)"
    have z: "d = zero_session_data" if "rq_SliceNumber rq = 0" using d(1) that by (simp add: brought_def)
    have r: "ready n s0" "\<not> Next (sd_RouteState (su_Input s0)) \<Longrightarrow> \<not> Next (sd_RouteState (su_Output s0))"
      using new_session_ready(1,2,3) [OF p(2-6) _ rq] existing_session_ready(1,2) [OF p(1-6) rq d(2,3)] z d(2)
      by (auto simp: s0_def)
    obtain s1 s2 s3 where s3: "SessionUpdate_UpdateClientRelays env s0 = Some s1" "SessionUpdate_UpdateServerRelays env s1 = Some s2"
      "SessionUpdate_MakeRouteDecision env s2 = Some s3" "updated (sd_RouteState (su_Output s0)) (SessionUpdate_Post env s3)"
      using handler_rest [OF env r] by blast
    have e: "SDK_ProcessSessionUpdateRequestPacket env rq = Some (SessionUpdate_Post env s3)"
      using False pre s3 by (simp add: SDK_ProcessSessionUpdateRequestPacket_def s0_def [symmetric])
    have "updated (sd_RouteState d) (SessionUpdate_Post env s3)" if "resumes env rq d"
    proof (cases "rq_SliceNumber rq = 0")
      case True
      then have "\<not> blocked (sd_RouteState d)" "\<not> Next (sd_RouteState d)" using z zero_session_ok by (auto simp: zero_session_data_def)
      moreover have "\<not> blocked (sd_RouteState (su_Output s0))"
        using new_session_ready(4) [OF p(2-6) _ rq] z d(2) True by (simp add: s0_def)
      ultimately show ?thesis using s3(4) by (simp add: updated_def)
    next
      case False
      then have "sd_RouteState (su_Output s0) = sd_RouteState d"
        using existing_session_ready(3) [OF p(1-6) rq d(2,3)] that by (simp add: s0_def resumes_def)
      then show ?thesis using s3(4) by simp
    qed
    then show ?thesis using e s3(4) d(1) by (auto simp: updated_def resumes_def)
  qed
qed

section \<open>Sessions\<close>

lemma veto_blocked: "Veto st \<Longrightarrow> blocked st"
  by (simp add: blocked_def)

lemma session_run_updates:
  assumes "session_run d ts d'" "session_ok d"
  shows "session_ok d'" "blocked (sd_RouteState d) \<Longrightarrow> blocked (sd_RouteState d') \<and> set ts \<subseteq> {SDK_RouteTypeDirect}"
    "Next (sd_RouteState d) \<Longrightarrow> Next (sd_RouteState d') \<or> blocked (sd_RouteState d')"
proof -
  have "session_ok d' \<and> (blocked (sd_RouteState d) \<longrightarrow> blocked (sd_RouteState d') \<and> set ts \<subseteq> {SDK_RouteTypeDirect}) \<and>
    (Next (sd_RouteState d) \<longrightarrow> Next (sd_RouteState d') \<or> blocked (sd_RouteState d'))"
    using assms
  proof (induction rule: session_run.induct)
    case (run_start d)
    then show ?case by simp
  next
    case (run_update d ts d' n env rq s)
    have "\<forall>x. brought env rq = Some x \<longrightarrow> session_ok x" using run_update.hyps(4) run_update.IH run_update.prems by (simp add: resumes_def)
    then have u: "session_ok (su_Output s)" "updated (sd_RouteState d') s"
      using session_update [OF run_update.hyps(2,3)] run_update.hyps(4,5) by auto
    have "Next (sd_RouteState d') \<longrightarrow> Next (sd_RouteState (su_Output s)) \<or> blocked (sd_RouteState (su_Output s))"
      "blocked (sd_RouteState d') \<longrightarrow> blocked (sd_RouteState (su_Output s)) \<and> rs_RouteType (su_Response s) = SDK_RouteTypeDirect"
      using u(2) veto_blocked unfolding updated_def by blast+
    then show ?case using run_update.IH [OF run_update.prems] u(1) by auto
  qed
  then show "session_ok d'" "blocked (sd_RouteState d) \<Longrightarrow> blocked (sd_RouteState d') \<and> set ts \<subseteq> {SDK_RouteTypeDirect}"
    "Next (sd_RouteState d) \<Longrightarrow> Next (sd_RouteState d') \<or> blocked (sd_RouteState d')" by auto
qed

text \<open>C10. The session update handler, on a well-formed request with well-formed session data, does not panic: no index is out of the
  bounds of its array. The session data it returns is well-formed again: arrays of their full length, the number of relays, the cost
  and the scores within what its serializer allows, and a session on a route has one and is not blocked. The response
  is either direct or has the tokens of the client, two to five relays and the server.\<close>

theorem session_updates_are_well_formed:
  assumes "env_ok n env" "request_ok rq" "\<forall>d. brought env rq = Some d \<longrightarrow> session_ok d"
  shows "\<exists>s. SDK_ProcessSessionUpdateRequestPacket env rq = Some s \<and> session_ok (su_Output s) \<and> answer_ok (su_Response s)"
  using session_update [OF assms] by blast

text \<open>C11. Over all updates of a session: its data stays well-formed; once it is vetoed, disabled, not selected or in group B it stays so and
  every response is direct; and once it is on a route it stays on a route until it is blocked for good.\<close>

theorem sessions_leave_routes_for_good:
  assumes "session_run d ts d'" "session_ok d"
  shows "session_ok d' \<and>
    (blocked (sd_RouteState d) \<longrightarrow> blocked (sd_RouteState d') \<and> \<not> Next (sd_RouteState d') \<and> set ts \<subseteq> {SDK_RouteTypeDirect}) \<and>
    (Next (sd_RouteState d) \<longrightarrow> Next (sd_RouteState d') \<or> blocked (sd_RouteState d'))"
  using session_run_updates [OF assms] by (auto simp: session_ok_def)

section \<open>An example\<close>

lemma example_env_ok: "env_ok 3 (example_env d)"
  by (simp add: env_ok_def example_env_def Optimize_matrix_ok shader_ok_def small_def NewRouteShader_def picks_def)

lemma example_request_ok: "request_ok example_request"
  by (simp add: request_ok_def example_request_def trunc_float_def small_def)

lemma example_brought: "brought (example_env d) example_request = Some d"
  by (simp add: brought_def example_env_def example_request_def)

lemma example_session_ok: "session_ok (example_session i)" "\<not> blocked (sd_RouteState (example_session i))"
  by (simp_all add: example_session_def zero_session_data_def zero_route_state_def session_ok_def blocked_def)

lemma example_routed:
  "map_option (\<lambda>s. (rs_RouteType (su_Response s), sd_SessionId (su_Output s), sd_RouteCost (su_Output s), su_Error s))
     (SDK_ProcessSessionUpdateRequestPacket (example_env (example_session 7)) example_request) = Some (SDK_RouteTypeNew, 7, 93, 0)"
  by code_simp

text \<open>Session data of another session flags an error and should lead to a direct route, but the handler goes on with the empty output: it
  answers with a new route, for session zero.\<close>

lemma bad_session_id_is_routed:
  "map_option (\<lambda>s. (rs_RouteType (su_Response s), sd_SessionId (su_Output s), sd_ExpireTimestamp (su_Output s), su_Error s))
     (SDK_ProcessSessionUpdateRequestPacket (example_env (example_session 9)) example_request) =
   Some (SDK_RouteTypeNew, 0, 0, SessionError_BadSessionId)"
  by code_simp

theorem session_updates_are_well_formed_witness:
  "\<exists>s. SDK_ProcessSessionUpdateRequestPacket (example_env (example_session 7)) example_request = Some s \<and>
     session_ok (su_Output s) \<and> answer_ok (su_Response s) \<and> rs_RouteType (su_Response s) = SDK_RouteTypeNew"
  using session_updates_are_well_formed [OF example_env_ok example_request_ok, of "example_session 7"] example_brought [of "example_session 7"]
    example_session_ok example_routed by auto

lemma vetoed_session_ok: "session_ok vetoed_session" "blocked (sd_RouteState vetoed_session)"
  by (simp_all add: vetoed_session_def example_session_def zero_session_data_def zero_route_state_def session_ok_def blocked_def)

theorem sessions_leave_routes_for_good_witness:
  "\<exists>d'. session_run vetoed_session [SDK_RouteTypeDirect] d' \<and> session_ok d' \<and> blocked (sd_RouteState d')"
proof -
  have b: "\<forall>d. brought (example_env vetoed_session) example_request = Some d \<longrightarrow> session_ok d"
    using example_brought vetoed_session_ok by simp
  obtain s where s: "SDK_ProcessSessionUpdateRequestPacket (example_env vetoed_session) example_request = Some s"
    using session_update [OF example_env_ok example_request_ok b] by blast
  have "resumes (example_env vetoed_session) example_request vetoed_session"
    using example_brought by (simp add: resumes_def vetoed_session_def example_session_def example_request_def)
  then have r: "session_run vetoed_session ([] @ [rs_RouteType (su_Response s)]) (su_Output s)"
    using run_update [OF run_start example_env_ok example_request_ok _ s] by blast
  then show ?thesis
    using sessions_leave_routes_for_good [OF r vetoed_session_ok(1)] vetoed_session_ok(2) by auto
qed

end
