(* ===== verification/Sdk_Route_Manager.thy ===== *)
theory Sdk_Route_Manager
  imports Sdk_Packets
begin

text \<open>
  The route manager of the SDK's client, \<open>sdk/source/next_route_manager.cpp\<close>, with the addresses of \<open>next_address.cpp\<close> it
  uses: the current, the previous and the pending route, the requests for them, and the fallback to direct. The lemmas
  show that the fallback is for good, what a check for timeouts guarantees, that a confirmed route is the one its token
  granted, and that the client accepts what the server writes for the current and the previous route.
\<close>

section \<open>Definitions\<close>

text \<open>\<open>next_address_t\<close>: the type, the bytes of the address and the port. The first four bytes are an IPv4 address.\<close>

record next_address_t =
  address_type :: u8
  address_ip :: bytes
  address_port :: u16

definition zero_address :: next_address_t where
  "zero_address = \<lparr>address_type = 0, address_ip = replicate 16 0, address_port = 0\<rparr>"

definition next_address_equal :: "next_address_t \<Rightarrow> next_address_t \<Rightarrow> bool" where
  "next_address_equal a b \<longleftrightarrow>
     (if address_type a \<noteq> address_type b then False
      else if address_type a = 1 then address_port a = address_port b \<and> take 4 (address_ip a) = take 4 (address_ip b)
      else if address_type a = 2 then address_port a = address_port b \<and> take 16 (address_ip a) = take 16 (address_ip b)
      else True)"

definition next_address_data :: "next_address_t \<Rightarrow> bytes" where
  "next_address_data a = take 4 (address_ip a)"

text \<open>\<open>next_route_data_t\<close> and \<open>next_route_manager_t\<close>. A request packet and its length are one list.\<close>

record next_route_data =
  current_route :: bool
  current_route_expire_time :: time
  current_route_session_id :: u64
  current_route_session_version :: u8
  current_route_kbps_up :: int
  current_route_kbps_down :: int
  current_route_next_address :: next_address_t
  current_route_private_key :: bytes
  previous_route :: bool
  previous_route_session_id :: u64
  previous_route_session_version :: u8
  previous_route_private_key :: bytes
  pending_route :: bool
  pending_route_start_time :: time
  pending_route_last_send_time :: time
  pending_route_session_id :: u64
  pending_route_session_version :: u8
  pending_route_kbps_up :: int
  pending_route_kbps_down :: int
  pending_route_next_address :: next_address_t
  pending_route_request_packet :: bytes
  pending_route_private_key :: bytes
  pending_continue :: bool
  pending_continue_start_time :: time
  pending_continue_last_send_time :: time
  pending_continue_request_packet :: bytes

record next_route_manager =
  send_sequence :: u64
  manager_fallback_to_direct :: bool
  route_data :: next_route_data
  last_route_update_time :: time
  manager_flags :: u32

abbreviation (input) NEXT_FLAGS_BAD_ROUTE_TOKEN :: u32 where "NEXT_FLAGS_BAD_ROUTE_TOKEN \<equiv> 0x1"
abbreviation (input) NEXT_FLAGS_NO_ROUTE_TO_CONTINUE :: u32 where "NEXT_FLAGS_NO_ROUTE_TO_CONTINUE \<equiv> 0x2"
abbreviation (input) NEXT_FLAGS_PREVIOUS_UPDATE_STILL_PENDING :: u32 where "NEXT_FLAGS_PREVIOUS_UPDATE_STILL_PENDING \<equiv> 0x4"
abbreviation (input) NEXT_FLAGS_BAD_CONTINUE_TOKEN :: u32 where "NEXT_FLAGS_BAD_CONTINUE_TOKEN \<equiv> 0x8"
abbreviation (input) NEXT_FLAGS_ROUTE_EXPIRED :: u32 where "NEXT_FLAGS_ROUTE_EXPIRED \<equiv> 0x10"
abbreviation (input) NEXT_FLAGS_ROUTE_REQUEST_TIMED_OUT :: u32 where "NEXT_FLAGS_ROUTE_REQUEST_TIMED_OUT \<equiv> 0x20"
abbreviation (input) NEXT_FLAGS_CONTINUE_REQUEST_TIMED_OUT :: u32 where "NEXT_FLAGS_CONTINUE_REQUEST_TIMED_OUT \<equiv> 0x40"
abbreviation (input) NEXT_FLAGS_ROUTE_TIMED_OUT :: u32 where "NEXT_FLAGS_ROUTE_TIMED_OUT \<equiv> 0x80"
abbreviation (input) NEXT_FLAGS_UPGRADE_RESPONSE_TIMED_OUT :: u32 where "NEXT_FLAGS_UPGRADE_RESPONSE_TIMED_OUT \<equiv> 0x100"
abbreviation (input) NEXT_FLAGS_ROUTE_UPDATE_TIMED_OUT :: u32 where "NEXT_FLAGS_ROUTE_UPDATE_TIMED_OUT \<equiv> 0x200"
abbreviation (input) NEXT_FLAGS_DIRECT_PONG_TIMED_OUT :: u32 where "NEXT_FLAGS_DIRECT_PONG_TIMED_OUT \<equiv> 0x400"
abbreviation (input) NEXT_FLAGS_NEXT_PONG_TIMED_OUT :: u32 where "NEXT_FLAGS_NEXT_PONG_TIMED_OUT \<equiv> 0x800"

abbreviation (input) NEXT_SLICE_SECONDS :: time where "NEXT_SLICE_SECONDS \<equiv> 10"
abbreviation (input) NEXT_ROUTE_REQUEST_SEND_TIME :: time where "NEXT_ROUTE_REQUEST_SEND_TIME \<equiv> 1 / 4"
abbreviation (input) NEXT_CONTINUE_REQUEST_SEND_TIME :: time where "NEXT_CONTINUE_REQUEST_SEND_TIME \<equiv> 1 / 4"
abbreviation (input) NEXT_ROUTE_REQUEST_TIMEOUT :: time where "NEXT_ROUTE_REQUEST_TIMEOUT \<equiv> 10"
abbreviation (input) NEXT_CONTINUE_REQUEST_TIMEOUT :: time where "NEXT_CONTINUE_REQUEST_TIMEOUT \<equiv> 10"
abbreviation (input) NEXT_CLIENT_ROUTE_TIMEOUT :: time where "NEXT_CLIENT_ROUTE_TIMEOUT \<equiv> 20"

text \<open>The data the create and the reset clear.\<close>

definition zero_route_data :: next_route_data where
  "zero_route_data =
     \<lparr>current_route = False, current_route_expire_time = 0, current_route_session_id = 0,
      current_route_session_version = 0, current_route_kbps_up = 0, current_route_kbps_down = 0,
      current_route_next_address = zero_address, current_route_private_key = replicate 32 0,
      previous_route = False, previous_route_session_id = 0, previous_route_session_version = 0,
      previous_route_private_key = replicate 32 0,
      pending_route = False, pending_route_start_time = 0, pending_route_last_send_time = 0,
      pending_route_session_id = 0, pending_route_session_version = 0, pending_route_kbps_up = 0,
      pending_route_kbps_down = 0, pending_route_next_address = zero_address, pending_route_request_packet = [],
      pending_route_private_key = replicate 32 0,
      pending_continue = False, pending_continue_start_time = 0, pending_continue_last_send_time = 0,
      pending_continue_request_packet = []\<rparr>"

definition next_route_manager_create :: next_route_manager where
  "next_route_manager_create =
     \<lparr>send_sequence = 0, manager_fallback_to_direct = False, route_data = zero_route_data,
      last_route_update_time = 0, manager_flags = 0\<rparr>"

definition next_route_manager_reset :: "next_route_manager \<Rightarrow> next_route_manager" where
  "next_route_manager_reset rm =
     rm\<lparr>send_sequence := 0, manager_fallback_to_direct := False, last_route_update_time := 0,
        route_data := zero_route_data, manager_flags := 0\<rparr>"

text \<open>The copy of the current route that three of the operations make.\<close>

definition retire_route :: "next_route_data \<Rightarrow> next_route_data" where
  "retire_route d =
     d\<lparr>previous_route := current_route d, previous_route_session_id := current_route_session_id d,
       previous_route_session_version := current_route_session_version d,
       previous_route_private_key := current_route_private_key d\<rparr>"

definition next_route_manager_fallback_to_direct :: "next_route_manager \<Rightarrow> u32 \<Rightarrow> next_route_manager" where
  "next_route_manager_fallback_to_direct rm flags =
     (let rm = rm\<lparr>manager_flags := manager_flags rm OR flags\<rparr>
      in if manager_fallback_to_direct rm then rm
         else rm\<lparr>manager_fallback_to_direct := True, route_data := (retire_route (route_data rm))\<lparr>current_route := False\<rparr>\<rparr>)"

definition next_route_manager_direct_route :: "next_route_manager \<Rightarrow> next_route_manager" where
  "next_route_manager_direct_route rm =
     (if manager_fallback_to_direct rm then rm
      else rm\<lparr>route_data := (retire_route (route_data rm))\<lparr>current_route := False\<rparr>\<rparr>)"

text \<open>There is at least one token, as the assertions of the next two operations demand.\<close>

definition next_route_manager_begin_next_route ::
  "crypto \<Rightarrow> time \<Rightarrow> next_route_manager \<Rightarrow> nat \<Rightarrow> bytes \<Rightarrow> bytes \<Rightarrow> bytes \<Rightarrow> next_address_t \<Rightarrow> next_route_manager" where
  "next_route_manager_begin_next_route cr now rm num_tokens tokens client_secret_key mg client_external_address =
     (if manager_fallback_to_direct rm then rm
      else case next_read_encrypted_route_token cr tokens client_secret_key of
        None \<Rightarrow> next_route_manager_fallback_to_direct rm NEXT_FLAGS_BAD_ROUTE_TOKEN
      | Some (route_token, _) \<Rightarrow>
          let d = route_data rm;
              ip = le_bytes 4 (token_next_address route_token);
              token_data = window 111 ((num_tokens - 1) * 111) tokens
          in rm\<lparr>route_data := d\<lparr>pending_route := True, pending_route_start_time := now,
                 pending_route_last_send_time := - 1000,
                 pending_route_next_address :=
                   \<lparr>address_type = 1, address_ip = ip @ drop 4 (address_ip (pending_route_next_address d)),
                    address_port = token_next_port route_token\<rparr>,
                 pending_route_session_id := token_session_id route_token,
                 pending_route_session_version := token_session_version route_token,
                 pending_route_kbps_up := token_kbps_up route_token,
                 pending_route_kbps_down := token_kbps_down route_token,
                 pending_route_private_key := token_private_key route_token,
                 pending_route_request_packet :=
                   next_write_route_request_packet token_data mg (next_address_data client_external_address) ip\<rparr>\<rparr>)"

definition next_route_manager_continue_next_route ::
  "crypto \<Rightarrow> time \<Rightarrow> next_route_manager \<Rightarrow> nat \<Rightarrow> bytes \<Rightarrow> bytes \<Rightarrow> bytes \<Rightarrow> next_address_t \<Rightarrow> next_route_manager" where
  "next_route_manager_continue_next_route cr now rm num_tokens tokens secret_key mg client_external_address =
     (let d = route_data rm
      in if manager_fallback_to_direct rm then rm
         else if \<not> current_route d then next_route_manager_fallback_to_direct rm NEXT_FLAGS_NO_ROUTE_TO_CONTINUE
         else if pending_route d \<or> pending_continue d
         then next_route_manager_fallback_to_direct rm NEXT_FLAGS_PREVIOUS_UPDATE_STILL_PENDING
         else case next_read_encrypted_continue_token cr tokens secret_key of
           None \<Rightarrow> next_route_manager_fallback_to_direct rm NEXT_FLAGS_BAD_CONTINUE_TOKEN
         | Some _ \<Rightarrow>
             let token_data = window 57 ((num_tokens - 1) * 57) tokens
             in rm\<lparr>route_data := d\<lparr>pending_continue := True, pending_continue_start_time := now,
                    pending_continue_last_send_time := - 1000,
                    pending_continue_request_packet :=
                      next_write_continue_request_packet token_data mg (next_address_data client_external_address)
                        (next_address_data (current_route_next_address d))\<rparr>\<rparr>)"

definition next_route_manager_update ::
  "crypto \<Rightarrow> time \<Rightarrow> next_route_manager \<Rightarrow> nat \<Rightarrow> nat \<Rightarrow> bytes \<Rightarrow> bytes \<Rightarrow> bytes \<Rightarrow> next_address_t \<Rightarrow> next_route_manager" where
  "next_route_manager_update cr now rm update_type num_tokens tokens client_secret_key mg client_external_address =
     (if update_type = 0 then next_route_manager_direct_route rm
      else if update_type = 1
      then next_route_manager_begin_next_route cr now rm num_tokens tokens client_secret_key mg client_external_address
      else if update_type = 2
      then next_route_manager_continue_next_route cr now rm num_tokens tokens client_secret_key mg client_external_address
      else rm)"

definition next_route_manager_has_network_next_route :: "next_route_manager \<Rightarrow> bool" where
  "next_route_manager_has_network_next_route rm = current_route (route_data rm)"

definition next_route_manager_next_send_sequence :: "next_route_manager \<Rightarrow> u64 \<times> next_route_manager" where
  "next_route_manager_next_send_sequence rm = (send_sequence rm, rm\<lparr>send_sequence := send_sequence rm + 1\<rparr>)"

definition next_route_manager_prepare_send_packet ::
  "crypto \<Rightarrow> next_route_manager \<Rightarrow> u64 \<Rightarrow> bytes \<Rightarrow> bytes \<Rightarrow> next_address_t \<Rightarrow> (next_address_t \<times> bytes) option" where
  "next_route_manager_prepare_send_packet cr rm seq payload mg client_external_address =
     (let d = route_data rm
      in if \<not> current_route d then None
         else let to_address = current_route_next_address d;
                  packet = next_write_client_to_server_packet cr seq (current_route_session_id d)
                    (current_route_session_version d) (current_route_private_key d) payload mg
                    (next_address_data client_external_address) (next_address_data to_address)
              in if length packet = 0 then None else Some (to_address, packet))"

text \<open>The packet is the buffer it was received in and its length, which may be less than that of a header.\<close>

definition next_route_manager_process_server_to_client_packet ::
  "crypto \<Rightarrow> next_route_manager \<Rightarrow> u8 \<Rightarrow> bytes \<Rightarrow> int \<Rightarrow> u64 option" where
  "next_route_manager_process_server_to_client_packet cr rm packet_type header packet_bytes =
     (let d = route_data rm;
          current = next_read_header cr packet_type (current_route_private_key d) header;
          previous = next_read_header cr packet_type (previous_route_private_key d) header;
          from_current_route = (current \<noteq> None)
      in case (if from_current_route then current else previous) of
           None \<Rightarrow> None
         | Some (packet_sequence, packet_session_id, packet_session_version) \<Rightarrow>
             if \<not> current_route d \<and> \<not> previous_route d then None
             else if from_current_route \<and> packet_session_id \<noteq> current_route_session_id d then None
             else if from_current_route \<and> packet_session_version \<noteq> current_route_session_version d then None
             else if \<not> from_current_route \<and> packet_session_id \<noteq> previous_route_session_id d then None
             else if \<not> from_current_route \<and> packet_session_version \<noteq> previous_route_session_version d then None
             else if packet_bytes - 25 > 1200 then None
             else Some packet_sequence)"

definition next_route_manager_check_for_timeouts :: "time \<Rightarrow> next_route_manager \<Rightarrow> next_route_manager" where
  "next_route_manager_check_for_timeouts current_time rm =
     (let d = route_data rm
      in if manager_fallback_to_direct rm then rm
         else if last_route_update_time rm > 0 \<and> last_route_update_time rm + NEXT_CLIENT_ROUTE_TIMEOUT < current_time
         then next_route_manager_fallback_to_direct rm NEXT_FLAGS_ROUTE_TIMED_OUT
         else if current_route d \<and> current_route_expire_time d \<le> current_time
         then next_route_manager_fallback_to_direct rm NEXT_FLAGS_ROUTE_EXPIRED
         else if pending_route d \<and> pending_route_start_time d + NEXT_ROUTE_REQUEST_TIMEOUT \<le> current_time
         then next_route_manager_fallback_to_direct rm NEXT_FLAGS_ROUTE_REQUEST_TIMED_OUT
         else if pending_continue d \<and> pending_continue_start_time d + NEXT_CONTINUE_REQUEST_TIMEOUT \<le> current_time
         then next_route_manager_fallback_to_direct rm NEXT_FLAGS_CONTINUE_REQUEST_TIMED_OUT
         else rm)"

definition next_route_manager_send_route_request ::
  "time \<Rightarrow> next_route_manager \<Rightarrow> (next_address_t \<times> bytes) option \<times> next_route_manager" where
  "next_route_manager_send_route_request current_time rm =
     (let d = route_data rm
      in if pending_route_last_send_time d + NEXT_ROUTE_REQUEST_SEND_TIME > current_time then (None, rm)
         else if \<not> pending_route d then (None, rm)
         else if manager_fallback_to_direct rm then (None, rm)
         else (Some (pending_route_next_address d, pending_route_request_packet d),
               rm\<lparr>route_data := d\<lparr>pending_route_last_send_time := current_time\<rparr>\<rparr>))"

definition next_route_manager_send_continue_request ::
  "time \<Rightarrow> next_route_manager \<Rightarrow> (next_address_t \<times> bytes) option \<times> next_route_manager" where
  "next_route_manager_send_continue_request current_time rm =
     (let d = route_data rm
      in if manager_fallback_to_direct rm then (None, rm)
         else if \<not> current_route d \<or> \<not> pending_continue d then (None, rm)
         else if pending_continue_last_send_time d + NEXT_CONTINUE_REQUEST_SEND_TIME > current_time then (None, rm)
         else (Some (current_route_next_address d, pending_continue_request_packet d),
               rm\<lparr>route_data := d\<lparr>pending_continue_last_send_time := current_time\<rparr>\<rparr>))"

text \<open>The result has the bandwidth of the route as well.\<close>

definition next_route_manager_confirm_pending_route :: "next_route_manager \<Rightarrow> (int \<times> int) \<times> next_route_manager" where
  "next_route_manager_confirm_pending_route rm =
     (let d = route_data rm;
          d1 = (if current_route d then retire_route d else d);
          d2 = d1\<lparr>current_route_session_id := pending_route_session_id d1,
                 current_route_session_version := pending_route_session_version d1,
                 current_route_kbps_up := pending_route_kbps_up d1, current_route_kbps_down := pending_route_kbps_down d1,
                 current_route_next_address := pending_route_next_address d1,
                 current_route_private_key := pending_route_private_key d1,
                 current_route_expire_time :=
                   (if \<not> current_route d1 then pending_route_start_time d1 + 2 * NEXT_SLICE_SECONDS
                    else current_route_expire_time d1 + 2 * NEXT_SLICE_SECONDS),
                 current_route := True, pending_route := False\<rparr>
      in ((current_route_kbps_up d2, current_route_kbps_down d2), rm\<lparr>route_data := d2\<rparr>))"

definition next_route_manager_confirm_continue_route :: "next_route_manager \<Rightarrow> next_route_manager" where
  "next_route_manager_confirm_continue_route rm =
     (let d = route_data rm
      in rm\<lparr>route_data := d\<lparr>current_route_expire_time := current_route_expire_time d + NEXT_SLICE_SECONDS,
                            pending_continue := False\<rparr>\<rparr>)"

text \<open>The getters.\<close>

definition next_route_manager_get_pending_route_data :: "next_route_manager \<Rightarrow> bool \<times> bool \<times> u64 \<times> u8 \<times> bytes" where
  "next_route_manager_get_pending_route_data rm =
     (manager_fallback_to_direct rm, pending_route (route_data rm), pending_route_session_id (route_data rm),
      pending_route_session_version (route_data rm), pending_route_private_key (route_data rm))"

definition next_route_manager_get_current_route_data :: "next_route_manager \<Rightarrow> bool \<times> bool \<times> bool \<times> u64 \<times> u8 \<times> bytes" where
  "next_route_manager_get_current_route_data rm =
     (manager_fallback_to_direct rm, current_route (route_data rm), pending_continue (route_data rm),
      current_route_session_id (route_data rm), current_route_session_version (route_data rm),
      current_route_private_key (route_data rm))"

definition next_route_manager_get_next_route_data :: "next_route_manager \<Rightarrow> u64 \<times> u8 \<times> next_address_t \<times> bytes" where
  "next_route_manager_get_next_route_data rm =
     (current_route_session_id (route_data rm), current_route_session_version (route_data rm),
      current_route_next_address (route_data rm), current_route_private_key (route_data rm))"

text \<open>A manager that has fallen back to direct has no route.\<close>

definition route_ok :: "next_route_manager \<Rightarrow> bool" where
  "route_ok rm \<longleftrightarrow> (manager_fallback_to_direct rm \<longrightarrow> \<not> current_route (route_data rm))"

section \<open>Lemmas\<close>

lemma route_ok_create [simp]: "route_ok next_route_manager_create"
  by (simp add: route_ok_def next_route_manager_create_def)

lemma retire_route_facts [simp]:
  "current_route (retire_route d) = current_route d" "pending_route (retire_route d) = pending_route d"
  "pending_continue (retire_route d) = pending_continue d"
  "current_route_expire_time (retire_route d) = current_route_expire_time d"
  "pending_route_session_id (retire_route d) = pending_route_session_id d"
  "pending_route_session_version (retire_route d) = pending_route_session_version d"
  "pending_route_private_key (retire_route d) = pending_route_private_key d"
  "pending_route_next_address (retire_route d) = pending_route_next_address d"
  by (simp_all add: retire_route_def)

text \<open>Falling back is for good: after it no operation of the manager brings a route, and none but the reset takes it back.\<close>

lemma fallback_falls [simp]:
  "manager_fallback_to_direct (next_route_manager_fallback_to_direct rm flags)"
  "route_ok rm \<Longrightarrow> \<not> current_route (route_data (next_route_manager_fallback_to_direct rm flags))"
  by (simp_all add: next_route_manager_fallback_to_direct_def route_ok_def Let_def)

lemma fallback_keeps_route_ok [simp]: "route_ok rm \<Longrightarrow> route_ok (next_route_manager_fallback_to_direct rm flags)"
  by (simp add: next_route_manager_fallback_to_direct_def route_ok_def Let_def)

lemma update_keeps_route_ok:
  "route_ok rm \<Longrightarrow> route_ok (next_route_manager_update cr now rm ty n tokens key mg a)"
  by (auto simp: next_route_manager_update_def next_route_manager_direct_route_def next_route_manager_begin_next_route_def
      next_route_manager_continue_next_route_def Let_def split: option.split)
    (auto simp: route_ok_def)

lemma timeouts_keep_route_ok: "route_ok rm \<Longrightarrow> route_ok (next_route_manager_check_for_timeouts now rm)"
  by (simp add: next_route_manager_check_for_timeouts_def Let_def)

lemma requests_keep_route_ok:
  "route_ok rm \<Longrightarrow> route_ok (snd (next_route_manager_send_route_request now rm))"
  "route_ok rm \<Longrightarrow> route_ok (snd (next_route_manager_send_continue_request now rm))"
  by (auto simp: next_route_manager_send_route_request_def next_route_manager_send_continue_request_def Let_def route_ok_def)

lemma confirms_keep_route_ok:
  "\<not> manager_fallback_to_direct rm \<Longrightarrow> route_ok (snd (next_route_manager_confirm_pending_route rm))"
  "route_ok rm \<Longrightarrow> route_ok (next_route_manager_confirm_continue_route rm)"
  by (simp_all add: route_ok_def next_route_manager_confirm_pending_route_def next_route_manager_confirm_continue_route_def Let_def)

lemma sequence_keeps_route_ok: "route_ok rm \<Longrightarrow> route_ok (snd (next_route_manager_next_send_sequence rm))"
  by (simp add: route_ok_def next_route_manager_next_send_sequence_def)

lemmas manager_keeps_route_ok =
  update_keeps_route_ok timeouts_keep_route_ok requests_keep_route_ok confirms_keep_route_ok sequence_keeps_route_ok

lemma fallen_update: "manager_fallback_to_direct rm \<Longrightarrow> next_route_manager_update cr now rm ty n tokens key mg a = rm"
  by (simp add: next_route_manager_update_def next_route_manager_direct_route_def next_route_manager_begin_next_route_def
      next_route_manager_continue_next_route_def Let_def)

lemma fallen_timeouts: "manager_fallback_to_direct rm \<Longrightarrow> next_route_manager_check_for_timeouts now rm = rm"
  by (simp add: next_route_manager_check_for_timeouts_def Let_def)

lemma fallen_requests:
  assumes "manager_fallback_to_direct rm"
  shows "next_route_manager_send_route_request now rm = (None, rm)" "next_route_manager_send_continue_request now rm = (None, rm)"
  using assms by (simp_all add: next_route_manager_send_route_request_def next_route_manager_send_continue_request_def Let_def)

lemma fallen_sends_nothing:
  "manager_fallback_to_direct rm \<Longrightarrow> route_ok rm \<Longrightarrow> next_route_manager_prepare_send_packet cr rm s payload mg a = None"
  by (simp add: next_route_manager_prepare_send_packet_def route_ok_def Let_def)

lemmas fallen = fallen_update fallen_timeouts fallen_requests fallen_sends_nothing

lemma requests_keep_the_route:
  "manager_fallback_to_direct (snd (next_route_manager_send_route_request now rm)) = manager_fallback_to_direct rm"
  "manager_fallback_to_direct (snd (next_route_manager_send_continue_request now rm)) = manager_fallback_to_direct rm"
  "current_route (route_data (snd (next_route_manager_send_route_request now rm))) = current_route (route_data rm)"
  "current_route (route_data (snd (next_route_manager_send_continue_request now rm))) = current_route (route_data rm)"
  by (simp_all add: next_route_manager_send_route_request_def next_route_manager_send_continue_request_def Let_def)

text \<open>What the check for timeouts guarantees: a manager that does not fall back has a current route that has not expired, and
  requests that are not overdue.\<close>

lemma after_timeouts:
  assumes "\<not> manager_fallback_to_direct (next_route_manager_check_for_timeouts now rm)"
  shows "next_route_manager_check_for_timeouts now rm = rm"
    and "current_route (route_data rm) \<Longrightarrow> now < current_route_expire_time (route_data rm)"
    and "pending_route (route_data rm) \<Longrightarrow> now < pending_route_start_time (route_data rm) + NEXT_ROUTE_REQUEST_TIMEOUT"
    and "pending_continue (route_data rm) \<Longrightarrow> now < pending_continue_start_time (route_data rm) + NEXT_CONTINUE_REQUEST_TIMEOUT"
  using assms by (auto simp: next_route_manager_check_for_timeouts_def Let_def not_le split: if_splits)

text \<open>A route begins with a token and is confirmed as the token has it, for two slices from its beginning when it is the first.\<close>

lemma begin_pends:
  fixes now n mg a
  assumes "next_read_encrypted_route_token cr tokens key = Some (t, rest)" "\<not> manager_fallback_to_direct rm"
  defines "d \<equiv> route_data (next_route_manager_begin_next_route cr now rm n tokens key mg a)"
  shows "pending_route d" "pending_route_start_time d = now" "pending_route_session_id d = token_session_id t"
    "pending_route_session_version d = token_session_version t" "pending_route_private_key d = token_private_key t"
    "address_port (pending_route_next_address d) = token_next_port t"
    "next_address_data (pending_route_next_address d) = le_bytes 4 (token_next_address t)"
    "current_route d = current_route (route_data rm)"
  using assms by (simp_all add: next_route_manager_begin_next_route_def Let_def next_address_data_def)

lemma confirm_makes_current:
  defines "d \<equiv> \<lambda>rm. route_data (snd (next_route_manager_confirm_pending_route rm))"
  shows "current_route (d rm)" "\<not> pending_route (d rm)"
    "current_route_session_id (d rm) = pending_route_session_id (route_data rm)"
    "current_route_session_version (d rm) = pending_route_session_version (route_data rm)"
    "current_route_private_key (d rm) = pending_route_private_key (route_data rm)"
    "current_route_next_address (d rm) = pending_route_next_address (route_data rm)"
    "\<not> current_route (route_data rm) \<Longrightarrow>
       current_route_expire_time (d rm) = pending_route_start_time (route_data rm) + 2 * NEXT_SLICE_SECONDS"
    "current_route (route_data rm) \<Longrightarrow> previous_route (d rm) \<and>
       previous_route_private_key (d rm) = current_route_private_key (route_data rm) \<and>
       previous_route_session_id (d rm) = current_route_session_id (route_data rm) \<and>
       previous_route_session_version (d rm) = current_route_session_version (route_data rm)"
  by (simp_all add: d_def next_route_manager_confirm_pending_route_def retire_route_def Let_def)

text \<open>What the server wrote for the current route is accepted with its sequence, and so is what it wrote for the previous one
  as long as the header does not happen to verify under the current key.\<close>

lemma server_packet_of_current_route:
  assumes "sha_ok cr" "current_route (route_data rm)" "take 32 key = take 32 (current_route_private_key (route_data rm))"
    "length payload \<le> 1200"
  shows "next_route_manager_process_server_to_client_packet cr rm ty
     (header_body cr ty s (current_route_session_id (route_data rm)) (current_route_session_version (route_data rm)) key payload)
     (25 + int (length payload)) = Some s"
  using assms by (simp add: next_route_manager_process_server_to_client_packet_def Let_def next_read_header_written)

lemma server_packet_of_previous_route:
  assumes "sha_ok cr" "previous_route (route_data rm)" "take 32 key = take 32 (previous_route_private_key (route_data rm))"
    "length payload \<le> 1200"
    "next_read_header cr ty (current_route_private_key (route_data rm))
       (header_body cr ty s (previous_route_session_id (route_data rm)) (previous_route_session_version (route_data rm)) key payload) = None"
  shows "next_route_manager_process_server_to_client_packet cr rm ty
     (header_body cr ty s (previous_route_session_id (route_data rm)) (previous_route_session_version (route_data rm)) key payload)
     (25 + int (length payload)) = Some s"
  using assms by (simp add: next_route_manager_process_server_to_client_packet_def Let_def next_read_header_written)

text \<open>The route manager never looks at the lower end of the length: a packet of 18 bytes, of which the header is what the receive
  buffer held before, is accepted like the packet that was there.\<close>

lemma short_packet_accepted:
  assumes "next_route_manager_process_server_to_client_packet cr rm ty header n = Some s" "m \<le> n"
  shows "next_route_manager_process_server_to_client_packet cr rm ty header m = Some s"
  using assms unfolding next_route_manager_process_server_to_client_packet_def Let_def
  by (auto split: option.splits prod.splits if_split_asm)

lemma prepared_packet:
  assumes "current_route (route_data rm)"
  shows "next_route_manager_prepare_send_packet cr rm s payload mg a =
    Some (current_route_next_address (route_data rm),
          next_write_client_to_server_packet cr s (current_route_session_id (route_data rm))
            (current_route_session_version (route_data rm)) (current_route_private_key (route_data rm)) payload mg
            (next_address_data a) (next_address_data (current_route_next_address (route_data rm))))"
proof -
  have "0 < length (next_stamp t b mg x y)" for t b x y by simp
  then show ?thesis
    using assms by (simp add: next_route_manager_prepare_send_packet_def next_write_client_to_server_packet_def Let_def del: next_stamp_facts)
qed

end
