(* ===== verification/Sdk_Trackers.thy ===== *)
theory Sdk_Trackers
  imports Relay_Manager
begin

text \<open>
  The trackers of the SDK, \<open>sdk/include/\<close>: replay protection (\<open>next_replay_protection.h\<close>), the packet loss, out of order
  and jitter trackers, the bandwidth limiter and the ping history. The lemmas show that the replay window lets each
  sequence number pass at most once and refuses no other in the window, when the loss tracker counts right and when it
  does not, and that the averages keep their bounds. Clients rely on replay protection through the locale
  \<open>once_filter\<close>. Floating point numbers are rationals.
\<close>

section \<open>Definitions\<close>

text \<open>\<open>next_replay_protection.h\<close>. An empty slot holds the all-ones word.\<close>

abbreviation (input) NEXT_REPLAY_PROTECTION_BUFFER_SIZE :: nat where "NEXT_REPLAY_PROTECTION_BUFFER_SIZE \<equiv> 1024"

abbreviation (input) EMPTY_SLOT :: u64 where "EMPTY_SLOT \<equiv> 0xFFFFFFFFFFFFFFFF"

record next_replay_protection =
  most_recent_sequence :: u64
  received_packet :: "u64 list"

definition next_replay_protection_reset :: next_replay_protection where
  "next_replay_protection_reset =
     \<lparr>most_recent_sequence = 0, received_packet = replicate NEXT_REPLAY_PROTECTION_BUFFER_SIZE EMPTY_SLOT\<rparr>"

definition next_replay_protection_already_received ::
  "next_replay_protection \<Rightarrow> u64 \<Rightarrow> bool \<times> next_replay_protection" where
  "next_replay_protection_already_received rp seq =
     (if seq + 1024 \<le> most_recent_sequence rp then (True, rp)
      else let index = unat (seq mod 1024)
           in if received_packet rp ! index = EMPTY_SLOT
              then (False, rp\<lparr>received_packet := (received_packet rp)[index := seq]\<rparr>)
              else if received_packet rp ! index \<ge> seq then (True, rp)
              else (False, rp))"

definition next_replay_protection_advance_sequence :: "next_replay_protection \<Rightarrow> u64 \<Rightarrow> next_replay_protection" where
  "next_replay_protection_advance_sequence rp seq =
     (let rp = (if seq > most_recent_sequence rp then rp\<lparr>most_recent_sequence := seq\<rparr> else rp);
          index = unat (seq mod 1024)
      in rp\<lparr>received_packet := (received_packet rp)[index := seq]\<rparr>)"

text \<open>How the client and the server use it for a payload: the sequence advances unless it was already received.\<close>

definition replay_receive :: "next_replay_protection \<Rightarrow> u64 \<Rightarrow> bool \<times> next_replay_protection" where
  "replay_receive rp seq =
     (case next_replay_protection_already_received rp seq of
        (True, rp') \<Rightarrow> (True, rp')
      | (False, rp') \<Rightarrow> (False, next_replay_protection_advance_sequence rp' seq))"

text \<open>What a filter with the operation \<open>receive\<close> lets pass of a list of keys, and the filter afterwards.\<close>

fun accepts :: "('f \<Rightarrow> 'k \<Rightarrow> bool \<times> 'f) \<Rightarrow> 'f \<Rightarrow> 'k list \<Rightarrow> 'k list" where
  "accepts receive f [] = []"
| "accepts receive f (k # ks) = (if fst (receive f k) then [] else [k]) @ accepts receive (snd (receive f k)) ks"

fun after_keys :: "('f \<Rightarrow> 'k \<Rightarrow> bool \<times> 'f) \<Rightarrow> 'f \<Rightarrow> 'k list \<Rightarrow> 'f" where
  "after_keys receive f [] = f"
| "after_keys receive f (k # ks) = after_keys receive (snd (receive f k)) ks"

text \<open>\<open>next_packet_loss_tracker.h\<close>.\<close>

record next_packet_loss_tracker =
  loss_last_processed :: u64
  loss_most_recent :: u64
  loss_received_packets :: "u64 list"

definition next_packet_loss_tracker_reset :: next_packet_loss_tracker where
  "next_packet_loss_tracker_reset =
     \<lparr>loss_last_processed = 0, loss_most_recent = 0, loss_received_packets = replicate 1024 EMPTY_SLOT\<rparr>"

definition next_packet_loss_tracker_packet_received :: "next_packet_loss_tracker \<Rightarrow> u64 \<Rightarrow> next_packet_loss_tracker" where
  "next_packet_loss_tracker_packet_received tracker seq0 =
     (let seq = seq0 + 1; index = unat (seq mod 1024)
      in tracker\<lparr>loss_received_packets := (loss_received_packets tracker)[index := seq], loss_most_recent := seq\<rparr>)"

text \<open>The loop of the update, over the sequences from \<open>start\<close> to \<open>finish\<close>.\<close>

definition lost_between :: "u64 list \<Rightarrow> u64 \<Rightarrow> u64 \<Rightarrow> nat" where
  "lost_between packets start finish =
     length (filter (\<lambda>s. packets ! (s mod 1024) \<noteq> of_nat s) [unat start..<unat finish + 1])"

definition next_packet_loss_tracker_update :: "next_packet_loss_tracker \<Rightarrow> nat \<times> next_packet_loss_tracker" where
  "next_packet_loss_tracker_update tracker =
     (let start = loss_last_processed tracker + 1;
          finish = (if loss_most_recent tracker > 30 then loss_most_recent tracker - 30 else 0)
      in if finish > start \<and> finish - start > 1024
         then (0, tracker\<lparr>loss_last_processed := loss_most_recent tracker\<rparr>)
         else (lost_between (loss_received_packets tracker) start finish, tracker\<lparr>loss_last_processed := finish\<rparr>))"

text \<open>\<open>next_out_of_order_tracker.h\<close>.\<close>

record next_out_of_order_tracker =
  ooo_last_processed :: u64
  num_out_of_order_packets :: u64

definition next_out_of_order_tracker_reset :: next_out_of_order_tracker where
  "next_out_of_order_tracker_reset = \<lparr>ooo_last_processed = 0, num_out_of_order_packets = 0\<rparr>"

definition next_out_of_order_tracker_packet_received :: "next_out_of_order_tracker \<Rightarrow> u64 \<Rightarrow> next_out_of_order_tracker" where
  "next_out_of_order_tracker_packet_received tracker seq =
     (if seq < ooo_last_processed tracker
      then tracker\<lparr>num_out_of_order_packets := num_out_of_order_packets tracker + 1\<rparr>
      else tracker\<lparr>ooo_last_processed := seq\<rparr>)"

text \<open>\<open>next_jitter_tracker.h\<close>.\<close>

record next_jitter_tracker =
  jitter_last_processed :: u64
  jitter_last_time :: time
  jitter_last_delta :: time
  tracker_jitter :: time

definition next_jitter_tracker_reset :: next_jitter_tracker where
  "next_jitter_tracker_reset =
     \<lparr>jitter_last_processed = 0, jitter_last_time = 0, jitter_last_delta = 0, tracker_jitter = 0\<rparr>"

definition next_jitter_tracker_packet_received :: "next_jitter_tracker \<Rightarrow> u64 \<Rightarrow> time \<Rightarrow> next_jitter_tracker" where
  "next_jitter_tracker_packet_received tracker seq now =
     (let tracker =
            (if seq = jitter_last_processed tracker + 1 \<and> jitter_last_time tracker > 0
             then let delta = now - jitter_last_time tracker;
                      jitter = \<bar>delta - jitter_last_delta tracker\<bar>;
                      old = tracker_jitter tracker
                  in tracker\<lparr>jitter_last_delta := delta,
                       tracker_jitter := (if \<bar>jitter - old\<bar> > 1 / 100000 then old + (jitter - old) * (1 / 100) else jitter)\<rparr>
             else tracker)
      in tracker\<lparr>jitter_last_processed := seq, jitter_last_time := now\<rparr>)"

text \<open>\<open>next_bandwidth_limiter.h\<close>.\<close>

record next_bandwidth_limiter =
  bits_sent :: u64
  last_check_time :: time
  average_kbps :: rat

definition next_wire_packet_bits :: "nat \<Rightarrow> nat" where
  "next_wire_packet_bits payload_bytes = (20 + 8 + 18 + 25 + payload_bytes + 2) * 8"

definition next_bandwidth_limiter_reset :: next_bandwidth_limiter where
  "next_bandwidth_limiter_reset = \<lparr>bits_sent = 0, last_check_time = - 100, average_kbps = 0\<rparr>"

definition next_bandwidth_limiter_add_sample :: "next_bandwidth_limiter \<Rightarrow> rat \<Rightarrow> next_bandwidth_limiter" where
  "next_bandwidth_limiter_add_sample limiter kbps =
     (if average_kbps limiter = 0 \<and> kbps \<noteq> 0 then limiter\<lparr>average_kbps := kbps\<rparr>
      else if average_kbps limiter \<noteq> 0 \<and> kbps = 0 then limiter\<lparr>average_kbps := 0\<rparr>
      else let delta = kbps - average_kbps limiter
           in if delta < 1 / 1000000 then limiter\<lparr>average_kbps := kbps\<rparr>
              else limiter\<lparr>average_kbps := average_kbps limiter + delta * (1 / 10)\<rparr>)"

definition next_bandwidth_limiter_add_packet ::
  "next_bandwidth_limiter \<Rightarrow> time \<Rightarrow> u32 \<Rightarrow> u32 \<Rightarrow> bool \<times> next_bandwidth_limiter" where
  "next_bandwidth_limiter_add_packet limiter current_time kbps_allowed packet_bits =
     (let invalid = last_check_time limiter < 0;
          new_period = current_time - last_check_time limiter \<ge> 1 - 1 / 100000;
          limiter =
            (if invalid \<or> new_period
             then (if new_period
                   then next_bandwidth_limiter_add_sample limiter
                          (of_nat (unat (bits_sent limiter)) / (current_time - last_check_time limiter) / 1000)
                   else limiter)\<lparr>bits_sent := 0, last_check_time := current_time\<rparr>
             else limiter);
          limiter = limiter\<lparr>bits_sent := bits_sent limiter + ucast packet_bits\<rparr>
      in (bits_sent limiter > ucast kbps_allowed * 1000, limiter))"

text \<open>\<open>next_ping_history.h\<close>.\<close>

record next_ping_history_entry =
  entry_sequence :: u64
  time_ping_sent :: time
  time_pong_received :: time

record next_ping_history =
  ping_sequence :: u64
  ping_entries :: "next_ping_history_entry list"

definition next_ping_history_clear :: next_ping_history where
  "next_ping_history_clear =
     \<lparr>ping_sequence = 0,
      ping_entries = replicate 1024 \<lparr>entry_sequence = EMPTY_SLOT, time_ping_sent = - 1, time_pong_received = - 1\<rparr>\<rparr>"

definition next_ping_history_ping_sent :: "next_ping_history \<Rightarrow> time \<Rightarrow> u64 \<times> next_ping_history" where
  "next_ping_history_ping_sent history now =
     (let index = unat (ping_sequence history mod 1024); seq = ping_sequence history
      in (seq, history\<lparr>ping_sequence := seq + 1,
                 ping_entries := (ping_entries history)
                   [index := \<lparr>entry_sequence = seq, time_ping_sent = now, time_pong_received = - 1\<rparr>]\<rparr>))"

definition next_ping_history_pong_received :: "next_ping_history \<Rightarrow> u64 \<Rightarrow> time \<Rightarrow> next_ping_history" where
  "next_ping_history_pong_received history seq now =
     (let index = unat (seq mod 1024); entry = ping_entries history ! index
      in if entry_sequence entry = seq
         then history\<lparr>ping_entries := (ping_entries history)[index := entry\<lparr>time_pong_received := now\<rparr>]\<rparr>
         else history)"

text \<open>The window after the sequences \<open>A\<close> were accepted.\<close>

definition window_ok :: "next_replay_protection \<Rightarrow> u64 set \<Rightarrow> bool" where
  "window_ok rp A \<longleftrightarrow>
     length (received_packet rp) = 1024 \<and>
     (A = {} \<and> most_recent_sequence rp = 0 \<or> most_recent_sequence rp \<in> A) \<and>
     (\<forall>a\<in>A. a \<le> most_recent_sequence rp \<and> a \<le> received_packet rp ! (unat a mod 1024) \<and>
        (received_packet rp ! (unat a mod 1024) = EMPTY_SLOT \<longrightarrow> a = EMPTY_SLOT)) \<and>
     (\<forall>i<1024. received_packet rp ! i \<noteq> EMPTY_SLOT \<longrightarrow> received_packet rp ! i \<in> A \<and> unat (received_packet rp ! i) mod 1024 = i)"

section \<open>What a filter of sequences promises\<close>

text \<open>A filter of keys that lets each pass at most once, whatever it is asked: \<open>ok f A\<close> says that \<open>f\<close> has let exactly the
  keys in \<open>A\<close> pass.\<close>

locale once_filter =
  fixes start :: 'f
    and receive :: "'f \<Rightarrow> 'k \<Rightarrow> bool \<times> 'f"
    and ok :: "'f \<Rightarrow> 'k set \<Rightarrow> bool"
  assumes start_ok: "ok start {}"
    and seen_rejected: "ok f A \<Longrightarrow> k \<in> A \<Longrightarrow> fst (receive f k)"
    and reject_keeps: "ok f A \<Longrightarrow> fst (receive f k) \<Longrightarrow> ok (snd (receive f k)) A"
    and accept_adds: "ok f A \<Longrightarrow> \<not> fst (receive f k) \<Longrightarrow> ok (snd (receive f k)) (insert k A)"
begin

lemma run_ok: "ok f A \<Longrightarrow> ok (after_keys receive f ks) (A \<union> set (accepts receive f ks))"
proof (induction ks arbitrary: f A)
  case (Cons k ks)
  show ?case
  proof (cases "fst (receive f k)")
    case True
    with Cons.IH [OF reject_keeps [OF Cons.prems True]] show ?thesis by simp
  next
    case False
    with Cons.IH [OF accept_adds [OF Cons.prems False]] show ?thesis by simp
  qed
qed simp

lemma run_once: "ok f A \<Longrightarrow> distinct (accepts receive f ks) \<and> A \<inter> set (accepts receive f ks) = {}"
proof (induction ks arbitrary: f A)
  case (Cons k ks)
  show ?case
  proof (cases "fst (receive f k)")
    case True
    with Cons.IH [OF reject_keeps [OF Cons.prems True]] show ?thesis by simp
  next
    case False
    have "k \<notin> A" using seen_rejected [OF Cons.prems] False by blast
    with False Cons.IH [OF accept_adds [OF Cons.prems False]] show ?thesis by auto
  qed
qed simp

lemma each_passes_once: "distinct (accepts receive start ks)"
  using run_once [OF start_ok] by blast

lemma start_run_ok: "ok (after_keys receive start ks) (set (accepts receive start ks))"
  using run_ok [OF start_ok, of ks] by simp

end

section \<open>Replay protection\<close>

lemma window_okD:
  assumes "window_ok rp A"
  shows "length (received_packet rp) = 1024"
    and "A = {} \<and> most_recent_sequence rp = 0 \<or> most_recent_sequence rp \<in> A"
    and "a \<in> A \<Longrightarrow> a \<le> most_recent_sequence rp"
    and "a \<in> A \<Longrightarrow> a \<le> received_packet rp ! (unat a mod 1024)"
    and "a \<in> A \<Longrightarrow> received_packet rp ! (unat a mod 1024) = EMPTY_SLOT \<Longrightarrow> a = EMPTY_SLOT"
    and "i < 1024 \<Longrightarrow> received_packet rp ! i \<noteq> EMPTY_SLOT \<Longrightarrow> received_packet rp ! i \<in> A"
    and "i < 1024 \<Longrightarrow> received_packet rp ! i \<noteq> EMPTY_SLOT \<Longrightarrow> unat (received_packet rp ! i) mod 1024 = i"
  using assms unfolding window_ok_def by blast+

lemma unat_mod_1024 [simp]: "unat ((s :: u64) mod 1024) = unat s mod 1024"
  by (simp add: unat_mod_distrib)

lemma receive_split:
  "replay_receive rp s =
     (if s + 1024 \<le> most_recent_sequence rp \<or>
         received_packet rp ! (unat s mod 1024) \<noteq> EMPTY_SLOT \<and> s \<le> received_packet rp ! (unat s mod 1024)
      then (True, rp)
      else (False, \<lparr>most_recent_sequence = max s (most_recent_sequence rp),
                    received_packet = (received_packet rp)[unat s mod 1024 := s], \<dots> = next_replay_protection.more rp\<rparr>))"
  by (cases rp) (auto simp: replay_receive_def next_replay_protection_already_received_def
      next_replay_protection_advance_sequence_def Let_def max_def)

lemma max_u64: "(a :: u64) \<le> 0xFFFFFFFFFFFFFFFF"
  using unsigned_less [of a, where ?'a = nat] by (simp add: word_le_nat_alt)

lemma all_ones_wrap: "(18446744073709552639 :: u64) = 1023"
  by (simp add: word_eq_iff_unsigned)

lemma window_rejects_seen:
  assumes "window_ok rp A" "s \<in> A"
  shows "fst (replay_receive rp s)"
proof (cases "s = EMPTY_SLOT")
  case True
  then have "most_recent_sequence rp = EMPTY_SLOT" using assms max_u64 [of "most_recent_sequence rp"]
    by (auto simp: window_ok_def intro: antisym)
  then show ?thesis using True by (simp add: receive_split max_u64)
next
  case False
  then show ?thesis using assms by (auto simp: receive_split window_ok_def)
qed

lemma window_accepts:
  assumes ok: "window_ok rp A" and new: "\<not> fst (replay_receive rp s)"
  shows "window_ok (snd (replay_receive rp s)) (insert s A)"
proof -
  let ?i = "unat s mod 1024" and ?r = "received_packet rp"
  have slot: "?r ! ?i = EMPTY_SLOT \<or> ?r ! ?i < s"
    using new by (auto simp: receive_split split: if_splits)
  have old: "\<not> s + 1024 \<le> most_recent_sequence rp"
    using new by (auto simp: receive_split split: if_splits)
  have all_ones: "EMPTY_SLOT \<notin> A"
  proof
    assume "EMPTY_SLOT \<in> A"
    then have "most_recent_sequence rp = EMPTY_SLOT" using ok max_u64 by (auto simp: window_ok_def intro: antisym)
    then show False using old max_u64 by simp
  qed
  have keep: "a \<le> s \<and> s \<noteq> EMPTY_SLOT" if a: "a \<in> A" "unat a mod 1024 = ?i" for a
  proof
    have in_slot: "a \<le> ?r ! ?i" "?r ! ?i \<noteq> EMPTY_SLOT" "a \<le> most_recent_sequence rp"
      using ok a all_ones by (auto simp: window_ok_def)
    then show "a \<le> s" using slot by auto
    show "s \<noteq> EMPTY_SLOT"
    proof
      assume s: "s = EMPTY_SLOT"
      then have "unat a mod 1024 = 1023" using a(2) by simp
      then have "1023 \<le> unat a" using mod_less_eq_dividend [of "unat a" 1024] by linarith
      then have "1023 \<le> a" by (simp add: word_le_nat_alt)
      then show False using in_slot(3) old s by (simp add: all_ones_wrap)
    qed
  qed
  let ?rp = "snd (replay_receive rp s)"
  have rp': "most_recent_sequence ?rp = max s (most_recent_sequence rp)" "received_packet ?rp = ?r[?i := s]"
    using new by (auto simp: receive_split split: if_splits)
  note okD = window_okD [OF ok]
  have slots: "received_packet ?rp ! i = (if i = ?i then s else ?r ! i)" if "i < 1024" for i
    using okD(1) that by (simp add: rp' nth_list_update)
  have most_in: "max s (most_recent_sequence rp) \<in> insert s A"
    using okD(2) by (auto simp: max_def)
  have below: "a \<le> max s (most_recent_sequence rp)" if "a \<in> insert s A" for a
    using that okD(3) [of a] by (auto intro: max.coboundedI2)
  have new_slot: "a \<le> received_packet ?rp ! (unat a mod 1024) \<and>
      (received_packet ?rp ! (unat a mod 1024) = EMPTY_SLOT \<longrightarrow> a = EMPTY_SLOT)" if "a \<in> insert s A" for a
    using that keep [of a] okD(4,5) [of a] slots [of "unat a mod 1024"] by auto
  have old_slot: "received_packet ?rp ! i \<in> insert s A \<and> unat (received_packet ?rp ! i) mod 1024 = i"
    if "i < 1024" "received_packet ?rp ! i \<noteq> EMPTY_SLOT" for i
    using that okD(6,7) [of i] slots [of i] by auto
  show ?thesis
    unfolding window_ok_def rp'(1)
    using okD(1) most_in below new_slot old_slot by (simp add: rp'(2))
qed

interpretation replay: once_filter next_replay_protection_reset replay_receive window_ok
proof unfold_locales
  show "window_ok next_replay_protection_reset {}" by (simp add: window_ok_def next_replay_protection_reset_def)
  show "window_ok f A \<Longrightarrow> k \<in> A \<Longrightarrow> fst (replay_receive f k)" for f A k by (rule window_rejects_seen)
  show "window_ok f A \<Longrightarrow> fst (replay_receive f k) \<Longrightarrow> window_ok (snd (replay_receive f k)) A" for f A k
    by (auto simp: receive_split split: if_splits)
  show "window_ok f A \<Longrightarrow> \<not> fst (replay_receive f k) \<Longrightarrow> window_ok (snd (replay_receive f k)) (insert k A)" for f A k
    by (rule window_accepts)
qed


text \<open>In the window, with no wrap, a sequence is refused exactly when it was accepted before or is too old.\<close>

lemma window_exact:
  assumes ok: "window_ok rp A" and fits: "unat s + 1024 < 2 ^ 64"
  shows "fst (replay_receive rp s) \<longleftrightarrow> s \<in> A \<or> unat s + 1024 \<le> unat (most_recent_sequence rp)"
proof -
  let ?v = "received_packet rp ! (unat s mod 1024)"
  note okD = window_okD [OF ok]
  have "unat (s + 1024) = unat s + 1024" using fits by (simp add: unat_word_ariths)
  then have le: "s + 1024 \<le> most_recent_sequence rp \<longleftrightarrow> unat s + 1024 \<le> unat (most_recent_sequence rp)"
    by (simp add: word_le_nat_alt)
  have "unat s + 1024 \<le> unat (most_recent_sequence rp)" if v: "?v \<noteq> EMPTY_SLOT" "s \<le> ?v" "s \<notin> A"
  proof -
    have "?v \<in> A" "unat ?v mod 1024 = unat s mod 1024" using okD(6,7) [of "unat s mod 1024"] v(1) by simp_all
    moreover from this v have "unat s < unat ?v" by (metis order_le_less word_less_nat_alt)
    ultimately have "unat s + 1024 \<le> unat ?v" by (metis mod_eq_dvd_iff_nat add.commute dvd_imp_le le_diff_conv2 less_imp_le_nat zero_less_diff)
    also have "\<dots> \<le> unat (most_recent_sequence rp)" using okD(3) [OF \<open>?v \<in> A\<close>] by (simp add: word_le_nat_alt)
    finally show ?thesis .
  qed
  then show ?thesis using window_rejects_seen [OF ok, of s] by (auto simp: receive_split le)
qed

lemma window_newest:
  assumes "window_ok rp A" "finite A"
  shows "most_recent_sequence rp = Max (insert 0 A)"
proof (rule Max_eqI [symmetric])
  show "finite (insert 0 A)" using assms(2) by simp
  show "y \<le> most_recent_sequence rp" if "y \<in> insert 0 A" for y
    using that window_okD(3) [OF assms(1), of y] by auto
  show "most_recent_sequence rp \<in> insert 0 A" using window_okD(2) [OF assms(1)] by blast
qed

text \<open>C13. Replay protection, over any sequence of packets after a reset: no sequence number is ever accepted twice, and of
  the numbers that do not wrap, one is refused exactly when it was accepted before or is 1024 or more behind the newest
  accepted one.\<close>

theorem replay_window_is_exact:
  "distinct (accepts replay_receive next_replay_protection_reset packets) \<and>
   (\<forall>s. unat s + 1024 < 2 ^ 64 \<longrightarrow>
      (fst (replay_receive (after_keys replay_receive next_replay_protection_reset packets) s) \<longleftrightarrow>
       s \<in> set (accepts replay_receive next_replay_protection_reset packets) \<or>
       unat s + 1024 \<le> unat (Max (insert 0 (set (accepts replay_receive next_replay_protection_reset packets))))))"
proof (intro conjI allI impI)
  note ok = replay.start_run_ok [of packets]
  show "distinct (accepts replay_receive next_replay_protection_reset packets)" by (rule replay.each_passes_once)
  show "fst (replay_receive (after_keys replay_receive next_replay_protection_reset packets) s) \<longleftrightarrow>
       s \<in> set (accepts replay_receive next_replay_protection_reset packets) \<or>
       unat s + 1024 \<le> unat (Max (insert 0 (set (accepts replay_receive next_replay_protection_reset packets))))"
    if "unat s + 1024 < 2 ^ 64" for s
    using window_exact [OF ok that] window_newest [OF ok] by simp
qed

theorem replay_window_is_exact_witness:
  "accepts replay_receive next_replay_protection_reset [5, 2000, 7, 5, 1500] = [5, 2000, 1500] \<and>
   unat (1500 :: u64) + 1024 < 2 ^ 64 \<and>
   fst (replay_receive (after_keys replay_receive next_replay_protection_reset [5, 2000, 7, 5, 1500]) 1500)"
proof -
  have acc: "accepts replay_receive next_replay_protection_reset [5, 2000, 7, 5, 1500] = [5, 2000, 1500]"
    by (simp add: receive_split next_replay_protection_reset_def)
  show ?thesis
    using replay_window_is_exact [of "[5, 2000, 7, 5, 1500]"] by (simp add: acc del: accepts.simps after_keys.simps)
qed

section \<open>Trackers\<close>

text \<open>Packets in order fill the ring: after the packets 0 to n - 1, which the tracker numbers from 1, a slot has the newest number
  that falls in it.\<close>

lemma loss_received_facts [simp]:
  "loss_received_packets (next_packet_loss_tracker_packet_received t s) =
     (loss_received_packets t)[unat (s + 1) mod 1024 := s + 1]"
  "loss_most_recent (next_packet_loss_tracker_packet_received t s) = s + 1"
  "loss_last_processed (next_packet_loss_tracker_packet_received t s) = loss_last_processed t"
  by (simp_all add: next_packet_loss_tracker_packet_received_def Let_def)

lemma in_order_ring:
  assumes "n < 2 ^ 64"
  shows "let t = fold (\<lambda>s t. next_packet_loss_tracker_packet_received t (of_nat s)) [0..<n] next_packet_loss_tracker_reset
    in length (loss_received_packets t) = 1024 \<and> loss_last_processed t = 0 \<and> loss_most_recent t = of_nat n \<and>
       (\<forall>s. 0 < s \<and> s \<le> n \<and> n < s + 1024 \<longrightarrow> loss_received_packets t ! (s mod 1024) = of_nat s)"
  using assms
proof (induction n)
  case 0
  show ?case by (simp add: next_packet_loss_tracker_reset_def)
next
  case (Suc n)
  let ?t = "fold (\<lambda>s t. next_packet_loss_tracker_packet_received t (of_nat s)) [0..<n] next_packet_loss_tracker_reset"
  have IH: "length (loss_received_packets ?t) = 1024" "loss_last_processed ?t = 0"
    "\<And>s. 0 < s \<Longrightarrow> s \<le> n \<Longrightarrow> n < s + 1024 \<Longrightarrow> loss_received_packets ?t ! (s mod 1024) = of_nat s"
    using Suc by (auto simp: Let_def)
  have "unat (of_nat (Suc n) :: u64) = Suc n" using Suc.prems unfolding unat_of_nat by (simp add: take_bit_nat_eq_self)
  then have "unat (of_nat n + 1 :: u64) = Suc n" by (simp add: add.commute)
  moreover have "Suc n mod 1024 \<noteq> s mod 1024" if "s \<le> n" "Suc n < s + 1024" for s
  proof
    assume "Suc n mod 1024 = s mod 1024"
    then have "1024 dvd Suc n - s" using that(1) by (metis le_SucI mod_eq_dvd_iff_nat)
    then show False using that by (auto dest!: dvd_imp_le)
  qed
  ultimately show ?case
    using IH by (auto simp: Let_def nth_list_update le_Suc_eq add.commute)
qed

text \<open>So no loss is reported for packets in order, as long as the ring still holds all it has to look at.\<close>

lemma in_order_no_loss:
  assumes "n \<le> 1024"
  shows "fst (next_packet_loss_tracker_update
    (fold (\<lambda>s t. next_packet_loss_tracker_packet_received t (of_nat s)) [0..<n] next_packet_loss_tracker_reset)) = 0"
proof -
  let ?t = "fold (\<lambda>s t. next_packet_loss_tracker_packet_received t (of_nat s)) [0..<n] next_packet_loss_tracker_reset"
  have t: "loss_last_processed ?t = 0" "loss_most_recent ?t = of_nat n"
    "\<And>s. 0 < s \<Longrightarrow> s \<le> n \<Longrightarrow> loss_received_packets ?t ! (s mod 1024) = of_nat s"
    using in_order_ring [of n] assms by (auto simp: Let_def)
  have n: "unat (of_nat n :: u64) = n" using assms by (simp add: unat_of_nat take_bit_nat_eq_self)
  have "unat (if (of_nat n :: u64) > 30 then (of_nat n - 30 :: u64) else 0) \<le> n"
    using n by (auto simp: unat_sub_if' word_less_nat_alt)
  then show ?thesis
    using t by (auto simp: next_packet_loss_tracker_update_def lost_between_def Let_def filter_empty_conv)
qed

text \<open>Beyond that packets are counted as lost that were received: 1055 packets in order overwrite the first 31 before the update
  looks at them.\<close>

lemma in_order_overcount:
  "0 < fst (next_packet_loss_tracker_update
    (fold (\<lambda>s t. next_packet_loss_tracker_packet_received t (of_nat s)) [0..<1055] next_packet_loss_tracker_reset))"
proof -
  let ?t = "fold (\<lambda>s t. next_packet_loss_tracker_packet_received t (of_nat s)) [0..<1055] next_packet_loss_tracker_reset"
  have t: "loss_last_processed ?t = 0" "loss_most_recent ?t = 1055"
    and ring: "\<forall>s. 0 < s \<and> s \<le> 1055 \<and> 1055 < s + 1024 \<longrightarrow> loss_received_packets ?t ! (s mod 1024) = of_nat s"
    using in_order_ring [of 1055] by (simp_all add: Let_def)
  have "loss_received_packets ?t ! 1 = of_nat 1025" using spec [OF ring, of 1025] by simp
  then have "1 \<in> set (filter (\<lambda>s. loss_received_packets ?t ! (s mod 1024) \<noteq> of_nat s) [1..<1026])"
    by simp
  then have "0 < length (filter (\<lambda>s. loss_received_packets ?t ! (s mod 1024) \<noteq> of_nat s) [1..<1026])"
    by (rule length_pos_if_in_set)
  then have "0 < lost_between (loss_received_packets ?t) 1 1025" by (simp add: lost_between_def del: upt_conv_Cons upt.simps)
  then show ?thesis unfolding next_packet_loss_tracker_update_def Let_def t(1,2) by simp
qed

lemma loss_bounded: "fst (next_packet_loss_tracker_update t) \<le> 1025"
proof -
  have "lost_between ps start finish \<le> 1025"
    if "\<not> (finish > start \<and> finish - start > 1024)" for ps start finish
  proof -
    have "lost_between ps start finish \<le> unat finish + 1 - unat start"
      unfolding lost_between_def by (rule order_trans [OF length_filter_le]) (simp only: length_upt)
    also have "\<dots> \<le> 1025"
      using that by (cases "start < finish") (auto simp: word_less_nat_alt unat_sub_if')
    finally show ?thesis .
  qed
  then show ?thesis unfolding next_packet_loss_tracker_update_def Let_def by simp
qed

lemma in_order_none_late:
  assumes "sorted (ooo_last_processed t # seqs)"
  shows "num_out_of_order_packets (fold (\<lambda>s t. next_out_of_order_tracker_packet_received t s) seqs t) = num_out_of_order_packets t"
  using assms by (induction seqs arbitrary: t) (auto simp: next_out_of_order_tracker_packet_received_def not_less)

text \<open>The jitter stays between 0 and any bound its samples keep.\<close>

lemma jitter_bounded:
  assumes "0 \<le> tracker_jitter t" "tracker_jitter t \<le> b" "\<bar>(now - jitter_last_time t) - jitter_last_delta t\<bar> \<le> b"
  shows "0 \<le> tracker_jitter (next_jitter_tracker_packet_received t s now)"
    and "tracker_jitter (next_jitter_tracker_packet_received t s now) \<le> b"
proof -
  define j where "j = \<bar>(now - jitter_last_time t) - jitter_last_delta t\<bar>"
  have "0 \<le> j" "j \<le> b" using assms(3) by (auto simp: j_def)
  then have "0 \<le> tracker_jitter t + (j - tracker_jitter t) * (1 / 100)" "tracker_jitter t + (j - tracker_jitter t) * (1 / 100) \<le> b"
    using assms(1,2) by (auto simp: field_simps)
  then show "0 \<le> tracker_jitter (next_jitter_tracker_packet_received t s now)"
    "tracker_jitter (next_jitter_tracker_packet_received t s now) \<le> b"
    using assms \<open>0 \<le> j\<close> \<open>j \<le> b\<close> by (auto simp: next_jitter_tracker_packet_received_def Let_def j_def)
qed

text \<open>The average bandwidth is never negative while time does not run back.\<close>

lemma sample_not_negative:
  assumes "0 \<le> average_kbps l" "0 \<le> kbps"
  shows "0 \<le> average_kbps (next_bandwidth_limiter_add_sample l kbps)"
proof -
  have "average_kbps l + (kbps - average_kbps l) * (1 / 10) = 9 / 10 * average_kbps l + 1 / 10 * kbps" by (simp add: field_simps)
  also have "0 \<le> \<dots>" using assms by simp
  finally show ?thesis using assms by (auto simp: next_bandwidth_limiter_add_sample_def Let_def)
qed

lemma bandwidth_not_negative:
  assumes "0 \<le> average_kbps l" "last_check_time l \<le> now"
  shows "0 \<le> average_kbps (snd (next_bandwidth_limiter_add_packet l now allowed bits))"
proof -
  have "0 \<le> average_kbps (next_bandwidth_limiter_add_sample l (of_nat (unat (bits_sent l)) / (now - last_check_time l) / 1000))"
    using assms by (intro sample_not_negative divide_nonneg_nonneg of_nat_0_le_iff) simp_all
  then show ?thesis using assms(1) unfolding next_bandwidth_limiter_add_packet_def Let_def by simp
qed

text \<open>A pong is credited to its ping while the ping is in the history, and to no other.\<close>

lemma pong_credits_ping:
  assumes "length (ping_entries h) = 1024"
  shows "let (s, h') = next_ping_history_ping_sent h sent
         in ping_entries (next_ping_history_pong_received h' s received) ! unat (s mod 1024) =
              \<lparr>entry_sequence = s, time_ping_sent = sent, time_pong_received = received\<rparr>"
  using assms by (simp add: next_ping_history_ping_sent_def next_ping_history_pong_received_def Let_def)

lemma pong_of_unknown_ping:
  assumes "\<And>e. e \<in> set (ping_entries h) \<Longrightarrow> entry_sequence e \<noteq> s" "length (ping_entries h) = 1024"
  shows "next_ping_history_pong_received h s now = h"
  using assms(1) [OF nth_mem, of "unat (s mod 1024)"] assms(2)
  by (simp add: next_ping_history_pong_received_def Let_def)

end
