(* ===== verification/Sdk_Client.thy ===== *)
theory Sdk_Client
  imports Sdk_Route_Manager Sdk_Trackers Relay_Examples
begin

text \<open>
  The client of the SDK, \<open>sdk/source/next_client.cpp\<close>: the internal thread with its packet handlers, its updates and the
  commands it takes, the main thread that sends game packets and hands over received ones, and the interleaving of the
  two in an open session. The lemmas show that each event is one of a few abstract steps of the route manager and the
  replay window, and from these that payloads are delivered at most once, that a route comes from a token, that the
  fallback to direct is for good, and that no game packet is dropped. The clock is read once in a step.
\<close>

section \<open>Definitions\<close>

text \<open>What the client takes from elsewhere: libsodium, whose key exchange gives the receive and the send key, the platform,
  and the configuration.\<close>

record client_env =
  env_crypto :: crypto
  kx_client_session_keys :: "bytes \<Rightarrow> bytes \<Rightarrow> bytes \<Rightarrow> (bytes \<times> bytes) option"
  next_protocol_version :: u64
  next_platform_id :: int
  next_platform_connection_type :: int
  disable_network_next :: bool
  next_relay_backend_public_key :: bytes

text \<open>The packets the client exchanges with the server in the bit-packed format of \<open>next_packets.h\<close>, as the objects the
  handlers see.\<close>

record NextUpgradeRequestPacket =
  request_protocol_version :: u64
  request_client_address :: next_address_t
  request_upgrade_token :: bytes
  request_upcoming_magic :: bytes
  request_current_magic :: bytes
  request_previous_magic :: bytes

record NextUpgradeConfirmPacket =
  confirm_upgrade_sequence :: u64
  confirm_session_id :: u64
  confirm_client_kx_public_key :: bytes
  confirm_server_kx_public_key :: bytes

record NextRouteUpdatePacket =
  update_sequence :: u64
  update_multipath :: bool
  update_type :: nat
  update_num_tokens :: nat
  update_tokens :: bytes
  update_packets_sent_server_to_client :: u64
  update_packets_lost_client_to_server :: u64
  update_packets_out_of_order_client_to_server :: u64
  update_jitter_client_to_server :: rat
  update_upcoming_magic :: bytes
  update_current_magic :: bytes
  update_previous_magic :: bytes

datatype client_message =
  Upgrade_Request NextUpgradeRequestPacket
| Upgrade_Confirm NextUpgradeConfirmPacket
| Direct_Pong u64
| Route_Update NextRouteUpdatePacket

datatype server_packet =
  Upgrade_Response u8 bytes bytes bytes int int
| Direct_Ping u64
| Route_Ack u64

text \<open>Notifications to the main thread. A packet that was received is direct or not, was received before or not, and has its
  payload; its sequence number, which a passthrough packet does not have, only labels it here.\<close>

datatype client_notify =
  Packet_Received bool bool "u64 option" bytes
| Upgraded u64 next_address_t bytes
| Magic_Updated bytes
| Stats_Updated bool bool
| Ready

text \<open>What a step puts out: a datagram, a packet for the server, a notification, or a copy with a negative length.\<close>

datatype client_output =
  Datagram next_address_t bytes
| Server_Packet server_packet
| Notify client_notify
| Overrun

text \<open>\<open>next_client_internal_t\<close>, without sockets, mutexes, the client relays and the statistics that are only reported.\<close>

record next_client_internal =
  server_address :: next_address_t
  client_external_address :: next_address_t
  session_open :: bool
  upgraded :: bool
  fallback_to_direct :: bool
  multipath :: bool
  open_session_sequence :: u8
  upgrade_sequence :: u64
  client_session_id :: u64
  special_send_sequence :: u64
  internal_send_sequence :: u64
  last_next_ping_time :: time
  last_next_pong_time :: time
  last_direct_ping_time :: time
  last_direct_pong_time :: time
  last_route_switch_time :: time
  route_update_timeout_time :: time
  route_update_sequence :: u64
  upcoming_magic :: bytes
  current_magic :: bytes
  previous_magic :: bytes
  packets_sent :: u64
  route_manager :: next_route_manager
  packet_loss_tracker :: next_packet_loss_tracker
  out_of_order_tracker :: next_out_of_order_tracker
  jitter_tracker :: next_jitter_tracker
  client_kx_public_key :: bytes
  client_kx_private_key :: bytes
  client_send_key :: bytes
  client_receive_key :: bytes
  client_route_public_key :: bytes
  client_route_private_key :: bytes
  client_secret_key :: bytes
  stats_packets_sent_server_to_client :: u64
  stats_packets_lost_client_to_server :: u64
  stats_packets_out_of_order_client_to_server :: u64
  stats_jitter_client_to_server :: rat
  next_ping_history :: next_ping_history
  direct_ping_history :: next_ping_history
  payload_replay_protection :: next_replay_protection
  special_replay_protection :: next_replay_protection
  bandwidth_kbps_up :: rat
  bandwidth_kbps_down :: rat
  sending_upgrade_response :: bool
  upgrade_response_start_time :: time
  last_upgrade_response_send_time :: time
  upgrade_response_packet :: "server_packet option"
  counters :: "nat \<Rightarrow> u64"

abbreviation (input) NEXT_CLIENT_SESSION_TIMEOUT :: time where "NEXT_CLIENT_SESSION_TIMEOUT \<equiv> 10"
abbreviation (input) NEXT_CLIENT_ROUTE_UPDATE_TIMEOUT :: time where "NEXT_CLIENT_ROUTE_UPDATE_TIMEOUT \<equiv> 15"
abbreviation (input) PING_INTERVAL :: time where "PING_INTERVAL \<equiv> 1 / 5"

definition bump_counter :: "nat \<Rightarrow> next_client_internal \<Rightarrow> next_client_internal" where
  "bump_counter k c = c\<lparr>counters := (counters c)(k := counters c k + 1)\<rparr>"

definition fall_back :: "u32 \<Rightarrow> next_client_internal \<Rightarrow> next_client_internal" where
  "fall_back flags c = c\<lparr>route_manager := next_route_manager_fallback_to_direct (route_manager c) flags\<rparr>"

definition next_client_internal_create :: next_client_internal where
  "next_client_internal_create =
     \<lparr>server_address = zero_address, client_external_address = zero_address, session_open = False, upgraded = False,
      fallback_to_direct = False, multipath = False, open_session_sequence = 0, upgrade_sequence = 0, client_session_id = 0,
      special_send_sequence = 1, internal_send_sequence = 1, last_next_ping_time = 0, last_next_pong_time = 0,
      last_direct_ping_time = 0, last_direct_pong_time = 0, last_route_switch_time = 0, route_update_timeout_time = 0,
      route_update_sequence = 0, upcoming_magic = replicate 8 0, current_magic = replicate 8 0,
      previous_magic = replicate 8 0, packets_sent = 0, route_manager = next_route_manager_create,
      packet_loss_tracker = next_packet_loss_tracker_reset, out_of_order_tracker = next_out_of_order_tracker_reset,
      jitter_tracker = next_jitter_tracker_reset, client_kx_public_key = replicate 32 0,
      client_kx_private_key = replicate 32 0, client_send_key = replicate 32 0, client_receive_key = replicate 32 0,
      client_route_public_key = replicate 32 0, client_route_private_key = replicate 32 0,
      client_secret_key = replicate 32 0, stats_packets_sent_server_to_client = 0,
      stats_packets_lost_client_to_server = 0, stats_packets_out_of_order_client_to_server = 0,
      stats_jitter_client_to_server = 0, next_ping_history = next_ping_history_clear,
      direct_ping_history = next_ping_history_clear, payload_replay_protection = next_replay_protection_reset,
      special_replay_protection = next_replay_protection_reset, bandwidth_kbps_up = 0, bandwidth_kbps_down = 0,
      sending_upgrade_response = False, upgrade_response_start_time = 0, last_upgrade_response_send_time = 0,
      upgrade_response_packet = None, counters = (\<lambda>_. 0)\<rparr>"

text \<open>The commands of the main thread. The key pairs are what libsodium generates.\<close>

definition command_open_session ::
  "client_env \<Rightarrow> time \<Rightarrow> next_address_t \<Rightarrow> bytes \<times> bytes \<Rightarrow> bytes \<times> bytes \<Rightarrow> next_client_internal \<Rightarrow>
     next_client_internal \<times> client_output list" where
  "command_open_session env now address kx_keys box_keys c =
     (let c = c\<lparr>server_address := address, session_open := True, open_session_sequence := open_session_sequence c + 1,
            last_direct_ping_time := now, client_kx_public_key := fst kx_keys, client_kx_private_key := snd kx_keys,
            client_route_public_key := fst box_keys, client_route_private_key := snd box_keys\<rparr>;
          c = (case kx_client_session_keys env (fst box_keys) (snd box_keys) (next_relay_backend_public_key env) of
                 None \<Rightarrow> c | Some (receive_key, _) \<Rightarrow> c\<lparr>client_secret_key := receive_key\<rparr>);
          c = bump_counter 0 c
      in (c\<lparr>route_manager := next_route_manager_direct_route (next_route_manager_reset (route_manager c))\<rparr>, [Notify Ready]))"

definition command_close_session :: "next_client_internal \<Rightarrow> next_client_internal" where
  "command_close_session c =
     (if \<not> session_open c then c
      else bump_counter 1 (c\<lparr>upcoming_magic := replicate 8 0, current_magic := replicate 8 0, previous_magic := replicate 8 0,
        server_address := zero_address, client_external_address := zero_address,
        session_open := False, upgraded := False, fallback_to_direct := False, multipath := False,
        upgrade_sequence := 0, client_session_id := 0, internal_send_sequence := 0,
        last_next_ping_time := 0, last_next_pong_time := 0, last_direct_ping_time := 0, last_direct_pong_time := 0,
        last_route_switch_time := 0, route_update_timeout_time := 0, route_update_sequence := 0,
        sending_upgrade_response := False, upgrade_response_packet := None, upgrade_response_start_time := 0,
        last_upgrade_response_send_time := 0, packets_sent := 0,
        stats_packets_sent_server_to_client := 0, stats_packets_lost_client_to_server := 0,
        stats_packets_out_of_order_client_to_server := 0, stats_jitter_client_to_server := 0,
        client_kx_public_key := replicate 32 0, client_kx_private_key := replicate 32 0,
        client_send_key := replicate 32 0, client_receive_key := replicate 32 0,
        client_route_public_key := replicate 32 0, client_route_private_key := replicate 32 0,
        next_ping_history := next_ping_history_clear, direct_ping_history := next_ping_history_clear,
        payload_replay_protection := next_replay_protection_reset,
        special_replay_protection := next_replay_protection_reset,
        bandwidth_kbps_up := 0, bandwidth_kbps_down := 0,
        route_manager := next_route_manager_reset (route_manager c),
        packet_loss_tracker := next_packet_loss_tracker_reset,
        out_of_order_tracker := next_out_of_order_tracker_reset, jitter_tracker := next_jitter_tracker_reset\<rparr>))"

text \<open>An internal packet needs an open session. The encrypted ones, all but the upgrade response, take a sequence number.\<close>

definition next_client_internal_send_packet_to_server ::
  "next_client_internal \<Rightarrow> server_packet \<Rightarrow> bool \<times> next_client_internal \<times> client_output list" where
  "next_client_internal_send_packet_to_server c packet =
     (if \<not> session_open c then (False, c, [])
      else (True,
            (case packet of Upgrade_Response _ _ _ _ _ _ \<Rightarrow> c
             | _ \<Rightarrow> c\<lparr>internal_send_sequence := internal_send_sequence c + 1\<rparr>),
            [Server_Packet packet]))"

text \<open>The handlers of \<open>next_client_internal_process_network_next_packet\<close>. Those of packets in the bit-packed format start from
  the packet that was read.\<close>

definition process_upgrade_request ::
  "client_env \<Rightarrow> time \<Rightarrow> NextUpgradeRequestPacket \<Rightarrow> next_client_internal \<Rightarrow> next_client_internal \<times> client_output list" where
  "process_upgrade_request env now packet c =
     (if fallback_to_direct c then (c, [])
      else if disable_network_next env then (c, [])
      else if request_protocol_version packet \<noteq> next_protocol_version env then (c, [])
      else
        let c = c\<lparr>upcoming_magic := request_upcoming_magic packet, current_magic := request_current_magic packet,
                  previous_magic := request_previous_magic packet,
                  client_external_address := request_client_address packet\<rparr>;
            response = Upgrade_Response (open_session_sequence c) (client_kx_public_key c) (client_route_public_key c)
              (request_upgrade_token packet) (next_platform_id env) (next_platform_connection_type env)
        in case next_client_internal_send_packet_to_server c response of
             (False, c, out) \<Rightarrow> (c, out)
           | (True, c, out) \<Rightarrow>
               (c\<lparr>upgrade_response_packet := Some response, sending_upgrade_response := True,
                  upgrade_response_start_time := now, last_upgrade_response_send_time := now\<rparr>, out))"

definition process_upgrade_confirm ::
  "client_env \<Rightarrow> time \<Rightarrow> next_address_t \<Rightarrow> NextUpgradeConfirmPacket \<Rightarrow> next_client_internal \<Rightarrow>
     next_client_internal \<times> client_output list" where
  "process_upgrade_confirm env now from_address packet c =
     (if \<not> sending_upgrade_response c then (c, [])
      else if fallback_to_direct c then (c, [])
      else if \<not> next_address_equal from_address (server_address c) then (c, [])
      else if confirm_client_kx_public_key packet \<noteq> client_kx_public_key c then (c, [])
      else if upgraded c \<and> upgrade_sequence c \<ge> confirm_upgrade_sequence packet then (c, [])
      else case kx_client_session_keys env (client_kx_public_key c) (client_kx_private_key c) (confirm_server_kx_public_key packet) of
        None \<Rightarrow> (c, [])
      | Some (receive_key, send_key) \<Rightarrow>
          let c = c\<lparr>upgraded := True, upgrade_sequence := confirm_upgrade_sequence packet,
                    client_session_id := confirm_session_id packet, last_direct_pong_time := now,
                    last_next_pong_time := now, client_send_key := send_key, client_receive_key := receive_key\<rparr>;
              note = Upgraded (client_session_id c) (client_external_address c) (current_magic c);
              c = (bump_counter 2 c)\<lparr>sending_upgrade_response := False,
                    route_update_timeout_time := now + NEXT_CLIENT_ROUTE_UPDATE_TIMEOUT\<rparr>
          in (c, [Notify note]))"

text \<open>What the two payload handlers share: replay protection and, for a new packet, the trackers.\<close>

definition payload_received :: "time \<Rightarrow> u64 \<Rightarrow> next_client_internal \<Rightarrow> bool \<times> next_client_internal" where
  "payload_received now seq c =
     (case replay_receive (payload_replay_protection c) seq of
        (True, rp) \<Rightarrow> (True, c\<lparr>payload_replay_protection := rp\<rparr>)
      | (False, rp) \<Rightarrow>
          (False, c\<lparr>payload_replay_protection := rp,
                    packet_loss_tracker := next_packet_loss_tracker_packet_received (packet_loss_tracker c) seq,
                    out_of_order_tracker := next_out_of_order_tracker_packet_received (out_of_order_tracker c) seq,
                    jitter_tracker := next_jitter_tracker_packet_received (jitter_tracker c) seq now\<rparr>))"

definition process_direct_packet ::
  "time \<Rightarrow> bytes \<Rightarrow> int \<Rightarrow> next_client_internal \<Rightarrow> next_client_internal \<times> client_output list" where
  "process_direct_packet now data data_bytes c =
     (if data_bytes \<le> 9 then (c, [])
      else if data_bytes > 1200 + 9 then (c, [])
      else if data ! 0 \<noteq> open_session_sequence c then (c, [])
      else
        let seq = load64 1 data;
            (already_received, c) = payload_received now seq c
        in (bump_counter 7 c,
            [Notify (Packet_Received True already_received (Some seq) (window 9 (nat (data_bytes - 9)) data))]))"

definition process_route_response ::
  "client_env \<Rightarrow> time \<Rightarrow> bytes \<Rightarrow> int \<Rightarrow> next_client_internal \<Rightarrow> next_client_internal \<times> client_output list" where
  "process_route_response env now data data_bytes c =
     (if data_bytes \<noteq> 25 then (c, [])
      else
        let (fallback, pending, pending_session_id, pending_session_version, pending_private_key) =
              next_route_manager_get_pending_route_data (route_manager c)
        in case next_read_header (env_crypto env) 2 pending_private_key data of
             None \<Rightarrow> (c, [])
           | Some (packet_sequence, packet_session_id, packet_session_version) \<Rightarrow>
               if fallback then (c, [])
               else if \<not> pending then (c, [])
               else case next_replay_protection_already_received (special_replay_protection c) packet_sequence of
                 (True, rp) \<Rightarrow> (c\<lparr>special_replay_protection := rp\<rparr>, [])
               | (False, rp) \<Rightarrow>
                   let c = c\<lparr>special_replay_protection := rp\<rparr>
                   in if packet_session_id \<noteq> pending_session_id then (c, [])
                      else if packet_session_version \<noteq> pending_session_version then (c, [])
                      else (c\<lparr>special_replay_protection := next_replay_protection_advance_sequence rp packet_sequence,
                              route_manager := snd (next_route_manager_confirm_pending_route (route_manager c)),
                              last_route_switch_time := now\<rparr>, []))"

definition process_continue_response ::
  "client_env \<Rightarrow> bytes \<Rightarrow> int \<Rightarrow> next_client_internal \<Rightarrow> next_client_internal \<times> client_output list" where
  "process_continue_response env data data_bytes c =
     (if data_bytes \<noteq> 25 then (c, [])
      else
        let (fallback, current, pending, current_session_id, current_session_version, current_private_key) =
              next_route_manager_get_current_route_data (route_manager c)
        in if fallback then (c, [])
           else if \<not> current then (c, [])
           else if \<not> pending then (c, [])
           else case next_read_header (env_crypto env) 8 current_private_key data of
             None \<Rightarrow> (c, [])
           | Some (packet_sequence, packet_session_id, packet_session_version) \<Rightarrow>
               case next_replay_protection_already_received (special_replay_protection c) packet_sequence of
                 (True, rp) \<Rightarrow> (c\<lparr>special_replay_protection := rp\<rparr>, [])
               | (False, rp) \<Rightarrow>
                   let c = c\<lparr>special_replay_protection := rp\<rparr>
                   in if packet_session_id \<noteq> current_session_id then (c, [])
                      else if packet_session_version \<noteq> current_session_version then (c, [])
                      else (c\<lparr>special_replay_protection := next_replay_protection_advance_sequence rp packet_sequence,
                              route_manager := next_route_manager_confirm_continue_route (route_manager c)\<rparr>, []))"

text \<open>The payload is copied with the length \<open>data_bytes - 25\<close>, converted to an unsigned one.\<close>

definition process_server_to_client ::
  "client_env \<Rightarrow> time \<Rightarrow> bytes \<Rightarrow> int \<Rightarrow> next_client_internal \<Rightarrow> next_client_internal \<times> client_output list" where
  "process_server_to_client env now data data_bytes c =
     (case next_route_manager_process_server_to_client_packet (env_crypto env) (route_manager c) 4 data data_bytes of
        None \<Rightarrow> (c, [])
      | Some seq \<Rightarrow>
          let (already_received, c) = payload_received now seq c
          in if data_bytes < 25 then (c, [Overrun])
             else (bump_counter 9 c,
                   [Notify (Packet_Received False already_received (Some seq) (window 25 (nat (data_bytes - 25)) data))]))"

definition process_session_pong ::
  "client_env \<Rightarrow> time \<Rightarrow> bytes \<Rightarrow> int \<Rightarrow> next_client_internal \<Rightarrow> next_client_internal \<times> client_output list" where
  "process_session_pong env now data data_bytes c =
     (case next_route_manager_process_server_to_client_packet (env_crypto env) (route_manager c) 6 data data_bytes of
        None \<Rightarrow> (c, [])
      | Some seq \<Rightarrow>
          case next_replay_protection_already_received (special_replay_protection c) seq of
            (True, rp) \<Rightarrow> (c\<lparr>special_replay_protection := rp\<rparr>, [])
          | (False, rp) \<Rightarrow>
              (c\<lparr>special_replay_protection := next_replay_protection_advance_sequence rp seq,
                 next_ping_history := next_ping_history_pong_received (next_ping_history c) (load64 25 data) now,
                 last_next_pong_time := now\<rparr>, []))"

definition process_direct_pong :: "time \<Rightarrow> u64 \<Rightarrow> next_client_internal \<Rightarrow> next_client_internal" where
  "process_direct_pong now seq c =
     c\<lparr>direct_ping_history := next_ping_history_pong_received (direct_ping_history c) seq now, last_direct_pong_time := now\<rparr>"

text \<open>A route update goes to the route manager when it is newer than the last one, and is acknowledged when it is not older,
  unless the manager fell back to direct over it.\<close>

definition accept_route_update :: "time \<Rightarrow> NextRouteUpdatePacket \<Rightarrow> next_client_internal \<Rightarrow> next_client_internal \<times> client_output list" where
  "accept_route_update now packet c =
     (let c = (if update_multipath packet \<and> \<not> multipath c then bump_counter 10 (c\<lparr>multipath := True\<rparr>) else c);
          c = c\<lparr>route_update_sequence := update_sequence packet,
                stats_packets_sent_server_to_client := update_packets_sent_server_to_client packet,
                stats_packets_lost_client_to_server := update_packets_lost_client_to_server packet,
                stats_packets_out_of_order_client_to_server := update_packets_out_of_order_client_to_server packet,
                stats_jitter_client_to_server := update_jitter_client_to_server packet,
                counters := (counters c)(11 := update_packets_lost_client_to_server packet,
                                         13 := update_packets_out_of_order_client_to_server packet),
                route_update_timeout_time := now + NEXT_CLIENT_ROUTE_UPDATE_TIMEOUT\<rparr>
      in if upcoming_magic c \<noteq> update_upcoming_magic packet
         then (c\<lparr>upcoming_magic := update_upcoming_magic packet, current_magic := update_current_magic packet,
                 previous_magic := update_previous_magic packet\<rparr>, [Notify (Magic_Updated (update_current_magic packet))])
         else (c, []))"

definition process_route_update ::
  "client_env \<Rightarrow> time \<Rightarrow> NextRouteUpdatePacket \<Rightarrow> next_client_internal \<Rightarrow> next_client_internal \<times> client_output list" where
  "process_route_update env now packet c =
     (if fallback_to_direct c then (c, [])
      else if update_sequence packet < route_update_sequence c then (c, [])
      else
        let (fallback, c, out) =
              (if update_sequence packet > route_update_sequence c
               then let c = c\<lparr>route_manager := next_route_manager_update (env_crypto env) now (route_manager c)
                          (update_type packet) (update_num_tokens packet) (update_tokens packet) (client_secret_key c)
                          (current_magic c) (client_external_address c)\<rparr>;
                        fallback = manager_fallback_to_direct (route_manager c);
                        c = (if \<not> fallback_to_direct c \<and> fallback then bump_counter 3 c else c);
                        c = c\<lparr>fallback_to_direct := fallback\<rparr>;
                        (c, out) = (if \<not> fallback then accept_route_update now packet c else (c, []))
                    in (fallback, c, out)
               else (False, c, []))
        in if fallback then (c, out)
           else let (_, c, ack) = next_client_internal_send_packet_to_server c (Route_Ack (update_sequence packet))
                in (c, out @ ack))"

text \<open>The filters and the dispatch. A packet is the buffer it was received in and its length; \<open>message\<close> is what
  \<open>next_read_packet\<close> reads from it. Client pongs and client relay updates only concern the client relays.\<close>

definition client_packet_filter :: "next_client_internal \<Rightarrow> next_address_t \<Rightarrow> bytes \<Rightarrow> nat \<Rightarrow> bool" where
  "client_packet_filter c from_address data packet_bytes \<longleftrightarrow>
     (let from_data = next_address_data from_address; to_data = next_address_data (client_external_address c);
          advanced = (\<lambda>mg to_data. next_advanced_packet_filter data mg from_data to_data (of_nat packet_bytes))
      in next_basic_packet_filter data (of_nat packet_bytes) \<and>
         (if data ! 0 \<noteq> 23
          then advanced (current_magic c) to_data \<or> advanced (upcoming_magic c) to_data \<or> advanced (previous_magic c) to_data
          else advanced (replicate 8 0) (replicate 4 0)))"

definition next_client_internal_process_network_next_packet ::
  "client_env \<Rightarrow> time \<Rightarrow> next_address_t \<Rightarrow> bytes \<Rightarrow> nat \<Rightarrow> client_message option \<Rightarrow> next_client_internal \<Rightarrow>
     next_client_internal \<times> client_output list" where
  "next_client_internal_process_network_next_packet env now from_address buffer packet_bytes message c =
     (let from_server_address = address_type (server_address c) \<noteq> 0 \<and> next_address_equal from_address (server_address c);
          packet_id = buffer ! 0; data = drop 18 buffer; data_bytes = int packet_bytes - 18
      in if \<not> client_packet_filter c from_address buffer packet_bytes then (c, [])
         else if \<not> upgraded c \<and> from_server_address \<and> packet_id = 23
         then (case message of Some (Upgrade_Request packet) \<Rightarrow> process_upgrade_request env now packet c | _ \<Rightarrow> (c, []))
         else if \<not> upgraded c \<and> packet_id = 25
         then (case message of Some (Upgrade_Confirm packet) \<Rightarrow> process_upgrade_confirm env now from_address packet c | _ \<Rightarrow> (c, []))
         else if packet_id = 20 \<and> upgraded c \<and> from_server_address then process_direct_packet now data data_bytes c
         else if packet_id = 2 then process_route_response env now data data_bytes c
         else if packet_id = 8 then process_continue_response env data data_bytes c
         else if packet_id = 4 then process_server_to_client env now data data_bytes c
         else if packet_id = 6 then process_session_pong env now data data_bytes c
         else if \<not> next_address_equal from_address (server_address c) then (c, [])
         else if packet_id = 22
         then (case message of Some (Direct_Pong seq) \<Rightarrow> (process_direct_pong now seq c, []) | _ \<Rightarrow> (c, []))
         else if packet_id = 26
         then (case message of Some (Route_Update packet) \<Rightarrow> process_route_update env now packet c | _ \<Rightarrow> (c, []))
         else (c, []))"

definition next_client_internal_process_passthrough_packet ::
  "next_address_t \<Rightarrow> bytes \<Rightarrow> nat \<Rightarrow> next_client_internal \<Rightarrow> next_client_internal \<times> client_output list" where
  "next_client_internal_process_passthrough_packet from_address data packet_bytes c =
     (let from_server_address = address_type (server_address c) \<noteq> 0 \<and> next_address_equal from_address (server_address c)
      in if packet_bytes \<le> 1384 - 1 \<and> from_server_address
         then (bump_counter 5 c, [Notify (Packet_Received True False None (take packet_bytes data))])
         else (c, []))"

definition next_client_internal_block_and_receive_packet ::
  "client_env \<Rightarrow> time \<Rightarrow> next_address_t \<Rightarrow> bytes \<Rightarrow> nat \<Rightarrow> client_message option \<Rightarrow> next_client_internal \<Rightarrow>
     next_client_internal \<times> client_output list" where
  "next_client_internal_block_and_receive_packet env now from_address buffer packet_bytes message c =
     (if packet_bytes \<le> 1 then (c, [])
      else if buffer ! 0 \<noteq> 0
      then next_client_internal_process_network_next_packet env now from_address buffer packet_bytes message c
      else next_client_internal_process_passthrough_packet from_address (drop 1 buffer) (packet_bytes - 1) c)"

text \<open>The parts of \<open>next_client_internal_update\<close> that the route depends on.\<close>

definition next_client_internal_update_direct_pings ::
  "time \<Rightarrow> next_client_internal \<Rightarrow> next_client_internal \<times> client_output list" where
  "next_client_internal_update_direct_pings current_time c =
     (if \<not> upgraded c then (c, [])
      else if fallback_to_direct c then (c, [])
      else if last_direct_pong_time c + NEXT_CLIENT_SESSION_TIMEOUT < current_time
      then (fall_back NEXT_FLAGS_DIRECT_PONG_TIMED_OUT c, [])
      else if last_direct_ping_time c + PING_INTERVAL \<le> current_time
      then let (seq, history) = next_ping_history_ping_sent (direct_ping_history c) current_time;
               c = c\<lparr>direct_ping_history := history\<rparr>
           in (case next_client_internal_send_packet_to_server c (Direct_Ping seq) of
                 (False, c, out) \<Rightarrow> (c, out)
               | (True, c, out) \<Rightarrow> (c\<lparr>last_direct_ping_time := current_time\<rparr>, out))
      else (c, []))"

definition next_client_internal_update_next_pings ::
  "client_env \<Rightarrow> time \<Rightarrow> next_client_internal \<Rightarrow> next_client_internal \<times> client_output list" where
  "next_client_internal_update_next_pings env current_time c =
     (if \<not> upgraded c then (c, [])
      else if fallback_to_direct c then (c, [])
      else
        let has_next_route = next_route_manager_has_network_next_route (route_manager c);
            c = (if \<not> has_next_route then c\<lparr>last_next_pong_time := current_time\<rparr> else c)
        in if last_next_pong_time c + NEXT_CLIENT_SESSION_TIMEOUT < current_time
           then (fall_back NEXT_FLAGS_NEXT_PONG_TIMED_OUT c, [])
           else if last_next_ping_time c + PING_INTERVAL \<le> current_time
           then if \<not> has_next_route then (c, [])
                else let (sid, version, to_address, private_key) = next_route_manager_get_next_route_data (route_manager c);
                         seq = special_send_sequence c;
                         (ping_seq, history) = next_ping_history_ping_sent (next_ping_history c) current_time;
                         packet = next_write_session_ping_packet (env_crypto env) seq sid version private_key ping_seq
                           (current_magic c) (next_address_data (client_external_address c)) (next_address_data to_address)
                     in (c\<lparr>special_send_sequence := seq + 1, next_ping_history := history, last_next_ping_time := current_time\<rparr>,
                         [Datagram to_address packet])
           else (c, []))"

definition next_client_internal_update_fallback_to_direct :: "time \<Rightarrow> next_client_internal \<Rightarrow> next_client_internal" where
  "next_client_internal_update_fallback_to_direct now c =
     (let c = (if upgraded c then c\<lparr>route_manager := next_route_manager_check_for_timeouts now (route_manager c)\<rparr> else c);
          fallback = manager_fallback_to_direct (route_manager c)
      in if \<not> fallback_to_direct c \<and> fallback then (bump_counter 3 c)\<lparr>fallback_to_direct := fallback\<rparr>
         else if \<not> fallback_to_direct c \<and> upgraded c \<and> route_update_timeout_time c > 0 \<and> now > route_update_timeout_time c
         then (bump_counter 3 (fall_back NEXT_FLAGS_ROUTE_UPDATE_TIMED_OUT c))\<lparr>fallback_to_direct := True\<rparr>
         else c)"

definition next_client_internal_update_route_manager ::
  "time \<Rightarrow> next_client_internal \<Rightarrow> next_client_internal \<times> client_output list" where
  "next_client_internal_update_route_manager now c =
     (if \<not> upgraded c then (c, [])
      else if fallback_to_direct c then (c, [])
      else
        let (route_request, rm) = next_route_manager_send_route_request now (route_manager c);
            (continue_request, rm) = next_route_manager_send_continue_request now rm
        in (c\<lparr>route_manager := rm\<rparr>,
            (case route_request of None \<Rightarrow> [] | Some (to_address, packet) \<Rightarrow> [Datagram to_address packet]) @
            (case continue_request of None \<Rightarrow> [] | Some (to_address, packet) \<Rightarrow> [Datagram to_address packet])))"

definition next_client_internal_update_upgrade_response ::
  "time \<Rightarrow> next_client_internal \<Rightarrow> next_client_internal \<times> client_output list" where
  "next_client_internal_update_upgrade_response current_time c =
     (if fallback_to_direct c then (c, [])
      else if \<not> sending_upgrade_response c then (c, [])
      else if last_upgrade_response_send_time c + 1 > current_time then (c, [])
      else
        let out = (case upgrade_response_packet c of None \<Rightarrow> [] | Some packet \<Rightarrow> [Server_Packet packet]);
            c = c\<lparr>last_upgrade_response_send_time := current_time\<rparr>
        in (if upgrade_response_start_time c + 5 \<le> current_time
            then (fall_back NEXT_FLAGS_UPGRADE_RESPONSE_TIMED_OUT c)\<lparr>fallback_to_direct := True\<rparr> else c, out))"

text \<open>\<open>next_client_t\<close>, the main thread.\<close>

datatype client_state = NEXT_CLIENT_STATE_CLOSED | NEXT_CLIENT_STATE_OPEN | NEXT_CLIENT_STATE_ERROR

record next_client =
  client_state :: client_state
  main_ready :: bool
  main_upgraded :: bool
  main_fallback_to_direct :: bool
  main_multipath :: bool
  main_open_session_sequence :: u8
  main_session_id :: u64
  main_magic :: bytes
  main_server_address :: next_address_t
  main_external_address :: next_address_t
  send_bandwidth :: next_bandwidth_limiter
  receive_bandwidth :: next_bandwidth_limiter
  main_counters :: "nat \<Rightarrow> u64"

definition next_client_send_packet_direct ::
  "bytes \<Rightarrow> next_client \<Rightarrow> next_client_internal \<Rightarrow> next_client \<times> next_client_internal \<times> client_output list" where
  "next_client_send_packet_direct payload m c =
     (if client_state m \<noteq> NEXT_CLIENT_STATE_OPEN then (m, c, [])
      else if length payload = 0 then (m, c, [])
      else if length payload > 1384 - 1 then (m, c, [])
      else (m\<lparr>main_counters := (main_counters m)(4 := main_counters m 4 + 1)\<rparr>, c\<lparr>packets_sent := packets_sent c + 1\<rparr>,
            [Datagram (main_server_address m) (0 # payload)]))"

text \<open>\<open>next_client_send_packet\<close>: what it finds in the critical section that takes the sequence number, and what it then sends, with
  the route manager of the second critical section. The internal thread may run between the two.\<close>

datatype send_stage = Not_Sent | Passthrough | Sequenced u64 bool

definition send_packet_begin ::
  "client_env \<Rightarrow> next_client \<Rightarrow> bytes \<Rightarrow> next_client_internal \<Rightarrow> send_stage \<times> next_client_internal" where
  "send_packet_begin env m payload c =
     (if client_state m \<noteq> NEXT_CLIENT_STATE_OPEN then (Not_Sent, c)
      else if length payload > 1384 - 1 then (Not_Sent, c)
      else if disable_network_next env \<or> main_fallback_to_direct m then (Passthrough, c)
      else if main_upgraded m \<and> length payload \<le> 1200
      then let (seq, rm) = next_route_manager_next_send_sequence (route_manager c)
           in (Sequenced seq (next_route_manager_has_network_next_route rm), c\<lparr>route_manager := rm\<rparr>)
      else (Passthrough, c))"

definition send_packet_finish ::
  "client_env \<Rightarrow> time \<Rightarrow> bytes \<Rightarrow> send_stage \<Rightarrow> next_client \<Rightarrow> next_client_internal \<Rightarrow>
     next_client \<times> next_client_internal \<times> client_output list" where
  "send_packet_finish env now payload stage m c =
     (case stage of
        Not_Sent \<Rightarrow> (m, c, [])
      | Passthrough \<Rightarrow> next_client_send_packet_direct payload m c
      | Sequenced seq over_next \<Rightarrow>
          let m = m\<lparr>send_bandwidth := snd (next_bandwidth_limiter_add_packet (send_bandwidth m) now 0
                      (of_nat (next_wire_packet_bits (length payload))))\<rparr>;
              c = c\<lparr>bandwidth_kbps_up := average_kbps (send_bandwidth m)\<rparr>;
              prepared = (if over_next then next_route_manager_prepare_send_packet (env_crypto env) (route_manager c) seq
                            payload (main_magic m) (main_external_address m) else None);
              send_direct = (\<not> over_next \<or> main_multipath m \<or> prepared = None);
              direct_packet = next_write_direct_packet (main_open_session_sequence m) seq payload (main_magic m)
                (next_address_data (main_external_address m)) (next_address_data (main_server_address m));
              m = (case prepared of None \<Rightarrow> m | Some _ \<Rightarrow> m\<lparr>main_counters := (main_counters m)(8 := main_counters m 8 + 1)\<rparr>);
              m = (if send_direct then m\<lparr>main_counters := (main_counters m)(6 := main_counters m 6 + 1)\<rparr> else m)
          in (m, c\<lparr>packets_sent := packets_sent c + 1\<rparr>,
              (case prepared of None \<Rightarrow> [] | Some (to_address, packet) \<Rightarrow> [Datagram to_address packet]) @
              (if send_direct then [Datagram (main_server_address m) direct_packet] else [])))"

definition next_client_send_packet ::
  "client_env \<Rightarrow> time \<Rightarrow> bytes \<Rightarrow> next_client \<Rightarrow> next_client_internal \<Rightarrow> next_client \<times> next_client_internal \<times> client_output list" where
  "next_client_send_packet env now payload m c =
     (let (stage, c) = send_packet_begin env m payload c in send_packet_finish env now payload stage m c)"

text \<open>A notification in \<open>next_client_update\<close>, with the payload the callback of the game gets.\<close>

fun process_notify :: "time \<Rightarrow> client_notify \<Rightarrow> next_client \<Rightarrow> next_client_internal \<Rightarrow> next_client \<times> next_client_internal \<times> bytes option" where
  "process_notify now (Packet_Received direct already_received _ payload) m c =
     (let m = m\<lparr>receive_bandwidth := snd (next_bandwidth_limiter_add_packet (receive_bandwidth m) now 0
                  (of_nat (next_wire_packet_bits (length payload))))\<rparr>
      in (m, c\<lparr>bandwidth_kbps_down := average_kbps (receive_bandwidth m)\<rparr>, if already_received then None else Some payload))"
| "process_notify now (Upgraded sid address mg) m c =
     (m\<lparr>main_upgraded := True, main_session_id := sid, main_external_address := address, main_magic := mg\<rparr>, c, None)"
| "process_notify now (Stats_Updated multi fallback) m c =
     (m\<lparr>main_multipath := multi, main_fallback_to_direct := fallback\<rparr>, c, None)"
| "process_notify now (Magic_Updated mg) m c = (m\<lparr>main_magic := mg\<rparr>, c, None)"
| "process_notify now Ready m c = (m\<lparr>main_ready := True\<rparr>, c, None)"

text \<open>The two threads of an open session: each event is a step of one of them.\<close>

record client_system =
  main_client :: next_client
  internal_client :: next_client_internal
  sending :: "(bytes \<times> send_stage) option"

datatype client_event =
  Receive next_address_t bytes nat "client_message option" time
| Update_Direct_Pings time
| Update_Next_Pings time
| Update_Fallback_To_Direct time
| Update_Route_Manager time
| Update_Upgrade_Response time
| Send_Begin bytes
| Send_Finish time
| Main_Notify client_notify time

fun internal_event :: "client_env \<Rightarrow> client_event \<Rightarrow> next_client_internal \<Rightarrow> next_client_internal \<times> client_output list" where
  "internal_event env (Receive from_address buffer n message now) c =
     next_client_internal_block_and_receive_packet env now from_address buffer n message c"
| "internal_event env (Update_Direct_Pings now) c = next_client_internal_update_direct_pings now c"
| "internal_event env (Update_Next_Pings now) c = next_client_internal_update_next_pings env now c"
| "internal_event env (Update_Fallback_To_Direct now) c = (next_client_internal_update_fallback_to_direct now c, [])"
| "internal_event env (Update_Route_Manager now) c = next_client_internal_update_route_manager now c"
| "internal_event env (Update_Upgrade_Response now) c = next_client_internal_update_upgrade_response now c"
| "internal_event env _ c = (c, [])"

fun client_step :: "client_env \<Rightarrow> client_event \<Rightarrow> client_system \<Rightarrow> client_system \<times> client_output list" where
  "client_step env (Send_Begin payload) s =
     (let (stage, c) = send_packet_begin env (main_client s) payload (internal_client s)
      in (s\<lparr>internal_client := c, sending := Some (payload, stage)\<rparr>, []))"
| "client_step env (Send_Finish now) s =
     (case sending s of None \<Rightarrow> (s, [])
      | Some (payload, stage) \<Rightarrow>
          let (m, c, out) = send_packet_finish env now payload stage (main_client s) (internal_client s)
          in (s\<lparr>main_client := m, internal_client := c, sending := None\<rparr>, out))"
| "client_step env (Main_Notify note now) s =
     (let (m, c, _) = process_notify now note (main_client s) (internal_client s)
      in (s\<lparr>main_client := m, internal_client := c\<rparr>, []))"
| "client_step env event s =
     (let (c, out) = internal_event env event (internal_client s) in (s\<lparr>internal_client := c\<rparr>, out))"

fun client_run :: "client_env \<Rightarrow> client_event list \<Rightarrow> client_system \<Rightarrow> client_system \<times> client_output list" where
  "client_run env [] s = (s, [])"
| "client_run env (e # es) s =
     (let (s, out) = client_step env e s; (s, rest) = client_run env es s in (s, out @ rest))"

text \<open>Of the internal client, the route manager, the window of payload sequences and the key that opens tokens decide what is sent
  and delivered.\<close>

type_synonym client_core = "next_route_manager \<times> next_replay_protection \<times> bytes"

definition core :: "next_client_internal \<Rightarrow> client_core" where
  "core c = (route_manager c, payload_replay_protection c, client_secret_key c)"

fun message_of :: "client_event \<Rightarrow> client_message option" where
  "message_of (Receive from_address buffer n message now) = message"
| "message_of _ = None"

text \<open>The payload sequences that an output hands to the game as new.\<close>

fun fresh_of :: "client_output \<Rightarrow> u64 list" where
  "fresh_of (Notify (Packet_Received direct already_received (Some seq) payload)) = (if already_received then [] else [seq])"
| "fresh_of _ = []"

definition fresh :: "client_output list \<Rightarrow> u64 list" where
  "fresh out = concat (map fresh_of out)"

text \<open>The abstract steps: what the manager may do, and a payload that passes the window.\<close>

inductive core_step :: "client_env \<Rightarrow> client_message option \<Rightarrow> client_core \<Rightarrow> u64 list \<Rightarrow> client_core \<Rightarrow> bool" for env where
  core_same: "core_step env msg (m, p, k) [] (m, p, k)"
| core_fall: "core_step env msg (m, p, k) [] (next_route_manager_fallback_to_direct m flags, p, k)"
| core_update: "core_step env (Some (Route_Update u)) (m, p, k) []
     (next_route_manager_update (env_crypto env) now m (update_type u) (update_num_tokens u) (update_tokens u) k mg a, p, k)"
| core_confirm: "\<not> manager_fallback_to_direct m \<Longrightarrow> pending_route (route_data m) \<Longrightarrow>
     core_step env msg (m, p, k) [] (snd (next_route_manager_confirm_pending_route m), p, k)"
| core_continue: "core_step env msg (m, p, k) [] (next_route_manager_confirm_continue_route m, p, k)"
| core_timeouts: "core_step env msg (m, p, k) [] (next_route_manager_check_for_timeouts now m, p, k)"
| core_timeouts_fall: "core_step env msg (m, p, k) []
     (next_route_manager_fallback_to_direct (next_route_manager_check_for_timeouts now m) flags, p, k)"
| core_requests: "core_step env msg (m, p, k) []
     (snd (next_route_manager_send_continue_request now (snd (next_route_manager_send_route_request now m))), p, k)"
| core_sequence: "core_step env msg (m, p, k) [] (snd (next_route_manager_next_send_sequence m), p, k)"
| core_payload: "seqs = [] \<or> \<not> fst (replay_receive p seq) \<and> seqs = [seq] \<Longrightarrow>
     core_step env msg (m, p, k) seqs (m, snd (replay_receive p seq), k)"

text \<open>A route is granted by a token in a route update that the key of the session opens.\<close>

definition grants :: "client_env \<Rightarrow> bytes \<Rightarrow> NextRouteUpdatePacket \<Rightarrow> u64 \<Rightarrow> u8 \<Rightarrow> bytes \<Rightarrow> bool" where
  "grants env k u sid version private_key \<longleftrightarrow> update_type u = 1 \<and>
     (\<exists>t rest. next_read_encrypted_route_token (env_crypto env) (update_tokens u) k = Some (t, rest) \<and>
        token_session_id t = sid \<and> token_session_version t = version \<and> token_private_key t = private_key)"

definition granted :: "client_env \<Rightarrow> bytes \<Rightarrow> NextRouteUpdatePacket set \<Rightarrow> next_route_manager \<Rightarrow> bool" where
  "granted env k U m \<longleftrightarrow>
     (let d = route_data m
      in (current_route d \<longrightarrow>
            (\<exists>u\<in>U. grants env k u (current_route_session_id d) (current_route_session_version d) (current_route_private_key d))) \<and>
         (pending_route d \<longrightarrow>
            (\<exists>u\<in>U. grants env k u (pending_route_session_id d) (pending_route_session_version d) (pending_route_private_key d))))"

definition updates_of :: "client_event list \<Rightarrow> NextRouteUpdatePacket set" where
  "updates_of es = {u. \<exists>e\<in>set es. message_of e = Some (Route_Update u)}"

text \<open>What the client sends once the manager has fallen back: only passthrough and direct packets.\<close>

fun quiet :: "client_output \<Rightarrow> bool" where
  "quiet (Datagram a packet) \<longleftrightarrow> packet ! 0 = 0 \<or> packet ! 0 = 20"
| "quiet _ \<longleftrightarrow> True"

definition fresh_client :: "next_client_internal \<Rightarrow> bool" where
  "fresh_client c \<longleftrightarrow> c = next_client_internal_create \<or> (\<exists>c0. session_open c0 \<and> c = command_close_session c0)"

definition example_client_env :: client_env where
  "example_client_env =
     \<lparr>env_crypto = example_crypto, kx_client_session_keys = (\<lambda>_ _ _. Some (replicate 32 1, replicate 32 2)),
      next_protocol_version = 1, next_platform_id = 1, next_platform_connection_type = 1, disable_network_next = False,
      next_relay_backend_public_key = replicate 32 3\<rparr>"

definition example_client_system :: client_system where
  "example_client_system =
     \<lparr>main_client =
        \<lparr>client_state = NEXT_CLIENT_STATE_OPEN, main_ready = True, main_upgraded = True, main_fallback_to_direct = False,
         main_multipath = False, main_open_session_sequence = 1, main_session_id = 5, main_magic = example_magic,
         main_server_address = zero_address, main_external_address = zero_address,
         send_bandwidth = next_bandwidth_limiter_reset, receive_bandwidth = next_bandwidth_limiter_reset,
         main_counters = (\<lambda>_. 0)\<rparr>,
      internal_client = fst (command_open_session example_client_env 1 zero_address (replicate 32 4, replicate 32 5)
        (replicate 32 6, replicate 32 7) next_client_internal_create),
      sending = None\<rparr>"

section \<open>What the session depends on\<close>

lemma fresh_simps [simp]:
  "fresh [] = []" "fresh (x # xs) = fresh_of x @ fresh xs" "fresh (xs @ ys) = fresh xs @ fresh ys"
  by (simp_all add: fresh_def)

lemma core_simps [simp]:
  "core (bump_counter i c) = core c"
  "core (fall_back flags c) = (next_route_manager_fallback_to_direct (route_manager c) flags, snd (core c))"
  "route_manager (bump_counter i c) = route_manager c"
  "fallback_to_direct (bump_counter i c) = fallback_to_direct c"
  by (simp_all add: core_def bump_counter_def fall_back_def)

lemma core_fallback: "core (c\<lparr>fallback_to_direct := b\<rparr>) = core c"
  by (simp add: core_def)

lemma core_send_to_server [simp]:
  "core (fst (snd (next_client_internal_send_packet_to_server c packet))) = core c"
  "fresh (snd (snd (next_client_internal_send_packet_to_server c packet))) = []"
  by (simp_all add: next_client_internal_send_packet_to_server_def core_def split: server_packet.split)

lemma send_to_server_cases:
  obtains c' where "next_client_internal_send_packet_to_server c packet = (False, c', [])" "core c' = core c"
  | c' where "next_client_internal_send_packet_to_server c packet = (True, c', [Server_Packet packet])" "core c' = core c"
  using core_send_to_server(1) [of c packet]
  by (cases "session_open c") (auto simp: next_client_internal_send_packet_to_server_def)

lemma core_payload_received:
  assumes "payload_received now seq c = (already, c')"
  shows "core c' = (route_manager c, snd (replay_receive (payload_replay_protection c) seq), client_secret_key c)"
    and "already = fst (replay_receive (payload_replay_protection c) seq)"
  using assms by (auto simp: payload_received_def core_def split: prod.splits bool.splits)

section \<open>Each event is an abstract step\<close>

lemma upgrade_request_core: "core_step env msg (core c) (fresh (snd (process_upgrade_request env now packet c))) (core (fst (process_upgrade_request env now packet c)))"
  by (auto simp: process_upgrade_request_def Let_def next_client_internal_send_packet_to_server_def core_def intro: core_same)

lemma upgrade_confirm_core: "core_step env msg (core c) (fresh (snd (process_upgrade_confirm env now a packet c))) (core (fst (process_upgrade_confirm env now a packet c)))"
  by (auto simp: process_upgrade_confirm_def Let_def core_def bump_counter_def intro: core_same split: option.split)

lemma direct_packet_core: "core_step env msg (core c) (fresh (snd (process_direct_packet now data n c))) (core (fst (process_direct_packet now data n c)))"
proof -
  obtain already c' where r: "payload_received now (load64 1 data) c = (already, c')" by fastforce
  show ?thesis
    using core_payload_received [OF r]
    by (auto simp: process_direct_packet_def Let_def r core_def [of c] simp del: One_nat_def intro: core_same core_payload)
qed

lemma server_to_client_core: "core_step env msg (core c) (fresh (snd (process_server_to_client env now data n c))) (core (fst (process_server_to_client env now data n c)))"
proof (cases "next_route_manager_process_server_to_client_packet (env_crypto env) (route_manager c) 4 data n")
  case None
  then show ?thesis by (simp add: process_server_to_client_def core_def core_same)
next
  case (Some seq)
  obtain already c' where r: "payload_received now seq c = (already, c')" by fastforce
  show ?thesis
    using core_payload_received [OF r]
    by (auto simp: process_server_to_client_def Let_def Some r core_def [of c] intro: core_payload)
qed

lemma route_response_core: "core_step env msg (core c) (fresh (snd (process_route_response env now data n c))) (core (fst (process_route_response env now data n c)))"
  by (auto simp: process_route_response_def next_route_manager_get_pending_route_data_def Let_def core_def
      intro: core_same core_confirm split: option.split prod.split bool.split)

lemma continue_response_core: "core_step env msg (core c) (fresh (snd (process_continue_response env data n c))) (core (fst (process_continue_response env data n c)))"
  by (auto simp: process_continue_response_def next_route_manager_get_current_route_data_def Let_def core_def
      intro: core_same core_continue split: option.split prod.split bool.split)

lemma session_pong_core: "core_step env msg (core c) (fresh (snd (process_session_pong env now data n c))) (core (fst (process_session_pong env now data n c)))"
  by (auto simp: process_session_pong_def core_def intro: core_same split: option.split prod.split bool.split)

lemma direct_pong_core: "core (process_direct_pong now seq c) = core c"
  by (simp add: process_direct_pong_def core_def)

lemma accept_route_update_core:
  "core (fst (accept_route_update now packet c)) = core c" "fresh (snd (accept_route_update now packet c)) = []"
  by (simp_all add: accept_route_update_def Let_def core_def bump_counter_def)

lemma route_update_core:
  "core_step env (Some (Route_Update packet)) (core c) (fresh (snd (process_route_update env now packet c)))
     (core (fst (process_route_update env now packet c)))"
proof (cases "fallback_to_direct c \<or> update_sequence packet < route_update_sequence c")
  case True
  then show ?thesis by (auto simp: process_route_update_def core_def core_same)
next
  case False
  then have go: "\<not> fallback_to_direct c" "\<not> update_sequence packet < route_update_sequence c" by simp_all
  show ?thesis
  proof (cases "update_sequence packet > route_update_sequence c")
    case True
    have "core (fst (process_route_update env now packet c)) =
      (next_route_manager_update (env_crypto env) now (route_manager c) (update_type packet) (update_num_tokens packet)
         (update_tokens packet) (client_secret_key c) (current_magic c) (client_external_address c),
       payload_replay_protection c, client_secret_key c) \<and> fresh (snd (process_route_update env now packet c)) = []"
      using go True
      by (simp add: process_route_update_def Let_def split_beta accept_route_update_core core_fallback) (simp add: core_def)
    then show ?thesis unfolding core_def [of c] by (metis core_update)
  next
    case other: False
    then show ?thesis
      using go by (auto simp: process_route_update_def Let_def split_beta core_def [of c] intro: core_same)
  qed
qed

lemmas handler_cores =
  upgrade_request_core upgrade_confirm_core direct_packet_core server_to_client_core route_response_core
  continue_response_core session_pong_core

lemma core_unchanged: "core c' = core c \<Longrightarrow> core_step env msg (core c) [] (core c')"
  by (simp add: core_def core_same)

lemma network_packet_core:
  "core_step env message (core c)
     (fresh (snd (next_client_internal_process_network_next_packet env now a buffer n message c)))
     (core (fst (next_client_internal_process_network_next_packet env now a buffer n message c)))"
  unfolding next_client_internal_process_network_next_packet_def Let_def
  by (auto simp: handler_cores core_unchanged direct_pong_core route_update_core split: option.split client_message.split)

lemma receive_core:
  "core_step env message (core c)
     (fresh (snd (next_client_internal_block_and_receive_packet env now a buffer n message c)))
     (core (fst (next_client_internal_block_and_receive_packet env now a buffer n message c)))"
  by (simp add: next_client_internal_block_and_receive_packet_def network_packet_core core_unchanged
      next_client_internal_process_passthrough_packet_def Let_def)

lemma direct_pings_core:
  "core_step env msg (core c) (fresh (snd (next_client_internal_update_direct_pings now c)))
     (core (fst (next_client_internal_update_direct_pings now c)))"
proof -
  obtain seq history where p: "next_ping_history_ping_sent (direct_ping_history c) now = (seq, history)" by fastforce
  show ?thesis
    using send_to_server_cases [of "c\<lparr>direct_ping_history := history\<rparr>" "Direct_Ping seq"]
    by (auto simp: next_client_internal_update_direct_pings_def p Let_def core_def next_client_internal_send_packet_to_server_def
        fall_back_def intro: core_same core_fall)
qed

lemma next_pings_core:
  "core_step env msg (core c) (fresh (snd (next_client_internal_update_next_pings env now c)))
     (core (fst (next_client_internal_update_next_pings env now c)))"
  by (auto simp: next_client_internal_update_next_pings_def Let_def core_def fall_back_def split_beta intro: core_same core_fall)

lemma fallback_core: "core_step env msg (core c) [] (core (next_client_internal_update_fallback_to_direct now c))"
  by (auto simp: next_client_internal_update_fallback_to_direct_def Let_def core_def fall_back_def bump_counter_def
      intro: core_same core_timeouts core_timeouts_fall core_fall)

lemma route_manager_core:
  "core_step env msg (core c) (fresh (snd (next_client_internal_update_route_manager now c)))
     (core (fst (next_client_internal_update_route_manager now c)))"
  by (auto simp: next_client_internal_update_route_manager_def Let_def split_beta core_def intro: core_same core_requests
      split: option.split)

lemma upgrade_response_core:
  "core_step env msg (core c) (fresh (snd (next_client_internal_update_upgrade_response now c)))
     (core (fst (next_client_internal_update_upgrade_response now c)))"
  by (auto simp: next_client_internal_update_upgrade_response_def Let_def core_def fall_back_def intro: core_same core_fall
      split: option.split)

lemma internal_event_core:
  "core_step env (message_of e) (core c) (fresh (snd (internal_event env e c))) (core (fst (internal_event env e c)))"
  by (cases e) (simp_all add: receive_core direct_pings_core next_pings_core fallback_core route_manager_core
      upgrade_response_core core_unchanged)

lemma send_begin_core: "core_step env msg (core c) [] (core (snd (send_packet_begin env m payload c)))"
  by (auto simp: send_packet_begin_def Let_def split_beta core_def intro: core_same core_sequence)

lemma send_finish_core:
  "core (fst (snd (send_packet_finish env now payload stage m c))) = core c"
  "fresh (snd (snd (send_packet_finish env now payload stage m c))) = []"
  by (auto simp: send_packet_finish_def Let_def core_def next_client_send_packet_direct_def split: send_stage.split option.split)

lemma notify_core: "core (fst (snd (process_notify now note m c))) = core c"
  by (cases "note") (simp_all add: Let_def core_def)

text \<open>The refinement: whatever the event, the session makes an abstract step, and hands over what the step lets pass.\<close>

lemma client_step_core:
  "core_step env (message_of e) (core (internal_client s)) (fresh (snd (client_step env e s)))
     (core (internal_client (fst (client_step env e s))))"
proof (cases "(\<exists>payload. e = Send_Begin payload) \<or> (\<exists>now. e = Send_Finish now) \<or> (\<exists>note now. e = Main_Notify note now)")
  case True
  then show ?thesis
    using send_begin_core send_finish_core notify_core
    by (auto simp: split_beta core_unchanged split: option.split)
next
  case False
  then have "client_step env e s = (s\<lparr>internal_client := fst (internal_event env e (internal_client s))\<rparr>,
      snd (internal_event env e (internal_client s)))"
    by (cases e) (simp_all add: split_beta)
  then show ?thesis using internal_event_core by simp
qed

section \<open>Invariants of the abstract steps\<close>

lemma core_step_route_ok: "core_step env msg (m, p, k) seqs (m', p', k') \<Longrightarrow> route_ok m \<Longrightarrow> route_ok m'"
  by (cases rule: core_step.cases) (auto simp: manager_keeps_route_ok)

lemma core_step_key: "core_step env msg (m, p, k) seqs (m', p', k') \<Longrightarrow> k' = k"
  by (cases rule: core_step.cases) auto

lemma core_step_fallen:
  assumes "core_step env msg (m, p, k) seqs (m', p', k')" "manager_fallback_to_direct m"
  shows "manager_fallback_to_direct m'"
  using assms(1) by cases
    (use assms(2) in \<open>simp_all add: fallen next_route_manager_confirm_continue_route_def next_route_manager_next_send_sequence_def Let_def\<close>)

lemma core_step_window:
  assumes "core_step env msg (m, p, k) seqs (m', p', k')" "window_ok p A"
  shows "\<exists>A'. window_ok p' A' \<and> A \<subseteq> A' \<and> set seqs \<subseteq> A' \<and> distinct seqs \<and> A \<inter> set seqs = {}"
  using assms(1)
proof cases
  case (core_payload seq)
  show ?thesis
  proof (cases "fst (replay_receive p seq)")
    case True
    then show ?thesis using core_payload replay.reject_keeps [OF assms(2) True] by auto
  next
    case False
    have "seq \<notin> A" using replay.seen_rejected [OF assms(2), of seq] False by blast
    then show ?thesis
      using core_payload replay.accept_adds [OF assms(2) False] by (intro exI [of _ "insert seq A"]) auto
  qed
qed (use assms(2) in auto)

lemma granted_mono: "granted env k U m \<Longrightarrow> U \<subseteq> V \<Longrightarrow> granted env k V m"
  unfolding granted_def Let_def by blast

lemma granted_fall: "granted env k U m \<Longrightarrow> granted env k U (next_route_manager_fallback_to_direct m flags)"
  by (simp add: granted_def next_route_manager_fallback_to_direct_def retire_route_def Let_def)

lemma granted_timeouts: "granted env k U m \<Longrightarrow> granted env k U (next_route_manager_check_for_timeouts now m)"
  by (simp add: next_route_manager_check_for_timeouts_def Let_def granted_fall)

lemma granted_requests:
  "granted env k U m \<Longrightarrow> granted env k U (snd (next_route_manager_send_route_request now m))"
  "granted env k U m \<Longrightarrow> granted env k U (snd (next_route_manager_send_continue_request now m))"
  by (simp_all add: granted_def next_route_manager_send_route_request_def next_route_manager_send_continue_request_def Let_def)

lemma granted_confirms:
  "granted env k U m \<Longrightarrow> pending_route (route_data m) \<Longrightarrow> granted env k U (snd (next_route_manager_confirm_pending_route m))"
  "granted env k U m \<Longrightarrow> granted env k U (next_route_manager_confirm_continue_route m)"
  by (simp_all add: granted_def next_route_manager_confirm_pending_route_def next_route_manager_confirm_continue_route_def Let_def)

lemma granted_sequence: "granted env k U m \<Longrightarrow> granted env k U (snd (next_route_manager_next_send_sequence m))"
  by (simp add: granted_def next_route_manager_next_send_sequence_def Let_def)

lemma granted_begin:
  assumes "granted env k U m" "u \<in> U" "update_type u = 1"
  shows "granted env k U (next_route_manager_begin_next_route (env_crypto env) now m n (update_tokens u) k mg a)"
proof (cases "next_read_encrypted_route_token (env_crypto env) (update_tokens u) k")
  case None
  then show ?thesis using assms(1) by (simp add: next_route_manager_begin_next_route_def granted_fall)
next
  case (Some tr)
  then obtain t rest where t: "next_read_encrypted_route_token (env_crypto env) (update_tokens u) k = Some (t, rest)" by (cases tr) simp
  have "grants env k u (token_session_id t) (token_session_version t) (token_private_key t)"
    using assms(3) t by (simp add: grants_def)
  then show ?thesis
    using assms(1,2) by (auto simp: granted_def next_route_manager_begin_next_route_def t Let_def)
qed

lemma granted_continue:
  "granted env k U m \<Longrightarrow> granted env k U (next_route_manager_continue_next_route cr now m n tokens key mg a)"
  using granted_fall [of env k U m]
  by (auto simp: next_route_manager_continue_next_route_def Let_def split: option.split) (simp add: granted_def Let_def)

lemma granted_direct: "granted env k U m \<Longrightarrow> granted env k U (next_route_manager_direct_route m)"
  by (simp add: granted_def next_route_manager_direct_route_def retire_route_def Let_def)

lemma granted_update:
  "granted env k U m \<Longrightarrow> u \<in> U \<Longrightarrow>
   granted env k U (next_route_manager_update (env_crypto env) now m (update_type u) n (update_tokens u) k mg a)"
  by (simp add: next_route_manager_update_def granted_begin granted_continue granted_direct)

lemmas granted_steps = granted_fall granted_timeouts granted_requests granted_confirms granted_sequence granted_update

lemma core_step_granted:
  assumes "core_step env msg (m, p, k) seqs (m', p', k')" "granted env k U m" "\<And>u. msg = Some (Route_Update u) \<Longrightarrow> u \<in> U"
  shows "granted env k U m'"
  using assms(1) by cases (use assms(2,3) in \<open>auto simp: granted_steps\<close>)

section \<open>Runs\<close>

text \<open>What holds of the runs of any system of events, once it holds of its steps.\<close>

locale event_system =
  fixes step :: "'e \<Rightarrow> 's \<Rightarrow> 's \<times> 'o list"
    and run :: "'e list \<Rightarrow> 's \<Rightarrow> 's \<times> 'o list"
  assumes run_Nil: "run [] s = (s, [])"
    and run_Cons: "run (e # es) s = (fst (run es (fst (step e s))), snd (step e s) @ snd (run es (fst (step e s))))"
begin

lemma run_append: "run (es @ es') s = (fst (run es' (fst (run es s))), snd (run es s) @ snd (run es' (fst (run es s))))"
  by (induction es arbitrary: s) (simp_all add: run_Nil run_Cons)

lemma run_single: "run [e] s = step e s"
  by (simp add: run_Nil run_Cons)

lemma run_invariant:
  assumes "\<And>e s. e \<in> set es \<Longrightarrow> I s \<Longrightarrow> I (fst (step e s)) \<and> list_all Q (snd (step e s))" "I s"
  shows "I (fst (run es s)) \<and> list_all Q (snd (run es s))"
  using assms by (induction es arbitrary: s) (simp_all add: run_Nil run_Cons)

end

interpretation session: event_system "client_step env" "client_run env" for env
  by unfold_locales (simp_all add: Let_def split_beta)

lemma client_step_invariants:
  fixes s e env
  defines "c \<equiv> internal_client s" and "c' \<equiv> internal_client (fst (client_step env e s))"
  shows "route_ok (route_manager c) \<Longrightarrow> route_ok (route_manager c')"
    and "client_secret_key c' = client_secret_key c"
    and "manager_fallback_to_direct (route_manager c) \<Longrightarrow> manager_fallback_to_direct (route_manager c')"
    and "granted env (client_secret_key c) U (route_manager c) \<Longrightarrow> updates_of [e] \<subseteq> U \<Longrightarrow>
         granted env (client_secret_key c) U (route_manager c')"
    and "window_ok (payload_replay_protection c) A \<Longrightarrow>
         \<exists>A'. window_ok (payload_replay_protection c') A' \<and> A \<subseteq> A' \<and> set (fresh (snd (client_step env e s))) \<subseteq> A' \<and>
              distinct (fresh (snd (client_step env e s))) \<and> A \<inter> set (fresh (snd (client_step env e s))) = {}"
proof -
  note step = client_step_core [of env e s, unfolded core_def, folded c_def c'_def]
  show "route_ok (route_manager c) \<Longrightarrow> route_ok (route_manager c')" by (rule core_step_route_ok [OF step])
  show "client_secret_key c' = client_secret_key c" by (rule core_step_key [OF step])
  show "manager_fallback_to_direct (route_manager c) \<Longrightarrow> manager_fallback_to_direct (route_manager c')"
    by (rule core_step_fallen [OF step])
  show "granted env (client_secret_key c) U (route_manager c) \<Longrightarrow> updates_of [e] \<subseteq> U \<Longrightarrow>
         granted env (client_secret_key c) U (route_manager c')"
    by (erule core_step_granted [OF step]) (auto simp: updates_of_def)
  show "window_ok (payload_replay_protection c) A \<Longrightarrow>
         \<exists>A'. window_ok (payload_replay_protection c') A' \<and> A \<subseteq> A' \<and> set (fresh (snd (client_step env e s))) \<subseteq> A' \<and>
              distinct (fresh (snd (client_step env e s))) \<and> A \<inter> set (fresh (snd (client_step env e s))) = {}"
    by (rule core_step_window [OF step])
qed

text \<open>No payload is new twice.\<close>

lemma run_delivers_once:
  assumes "window_ok (payload_replay_protection (internal_client s)) A"
  shows "distinct (fresh (snd (client_run env es s))) \<and> A \<inter> set (fresh (snd (client_run env es s))) = {}"
  using assms
proof (induction es arbitrary: s A)
  case (Cons e es)
  let ?s = "fst (client_step env e s)" and ?f = "fresh (snd (client_step env e s))"
  obtain A' where A': "window_ok (payload_replay_protection (internal_client ?s)) A'" "A \<subseteq> A'" "set ?f \<subseteq> A'"
      "distinct ?f" "A \<inter> set ?f = {}"
    using client_step_invariants(5) [OF Cons.prems] by blast
  have "distinct (fresh (snd (client_run env es ?s)))" "A' \<inter> set (fresh (snd (client_run env es ?s))) = {}"
    using Cons.IH [OF A'(1)] by blast+
  then show ?case using A' unfolding session.run_Cons by auto
qed simp

lemma send_to_server_quiet: "list_all quiet (snd (snd (next_client_internal_send_packet_to_server c packet)))"
  by (simp add: next_client_internal_send_packet_to_server_def)

lemma route_update_quiet: "list_all quiet (snd (process_route_update env now packet c))"
proof -
  have "list_all quiet (snd (accept_route_update now packet c))" for c
    by (simp add: accept_route_update_def Let_def)
  then show ?thesis
    using send_to_server_quiet by (simp add: process_route_update_def Let_def split_beta)
qed

lemma handlers_quiet:
  "list_all quiet (snd (process_upgrade_request env now up c))" "list_all quiet (snd (process_upgrade_confirm env now a uc c))"
  "list_all quiet (snd (process_direct_packet now data n c))" "list_all quiet (snd (process_route_response env now data n c))"
  "list_all quiet (snd (process_continue_response env data n c))" "list_all quiet (snd (process_server_to_client env now data n c))"
  "list_all quiet (snd (process_session_pong env now data n c))"
  by (auto simp: process_upgrade_request_def process_upgrade_confirm_def process_direct_packet_def process_route_response_def
      process_continue_response_def process_server_to_client_def process_session_pong_def Let_def split_beta
      next_client_internal_send_packet_to_server_def split: option.split bool.split)

lemma receive_quiet: "list_all quiet (snd (next_client_internal_block_and_receive_packet env now a buffer n message c))"
  unfolding next_client_internal_block_and_receive_packet_def next_client_internal_process_network_next_packet_def
    next_client_internal_process_passthrough_packet_def Let_def
  by (auto simp: handlers_quiet route_update_quiet split: option.split client_message.split)

lemma fallen_internal_quiet:
  assumes "manager_fallback_to_direct (route_manager c)" "route_ok (route_manager c)"
  shows "list_all quiet (snd (internal_event env e c))"
proof -
  have no_route: "\<not> next_route_manager_has_network_next_route (route_manager c)"
    using assms by (simp add: route_ok_def next_route_manager_has_network_next_route_def)
  have "list_all quiet (snd (next_client_internal_update_next_pings env now c))" for now
    using no_route by (simp add: next_client_internal_update_next_pings_def Let_def)
  moreover have "list_all quiet (snd (next_client_internal_update_route_manager now c))" for now
    using fallen_requests [OF assms(1)] by (simp add: next_client_internal_update_route_manager_def)
  moreover have "list_all quiet (snd (next_client_internal_update_direct_pings now c))" for now
    by (auto simp: next_client_internal_update_direct_pings_def next_client_internal_send_packet_to_server_def Let_def split_beta)
  moreover have "list_all quiet (snd (next_client_internal_update_upgrade_response now c))" for now
    by (auto simp: next_client_internal_update_upgrade_response_def Let_def split: option.split)
  ultimately show ?thesis using receive_quiet by (cases e) simp_all
qed

lemma fallen_send_quiet:
  assumes "manager_fallback_to_direct (route_manager c)" "route_ok (route_manager c)"
  shows "list_all quiet (snd (snd (send_packet_finish env now payload stage m c)))"
  using fallen_sends_nothing [OF assms]
  by (cases stage) (simp_all add: send_packet_finish_def Let_def next_client_send_packet_direct_def next_write_direct_packet_def)

lemma fallen_step_quiet:
  assumes "manager_fallback_to_direct (route_manager (internal_client s))" "route_ok (route_manager (internal_client s))"
  shows "list_all quiet (snd (client_step env e s))"
  using fallen_internal_quiet [OF assms] fallen_send_quiet [OF assms]
  by (cases e) (auto simp: split_beta simp del: internal_event.simps split: option.split)

text \<open>Main-thread state is only what notifications make it; the session stays open.\<close>

lemma step_keeps_open: "client_state (main_client (fst (client_step env e s))) = client_state (main_client s)"
proof -
  have "client_state (fst (send_packet_finish env now payload stage m c)) = client_state m" for now payload stage m c
    by (auto simp: send_packet_finish_def next_client_send_packet_direct_def Let_def split: send_stage.split option.split)
  moreover have "client_state (fst (process_notify now nt m c)) = client_state m" for now nt m c
    by (cases nt) (simp_all add: Let_def)
  ultimately show ?thesis by (cases e) (auto simp: split_beta simp del: internal_event.simps split: option.split)
qed

text \<open>A game packet is sent over the route, directly, or both, but never dropped.\<close>

lemma send_reaches_wire:
  assumes "client_state m = NEXT_CLIENT_STATE_OPEN" "stage \<noteq> Not_Sent" "0 < length payload" "length payload \<le> 1383"
  shows "snd (snd (send_packet_finish env now payload stage m c)) \<noteq> []"
  using assms
  by (cases stage) (auto simp: send_packet_finish_def next_client_send_packet_direct_def Let_def split: option.split)

section \<open>A session\<close>

lemma fresh_client_window: "fresh_client c \<Longrightarrow> payload_replay_protection c = next_replay_protection_reset"
  by (auto simp: fresh_client_def next_client_internal_create_def command_close_session_def bump_counter_def)

lemma opened_session:
  fixes env now address kx_keys box_keys
  assumes "fresh_client c0"
  defines "c \<equiv> fst (command_open_session env now address kx_keys box_keys c0)"
  shows "window_ok (payload_replay_protection c) {}" "route_ok (route_manager c)" "granted env k {} (route_manager c)"
proof -
  have rp: "payload_replay_protection c = next_replay_protection_reset"
    using fresh_client_window [OF assms(1)]
    by (simp add: c_def command_open_session_def bump_counter_def Let_def split: option.split)
  have rm: "\<exists>m. route_manager c = next_route_manager_direct_route (next_route_manager_reset m)"
    by (auto simp: c_def command_open_session_def bump_counter_def Let_def)
  show "window_ok (payload_replay_protection c) {}" unfolding rp by (rule replay.start_ok)
  show "route_ok (route_manager c)" "granted env k {} (route_manager c)"
    using rm by (auto simp: route_ok_def granted_def next_route_manager_direct_route_def next_route_manager_reset_def
        zero_route_data_def retire_route_def Let_def)
qed

lemma run_invariants:
  fixes es
  assumes "route_ok (route_manager (internal_client s))" "granted env (client_secret_key (internal_client s)) {} (route_manager (internal_client s))"
  defines "c \<equiv> internal_client s" and "c' \<equiv> internal_client (fst (client_run env es s))"
  shows "route_ok (route_manager c')" "client_secret_key c' = client_secret_key c"
    "granted env (client_secret_key c) (updates_of es) (route_manager c')"
    "client_state (main_client (fst (client_run env es s))) = client_state (main_client s)"
proof -
  let ?I = "\<lambda>t. route_ok (route_manager (internal_client t)) \<and> client_secret_key (internal_client t) = client_secret_key c \<and>
    granted env (client_secret_key c) (updates_of es) (route_manager (internal_client t)) \<and>
    client_state (main_client t) = client_state (main_client s)"
  have "?I (fst (client_step env e t))" if "e \<in> set es" "?I t" for e t
  proof -
    have "updates_of [e] \<subseteq> updates_of es" using that(1) by (auto simp: updates_of_def)
    then show ?thesis
      using that(2) client_step_invariants(1,2,4) [where s = t and e = e and env = env] step_keeps_open [of env e t] by simp
  qed
  moreover have "?I s" using assms(1) granted_mono [OF assms(2)] by (simp add: c_def)
  ultimately have "?I (fst (client_run env es s))"
    using session.run_invariant [of es ?I env "\<lambda>_. True" s] by (simp add: list_all_iff)
  then show "route_ok (route_manager c')" "client_secret_key c' = client_secret_key c"
    "granted env (client_secret_key c) (updates_of es) (route_manager c')"
    "client_state (main_client (fst (client_run env es s))) = client_state (main_client s)"
    by (simp_all add: c'_def)
qed

lemma fallen_run:
  assumes "manager_fallback_to_direct (route_manager (internal_client s))" "route_ok (route_manager (internal_client s))"
  shows "manager_fallback_to_direct (route_manager (internal_client (fst (client_run env es s)))) \<and>
    \<not> next_route_manager_has_network_next_route (route_manager (internal_client (fst (client_run env es s)))) \<and>
    list_all quiet (snd (client_run env es s))"
proof -
  let ?I = "\<lambda>t. manager_fallback_to_direct (route_manager (internal_client t)) \<and> route_ok (route_manager (internal_client t))"
  have "?I (fst (client_run env es s)) \<and> list_all quiet (snd (client_run env es s))"
    using assms by (intro session.run_invariant) (simp_all add: client_step_invariants(1,3) fallen_step_quiet)
  then show ?thesis by (simp add: route_ok_def next_route_manager_has_network_next_route_def)
qed



end
