(* ===== verification/Spec2Isabelle.thy ===== *)
theory Spec2Isabelle
  imports Bpf_Maps Relay_Properties Relay_System Route_Travel Session_Update Sdk_Client
begin

text \<open>
  A verification development of Network Next, a system that steers the UDP traffic of games over a network of relays.

  \<^bold>\<open>The program.\<close> A client and a server link the SDK (\<open>src/sdk\<close>). Their packets travel through relays
  (\<open>src/relay/xdp\<close>): a datapath that runs in the kernel as an XDP program, or in user space over a socket, and a control
  plane of two threads. The main thread reports to the backend (\<open>src/modules\<close>, \<open>src/cmd\<close>) once per second and takes from
  its answer the current time, the magic values and the set of other relays. The ping thread pings these relays. The threads
  exchange messages over two queues and share the maps with the datapath. From the costs the relays report, the backend
  computes the best routes between all pairs of relays. For every session, each ten seconds, it decides whether the
  session takes a route, and hands out encrypted tokens, one for each node of the route. The client sends the tokens along
  the route to set it up, and falls back to direct traffic when anything goes wrong.

  \<^bold>\<open>Shared.\<close>
    \<^item> \<open>Next_Prelude\<close>: byte strings, little-endian words, frame buffers, ring indices.
    \<^item> \<open>Packet_Filter\<close>: the pittle and chonkle bytes every packet carries, generated and checked
      (\<open>next_packet_filter.cpp\<close>, \<open>next_hash.cpp\<close>, the generator in \<open>relay_ping.c\<close> and the unrolled copies in \<open>relay_xdp.c\<close>).
    \<^item> \<open>Wire_Encoding\<close>, \<open>Relay_Packets\<close>: the byte encodings of the relay (\<open>relay_encoding.h\<close>) and of the backend
      (\<open>encoding.go\<close>), and the two relay update packets (\<open>relay_packets.go\<close>), with their round trips.

  \<^bold>\<open>The relay's datapath.\<close>
    \<^item> \<open>Bpf_Maps\<close>: the chained hash tables of \<open>relay_userspace.c\<close>, refined to finite maps, and the timeout sweep
      of \<open>relay_main.c\<close>.
    \<^item> \<open>Relay_Types\<close>: \<open>relay_shared.h\<close> and \<open>relay_constants.h\<close>.
    \<^item> \<open>Relay_Xdp\<close>: \<open>relay_xdp_filter\<close>, one definition per packet type, over the record of the five maps. The state of the
      datapath is explicit: a step takes a frame and the maps to a verdict, the rewritten frame and the new maps.
    \<^item> \<open>Relay_Frames\<close>, \<open>Relay_Sessions\<close>, \<open>Relay_Output\<close>, \<open>Relay_Accounting\<close>, \<open>Relay_Admission\<close>: the lemmas on the datapath,
      in this order the layout of rewritten frames, the life of a session, what is sent, the counters, and who enters the
      whitelist and the session map.
    \<^item> \<open>Relay_Examples\<close>, \<open>Relay_Properties\<close>: an example relay and the properties of the datapath as a whole.

  \<^bold>\<open>The relay's control plane.\<close>
    \<^item> \<open>Relay_Queue\<close>: the ring buffers of \<open>relay_queue.h\<close> and \<open>next_queue.h\<close>, both instances of one FIFO interface.
    \<^item> \<open>Relay_Manager\<close>: \<open>relay_ping_history.c\<close> and \<open>relay_manager.c\<close>.
    \<^item> \<open>Relay_Ping\<close>: the bodies of the ping thread's loop in \<open>relay_ping.c\<close>.
    \<^item> \<open>Relay_Control\<close>: the main thread, \<open>relay_main.c\<close>: start-up, timeouts, the report to the backend, its response.
    \<^item> \<open>Relay_System\<close>: the two threads and the maps they share as one transition system; that the threads stay in step,
      that updates are applied, and what failures lead to.

  \<^bold>\<open>The backend.\<close>
    \<^item> \<open>Core_Tokens\<close>: the packet filter in Go, ping tokens, route and continue tokens (\<open>core.go\<close>).
    \<^item> \<open>Core_Routes\<close>: the route optimizer (\<open>core.go\<close>): the routes it stores are loop free, their costs are the sums of their
      links, and the cheapest route found is kept.
    \<^item> \<open>Core_Selection\<close>: the choice of a route for a session, with its filters and decisions (\<open>core.go\<close>).
    \<^item> \<open>Session_Update\<close>: the handler of session updates (\<open>session_update.go\<close>, \<open>sdk_handlers.go\<close>): it never panics on
      well-formed requests, keeps the session data well-formed, and takes sessions off routes for good.

  \<^bold>\<open>The SDK.\<close>
    \<^item> \<open>Sdk_Packets\<close>: headers, tokens and the packet writers (\<open>next_header.h\<close>, \<open>next_route_token.h\<close>,
      \<open>next_continue_token.h\<close>, \<open>next_packets.cpp\<close>).
    \<^item> \<open>Route_Travel\<close>: packets end to end: the SDK writes them, relays pass them on hop by hop, the SDK reads them.
    \<^item> \<open>Sdk_Trackers\<close>: replay protection, trackers and ping history of \<open>sdk/include\<close>.
    \<^item> \<open>Sdk_Route_Manager\<close>: the route manager of the client (\<open>next_route_manager.cpp\<close>).
    \<^item> \<open>Sdk_Client\<close>: the client's two threads (\<open>next_client.cpp\<close>) as a system of events that refines a few abstract steps of
      the route manager and the replay window.

  \<^bold>\<open>What is a parameter.\<close> SHA-256 and XChaCha20-Poly1305 (libsodium, or the kernel's functions) are the fields of
  the record \<open>crypto\<close>; what is used of them is that a hash has 32 bytes and that decryption keeps the length, and for the
  packets that travel end to end, that decryption undoes encryption. Key exchange, signatures, the serializer of session
  data, random numbers, the rounding of floating point numbers, the clock, the contents of memory fresh from \<open>malloc\<close> and
  the bits of floating point numbers on the wire are arguments as well.

  \<^bold>\<open>Bounds and fuel.\<close> The sweep over a hash table and the draining of a queue are loops with fuel. The lemmas show
  that the number of entries, plus one, is enough fuel, so that both loops end. All other loops are structural recursions
  or have a termination proof.

  \<^bold>\<open>Not modelled.\<close> Sockets, threads, clocks and process set-up; libsodium; in the SDK the server, the client relays,
  the reported statistics and the bit-packed packets; in the backend the services around the handlers, the databases, the
  portal and analytics; tools, tests and deployment. These parts are input and output, depend on libraries outside the
  repository, or are configuration. Machine words have their widths and wrap; doubles are rationals, so rounding is not
  modelled. The byte order is little endian, as on every platform the relay runs on. The steps of the concurrent systems
  are critical sections or bodies of loops; data races inside of them are not modelled.
\<close>

end
